(* ===== verification/Prelude.thy ===== *)
theory Prelude
  imports Main "HOL-Library.AList" "HOL-Library.Monad_Syntax"
begin

text \<open>
  Shared vocabulary of the development: Go's error values with wrapping, Go maps as
  association lists with distinct keys, buffered channels, and the functions of the
  standard package \<^verbatim>\<open>strings\<close> the sources call, with the laws the component
  theories use.  Strings are byte sequences, as in Go.
\<close>

named_theorems gomap_simps \<open>laws of Go maps\<close>
named_theorems wf_simps \<open>unfolding of well-formedness predicates\<close>

section \<open>Errors\<close>

text \<open>
  A Go error is either a sentinel made by \<^verbatim>\<open>errors.New\<close> (identified by its text; the
  sources never reuse a text) or the result of \<^verbatim>\<open>fmt.Errorf\<close>, a sequence of literal
  pieces and of errors wrapped with \<^verbatim>\<open>%w\<close>.
\<close>

datatype goerr = Sentinel string | Errorf "errpart list"
  and errpart = Lit string | Wrap goerr

primrec Error :: "goerr \<Rightarrow> string"
  and Error_parts :: "errpart list \<Rightarrow> string"
  and Error_part :: "errpart \<Rightarrow> string" where
  "Error (Sentinel s) = s"
| "Error (Errorf ps) = Error_parts ps"
| "Error_parts [] = []"
| "Error_parts (p # ps) = Error_part p @ Error_parts ps"
| "Error_part (Lit s) = s"
| "Error_part (Wrap e) = Error e"

primrec errors_is :: "goerr \<Rightarrow> string \<Rightarrow> bool"
  and parts_is :: "errpart list \<Rightarrow> string \<Rightarrow> bool"
  and part_is :: "errpart \<Rightarrow> string \<Rightarrow> bool" where
  "errors_is (Sentinel s) t = (s = t)"
| "errors_is (Errorf ps) t = parts_is ps t"
| "parts_is [] t = False"
| "parts_is (p # ps) t = (part_is p t \<or> parts_is ps t)"
| "part_is (Lit s) t = False"
| "part_is (Wrap e) t = errors_is e t"

section \<open>Go maps\<close>

text \<open>
  A Go map is an association list; \<^verbatim>\<open>m[k]\<close> is \<^const>\<open>map_of\<close>, \<^verbatim>\<open>m[k] = v\<close> is
  \<^const>\<open>AList.update\<close>, \<^verbatim>\<open>delete(m, k)\<close> is \<^const>\<open>AList.delete\<close>, \<^verbatim>\<open>len(m)\<close> is
  \<^const>\<open>length\<close>.  Keys are distinct (\<open>gm_wf\<close>), which every operation keeps.
\<close>

type_synonym ('k, 'v) gomap = "('k \<times> 'v) list"

definition gm_wf :: "('k, 'v) gomap \<Rightarrow> bool" where
  "gm_wf m \<longleftrightarrow> distinct (map fst m)"

lemma gm_wf_empty [simp]: "gm_wf []"
  by (simp add: gm_wf_def)

lemma gm_wf_update [simp]: "gm_wf m \<Longrightarrow> gm_wf (AList.update k v m)"
  by (simp add: gm_wf_def distinct_update)

lemma gm_wf_delete [simp]: "gm_wf m \<Longrightarrow> gm_wf (AList.delete k m)"
  by (simp add: gm_wf_def distinct_delete)

lemma gm_get_update [gomap_simps]:
  "map_of (AList.update k v m) k' = (if k' = k then Some v else map_of m k')"
  by (simp add: update_conv')

lemma gm_get_delete [gomap_simps]:
  "map_of (AList.delete k m) k' = (if k' = k then None else map_of m k')"
  by (simp add: delete_conv')

lemma gm_wf_in_set: "gm_wf m \<Longrightarrow> (k, v) \<in> set m \<longleftrightarrow> map_of m k = Some v"
  by (auto simp: gm_wf_def)

lemma gm_wf_filter [simp]: "gm_wf m \<Longrightarrow> gm_wf (filter P m)"
  by (auto simp: gm_wf_def distinct_map inj_on_def)

lemma gm_get_filter:
  assumes "gm_wf m"
  shows "map_of (filter (\<lambda>(k, v). P k v) m) k =
    (case map_of m k of None \<Rightarrow> None | Some v \<Rightarrow> if P k v then Some v else None)"
  using assms
proof (induction m)
  case Nil
  then show ?case by simp
next
  case (Cons kv m)
  obtain k' v' where kv: "kv = (k', v')" by (cases kv)
  from Cons.prems have wf: "gm_wf m" and fresh: "k' \<notin> fst ` set m"
    by (auto simp: gm_wf_def kv)
  have none: "map_of m k' = None"
    using fresh by (simp add: map_of_eq_None_iff)
  show ?case
    using Cons.IH [OF wf] none by (auto simp: kv split: option.splits)
qed

section \<open>Channels\<close>

text \<open>
  A buffered channel: the values waiting in its buffer, its capacity and whether it was
  closed.  A send in a \<^verbatim>\<open>select\<close> with a \<^verbatim>\<open>default\<close> branch succeeds exactly when the buffer
  has room.  Sending on or closing a closed channel panics, which is \<^const>\<open>None\<close>.
\<close>

record 'a chan =
  buf :: "'a list"
  cap :: nat
  closed :: bool

definition make_chan :: "nat \<Rightarrow> 'a chan" where
  "make_chan n = \<lparr>buf = [], cap = n, closed = False\<rparr>"

definition try_send :: "'a \<Rightarrow> 'a chan \<Rightarrow> (bool \<times> 'a chan) option" where
  "try_send x c =
     (if closed c then None
      else if length (buf c) < cap c then Some (True, c\<lparr>buf := buf c @ [x]\<rparr>)
      else Some (False, c))"

definition try_recv :: "'a chan \<Rightarrow> ('a \<times> 'a chan) option" where
  "try_recv c = (case buf c of [] \<Rightarrow> None | x # xs \<Rightarrow> Some (x, c\<lparr>buf := xs\<rparr>))"

definition close_chan :: "'a chan \<Rightarrow> 'a chan option" where
  "close_chan c = (if closed c then None else Some (c\<lparr>closed := True\<rparr>))"

lemma try_send_bound:
  "try_send x c = Some (b, c') \<Longrightarrow> length (buf c) \<le> cap c \<Longrightarrow> length (buf c') \<le> cap c'"
  by (auto simp: try_send_def split: if_splits)

section \<open>The package strings\<close>

definition has_prefix :: "string \<Rightarrow> string \<Rightarrow> bool" where
  "has_prefix s p \<longleftrightarrow> take (length p) s = p"

definition trim_prefix :: "string \<Rightarrow> string \<Rightarrow> string" where
  "trim_prefix s p = (if has_prefix s p then drop (length p) s else s)"

definition has_suffix :: "string \<Rightarrow> string \<Rightarrow> bool" where
  "has_suffix s p \<longleftrightarrow> length p \<le> length s \<and> drop (length s - length p) s = p"

definition trim_suffix :: "string \<Rightarrow> string \<Rightarrow> string" where
  "trim_suffix s p = (if has_suffix s p then take (length s - length p) s else s)"

fun contains :: "string \<Rightarrow> string \<Rightarrow> bool" where
  "contains [] p = (p = [])"
| "contains (x # xs) p = (has_prefix (x # xs) p \<or> contains xs p)"

text \<open>\<^verbatim>\<open>strings.Index\<close> and \<^verbatim>\<open>strings.Split\<close> for a one-byte separator.\<close>

fun index_of :: "char \<Rightarrow> string \<Rightarrow> nat option" where
  "index_of c [] = None"
| "index_of c (x # xs) = (if x = c then Some 0 else map_option Suc (index_of c xs))"

fun split :: "char \<Rightarrow> string \<Rightarrow> string list" where
  "split c [] = [[]]"
| "split c (x # xs) =
     (if x = c then [] # split c xs
      else case split c xs of [] \<Rightarrow> [[x]] | y # ys \<Rightarrow> (x # y) # ys)"

fun join :: "string \<Rightarrow> string list \<Rightarrow> string" where
  "join sep [] = []"
| "join sep [x] = x"
| "join sep (x # y # zs) = x @ sep @ join sep (y # zs)"

lemma has_prefix_append [simp]: "has_prefix (p @ s) p"
  by (simp add: has_prefix_def)

lemma trim_prefix_append [simp]: "trim_prefix (p @ s) p = s"
  by (simp add: trim_prefix_def)

lemma prefix_recombine: "has_prefix s p \<Longrightarrow> s = p @ trim_prefix s p"
  by (metis append_take_drop_id has_prefix_def trim_prefix_def)

lemma split_not_Nil [simp]: "split c s \<noteq> []"
  by (cases s) (auto split: list.splits)

lemma split_no_sep: "c \<notin> set s \<Longrightarrow> split c s = [s]"
  by (induction s) auto

lemma split_append:
  "c \<notin> set s \<Longrightarrow> split c (s @ c # t) = s # split c t"
  by (induction s) auto

lemma split_parts_no_sep: "p \<in> set (split c s) \<Longrightarrow> c \<notin> set p"
  by (induction s arbitrary: p) (auto split: if_splits list.splits)

lemma join_split: "join [c] (split c s) = s"
proof (induction s)
  case Nil
  then show ?case by simp
next
  case (Cons x xs)
  obtain y ys where sp: "split c xs = y # ys"
    by (cases "split c xs") auto
  with Cons.IH show ?case
    by (cases ys) auto
qed

lemma split_join:
  "ps \<noteq> [] \<Longrightarrow> (\<forall>p \<in> set ps. c \<notin> set p) \<Longrightarrow> split c (join [c] ps) = ps"
proof (induction ps rule: induct_list012)
  case (3 x y zs)
  then show ?case by (simp add: split_append)
qed (simp_all add: split_no_sep)

lemma index_of_None: "index_of c s = None \<longleftrightarrow> c \<notin> set s"
  by (induction s) auto

lemma index_of_append [simp]: "c \<notin> set p \<Longrightarrow> index_of c (p @ c # t) = Some (length p)"
  by (induction p) auto

lemma index_of_SomeD:
  "index_of c s = Some i \<Longrightarrow> s = take i s @ c # drop (Suc i) s \<and> c \<notin> set (take i s)"
  by (induction s arbitrary: i) (auto split: if_splits)

lemma contains_append: "contains (s @ p @ t) p"
proof (induction s)
  case Nil
  then show ?case
    by (cases "p @ t") (auto simp: has_prefix_def dest: sym)
next
  case (Cons x s)
  then show ?case by simp
qed

text \<open>The verb \<open>%d\<close>.\<close>

function nat_str :: "nat \<Rightarrow> string" where
  "nat_str n = (if n < 10 then [char_of (48 + n)] else nat_str (n div 10) @ [char_of (48 + n mod 10)])"
  by auto
termination
  by (relation "measure id") auto

declare nat_str.simps [simp del]

definition itoa :: "int \<Rightarrow> string" where
  "itoa i = (if i < 0 then CHR ''-'' # nat_str (nat (- i)) else nat_str (nat i))"

section \<open>Time\<close>

text \<open>Times and durations are integers counting nanoseconds.\<close>

type_synonym gotime = int
type_synonym duration = int

definition Second :: duration where
  "Second = 1000000000"

definition Minute :: duration where
  "Minute = 60 * Second"

definition Hour :: duration where
  "Hour = 60 * Minute"

end
