(* ===== verification/TB_Core.thy ===== *)
theory TB_Core
  imports Prelude
begin

text \<open>
  The data of the token broker (\<^verbatim>\<open>token-broker/internal/core\<close>, \<^verbatim>\<open>token-broker/pkg/oauth\<close>):
  sentinel errors, sessions, OAuth transactions, events, and the per-session semaphore
  (\<^verbatim>\<open>internal/session/semaphore.go\<close>).  A \<^verbatim>\<open>select\<close> statement is the list of its enabled outcomes: the empty list
  is a blocked goroutine, several entries are the scheduler's free choice.
\<close>

section \<open>Sentinel errors\<close>

definition ErrSessionEnded :: string where
  "ErrSessionEnded = ''session ended''"

definition ErrSessionExpired :: string where
  "ErrSessionExpired = ''session expired''"

definition ErrOAuthTimeout :: string where
  "ErrOAuthTimeout = ''timeout waiting for OAuth completion''"

definition ErrOAuthUpstream :: string where
  "ErrOAuthUpstream = ''oauth upstream failure''"

lemmas sentinel_defs =
  ErrSessionEnded_def ErrSessionExpired_def ErrOAuthTimeout_def ErrOAuthUpstream_def

section \<open>Sessions and transactions\<close>

record PKCEChallenge =
  Verifier :: string
  Challenge :: string
  Method :: string

record OAuthCompletion =
  Code :: string
  State :: string
  CompletionError :: "goerr option"

record Event =
  EventType :: string
  EventAuthURL :: string
  Message :: string
  EventCode :: string

record TokenResult =
  Token :: string
  ResultError :: "goerr option"

definition OAuthTxStatusWaitingCode :: string where
  "OAuthTxStatusWaitingCode = ''waiting_code''"

definition OAuthTxStatusCompleted :: string where
  "OAuthTxStatusCompleted = ''completed''"

definition OAuthTxStatusFailed :: string where
  "OAuthTxStatusFailed = ''failed''"

record OAuthTransaction =
  ResourceURL :: string
  AuthEndpoint :: string
  TokenEndpoint :: string
  Scopes :: "string list"
  PKCE :: PKCEChallenge
  CodeVerifier :: string
  TxState :: string
  CallbackURL :: string
  AuthURL :: string
  Status :: string
  CompletionChan :: "OAuthCompletion chan"

type_synonym SimpleSemaphore = "unit chan"

text \<open>
  \<open>TokenWaiters\<close> holds the addresses of the waiters' channels; \<open>Done\<close> records
  whether the broadcast channel of that name was closed.
\<close>

record Session =
  SessionKey :: string
  UserID :: string
  BackendSessionRedirectURL :: string
  CreatedAt :: gotime
  LastPollAt :: gotime
  ExpirationDeadline :: gotime
  AcquisitionSemaphore :: SimpleSemaphore
  EventWaiters :: "Event chan"
  TokenWaiters :: "(string, nat list) gomap"
  Done :: bool
  ActiveOAuthTx :: "OAuthTransaction option"

section \<open>The semaphore\<close>

definition NewSemaphore :: "nat \<Rightarrow> SimpleSemaphore" where
  "NewSemaphore capacity = make_chan capacity"

text \<open>
  \<open>ctxErr\<close> is \<^verbatim>\<open>ctx.Err()\<close>: \<^const>\<open>None\<close> while the context is alive.
\<close>

definition Acquire :: "goerr option \<Rightarrow> SimpleSemaphore \<Rightarrow> (goerr option \<times> SimpleSemaphore) list" where
  "Acquire ctxErr s =
     (if length (buf s) < cap s then [(None, s\<lparr>buf := buf s @ [()]\<rparr>)] else []) @
     (case ctxErr of
        None \<Rightarrow> []
      | Some e \<Rightarrow> [(Some (Errorf [Lit ''semaphore acquisition cancelled: '', Wrap e]), s)])"

definition Release :: "SimpleSemaphore \<Rightarrow> SimpleSemaphore" where
  "Release s = (case try_recv s of None \<Rightarrow> s | Some (_, s') \<Rightarrow> s')"

definition TryAcquire :: "SimpleSemaphore \<Rightarrow> bool \<times> SimpleSemaphore" where
  "TryAcquire s =
     (if length (buf s) < cap s then (True, s\<lparr>buf := buf s @ [()]\<rparr>) else (False, s))"

text \<open>The number of holders, and the capacity bound every operation keeps.\<close>

definition holders :: "SimpleSemaphore \<Rightarrow> nat" where
  "holders s = length (buf s)"

definition sem_wf :: "SimpleSemaphore \<Rightarrow> bool" where
  "sem_wf s \<longleftrightarrow> holders s \<le> cap s"

lemmas sem_defs = NewSemaphore_def Acquire_def Release_def TryAcquire_def holders_def sem_wf_def
  make_chan_def try_recv_def

lemma unit_list_replicate: "(xs :: unit list) = replicate (length xs) ()"
  by (induction xs) auto

lemma Acquire_holders:
  "(None, s') \<in> set (Acquire ctxErr s) \<Longrightarrow> holders s < cap s \<and> holders s' = Suc (holders s) \<and> cap s' = cap s"
  by (auto simp: sem_defs split: if_splits option.splits)

lemma Acquire_error: "(Some e, s') \<in> set (Acquire ctxErr s) \<Longrightarrow> s' = s \<and> ctxErr \<noteq> None"
  by (auto simp: sem_defs split: if_splits option.splits)

lemma Release_holders [simp]: "holders (Release s) = holders s - 1" "cap (Release s) = cap s"
  by (auto simp: sem_defs split: list.splits)

lemma Release_Acquire: "(None, s') \<in> set (Acquire ctxErr s) \<Longrightarrow> holders (Release s') = holders s"
  using Acquire_holders [of s' ctxErr s] by simp

text \<open>
  The interface \<^verbatim>\<open>core.Semaphore\<close> as a contract: acquiring is possible exactly below the
  capacity, and a release gives back what an acquisition took.
\<close>

locale semaphore =
  fixes acquire :: "goerr option \<Rightarrow> 's \<Rightarrow> (goerr option \<times> 's) list"
    and release :: "'s \<Rightarrow> 's"
    and held :: "'s \<Rightarrow> nat"
    and limit :: "'s \<Rightarrow> nat"
  assumes acquire_held: "(None, t) \<in> set (acquire c s) \<Longrightarrow>
      held s < limit s \<and> held t = Suc (held s) \<and> limit t = limit s"
    and acquire_failed: "(Some e, t) \<in> set (acquire c s) \<Longrightarrow> t = s"
    and acquire_enabled: "held s < limit s \<Longrightarrow> \<exists>t. (None, t) \<in> set (acquire c s)"
    and release_held: "held (release s) = held s - 1"
    and release_limit: "limit (release s) = limit s"
begin

lemma bounded_acquire: "(r, t) \<in> set (acquire c s) \<Longrightarrow> held s \<le> limit s \<Longrightarrow> held t \<le> limit t"
  using acquire_held acquire_failed by (cases r) fastforce+

lemma mutex: "limit s = 1 \<Longrightarrow> held s = 1 \<Longrightarrow> (None, t) \<notin> set (acquire c s)"
  using acquire_held by fastforce

lemma acquire_release: "(None, t) \<in> set (acquire c s) \<Longrightarrow> held (release t) = held s"
  using acquire_held release_held by force

lemma blocked_iff: "acquire None s = [] \<Longrightarrow> \<not> held s < limit s"
  using acquire_enabled [of s None] by auto

end

interpretation sem: semaphore Acquire Release holders cap
proof unfold_locales
  fix t c s
  assume "(None, t) \<in> set (Acquire c s)"
  then show "holders s < cap s \<and> holders t = Suc (holders s) \<and> cap t = cap s"
    by (rule Acquire_holders)
next
  fix e t c s
  assume "(Some e, t) \<in> set (Acquire c s)"
  then show "t = s" using Acquire_error by blast
next
  fix s :: SimpleSemaphore and c
  assume "holders s < cap s"
  then show "\<exists>t. (None, t) \<in> set (Acquire c s)"
    by (auto simp: Acquire_def holders_def)
qed simp_all

end
