(* ===== verification/TB_Session.thy ===== *)
theory TB_Session
  imports TB_Core
begin

text \<open>
  The session manager (\<^verbatim>\<open>token-broker/internal/session/manager.go\<close>).  Session objects are
  shared by pointer between the manager and running token acquisitions, so they live in a
  store of objects, \<open>sessions\<close> maps a key to an address, and an ended session stays
  readable for whoever still holds its address.  Every operation runs under the manager's
  mutex, hence is one atomic function of the manager's state.  A panic is \<^const>\<open>None\<close>.
  A timer of \<^verbatim>\<open>time.AfterFunc\<close> is armed, then fired (its goroutine is scheduled and may
  still be waiting for the mutex), then run; stopping it has an effect only while armed.
\<close>

section \<open>State\<close>

datatype TimerState = Armed gotime | Fired | Stopped | Ran

record Timer =
  TimerKey :: string
  TState :: TimerState

record SessionManager =
  store :: "Session list"
  wchans :: "TokenResult chan list"
  sessions :: "(string, nat) gomap"
  userSessions :: "(string, string list) gomap"
  sessionTimeout :: duration
  maxSessionsPerUser :: int
  timers :: "(string, nat) gomap"
  timerStore :: "Timer list"
  shutdownChan :: bool

definition NewSessionManager :: "duration \<Rightarrow> int \<Rightarrow> SessionManager" where
  "NewSessionManager timeout maxPerUser =
     \<lparr>store = [], wchans = [], sessions = [], userSessions = [], sessionTimeout = timeout,
      maxSessionsPerUser = maxPerUser, timers = [], timerStore = [], shutdownChan = False\<rparr>"

section \<open>Operations\<close>

definition new_session :: "string \<Rightarrow> string \<Rightarrow> string \<Rightarrow> gotime \<Rightarrow> duration \<Rightarrow> Session" where
  "new_session sessionKey userID backendRedirectURL now timeout =
     \<lparr>SessionKey = sessionKey, UserID = userID,
      BackendSessionRedirectURL = backendRedirectURL,
      CreatedAt = now, LastPollAt = now, ExpirationDeadline = now + timeout,
      AcquisitionSemaphore = NewSemaphore 1, EventWaiters = make_chan 1,
      TokenWaiters = [], Done = False, ActiveOAuthTx = None\<rparr>"

definition user_keys :: "SessionManager \<Rightarrow> string \<Rightarrow> string list" where
  "user_keys sm userID = (case map_of (userSessions sm) userID of None \<Rightarrow> [] | Some ks \<Rightarrow> ks)"

definition CreateSession ::
  "string \<Rightarrow> string \<Rightarrow> string \<Rightarrow> gotime \<Rightarrow> SessionManager \<Rightarrow> goerr option \<times> SessionManager" where
  "CreateSession sessionKey userID backendRedirectURL now sm =
     (if (case map_of (userSessions sm) userID of
            Some existingSessions \<Rightarrow> maxSessionsPerUser sm \<le> int (length existingSessions)
          | None \<Rightarrow> False)
      then (Some (Errorf [Lit ''max sessions per user exceeded'']), sm)
      else
        (None, sm\<lparr>store := store sm @
                    [new_session sessionKey userID backendRedirectURL now (sessionTimeout sm)],
                  sessions := AList.update sessionKey (length (store sm)) (sessions sm),
                  userSessions :=
                    AList.update userID (user_keys sm userID @ [sessionKey]) (userSessions sm)\<rparr>))"

definition GetSession :: "string \<Rightarrow> SessionManager \<Rightarrow> goerr + nat" where
  "GetSession sessionKey sm =
     (case map_of (sessions sm) sessionKey of
        None \<Rightarrow> Inl (Errorf [Lit ''session not found''])
      | Some a \<Rightarrow> Inr a)"

text \<open>The loop of \<^verbatim>\<open>GetSessionByState\<close> from the last byte down: \<open>i\<close> bytes are left to look at.\<close>

fun last_dot :: "string \<Rightarrow> nat \<Rightarrow> nat option" where
  "last_dot state 0 = None"
| "last_dot state (Suc i) = (if state ! i = CHR ''.'' then Some i else last_dot state i)"

definition GetSessionByState :: "string \<Rightarrow> SessionManager \<Rightarrow> goerr + nat" where
  "GetSessionByState state sm =
     (case last_dot state (length state) of
        None \<Rightarrow> Inl (Errorf [Lit ''invalid state format: no separator found''])
      | Some lastDot \<Rightarrow>
          (let sessionKey = take lastDot state in
           case map_of (sessions sm) sessionKey of
             None \<Rightarrow> Inl (Errorf [Lit ''session not found for state''])
           | Some a \<Rightarrow>
               (case ActiveOAuthTx (store sm ! a) of
                  None \<Rightarrow> Inl (Errorf [Lit ''state mismatch''])
                | Some tx \<Rightarrow>
                    if TxState tx \<noteq> state then Inl (Errorf [Lit ''state mismatch''])
                    else Inr a)))"

definition ValidateSession :: "string \<Rightarrow> string \<Rightarrow> SessionManager \<Rightarrow> goerr option" where
  "ValidateSession sessionKey userID sm =
     (case map_of (sessions sm) sessionKey of
        None \<Rightarrow> Some (Errorf [Lit ''session not found''])
      | Some a \<Rightarrow>
          if UserID (store sm ! a) \<noteq> userID then Some (Errorf [Lit ''session user mismatch''])
          else None)"

text \<open>\<^verbatim>\<open>Timer.Stop\<close>.\<close>

definition stop_timer :: "nat \<Rightarrow> Timer list \<Rightarrow> Timer list" where
  "stop_timer t ts =
     (if t < length ts then
        (case TState (ts ! t) of
           Armed d \<Rightarrow> ts[t := (ts ! t)\<lparr>TState := Stopped\<rparr>]
         | _ \<Rightarrow> ts)
      else ts)"

text \<open>
  Sending the result to every waiter and closing its channel; the address of a channel that
  does not exist is a nil channel, whose closing panics.
\<close>

fun notify_waiters :: "TokenResult \<Rightarrow> nat list \<Rightarrow> TokenResult chan list \<Rightarrow> TokenResult chan list option" where
  "notify_waiters r [] cs = Some cs"
| "notify_waiters r (w # ws) cs =
     (if length cs \<le> w then None
      else do {
        (_, c) \<leftarrow> try_send r (cs ! w);
        c' \<leftarrow> close_chan c;
        notify_waiters r ws (cs[w := c'])
      })"

fun notify_all :: "TokenResult \<Rightarrow> (string \<times> nat list) list \<Rightarrow> TokenResult chan list \<Rightarrow> TokenResult chan list option" where
  "notify_all r [] cs = Some cs"
| "notify_all r ((resourceURL, waiters) # rest) cs = do {
     cs' \<leftarrow> notify_waiters r waiters cs;
     notify_all r rest cs'
   }"

definition error_event :: "string \<Rightarrow> Event" where
  "error_event reason =
     \<lparr>EventType = ''error'', EventAuthURL = '''', Message = reason, EventCode = ''session_expired''\<rparr>"

definition drop_timer :: "string \<Rightarrow> SessionManager \<Rightarrow> SessionManager" where
  "drop_timer sessionKey sm =
     (case map_of (timers sm) sessionKey of
        None \<Rightarrow> sm
      | Some t \<Rightarrow> sm\<lparr>timerStore := stop_timer t (timerStore sm),
                      timers := AList.delete sessionKey (timers sm)\<rparr>)"

definition drop_user_key :: "string \<Rightarrow> string \<Rightarrow> (string, string list) gomap \<Rightarrow> (string, string list) gomap" where
  "drop_user_key userID sessionKey us =
     (case map_of us userID of
        None \<Rightarrow> us
      | Some keys \<Rightarrow>
          (let newSessions = filter (\<lambda>key. key \<noteq> sessionKey) keys in
           if newSessions \<noteq> [] then AList.update userID newSessions us
           else AList.delete userID us))"

definition cleanupSessionLocked :: "string \<Rightarrow> nat \<Rightarrow> string \<Rightarrow> SessionManager \<Rightarrow> SessionManager option" where
  "cleanupSessionLocked sessionKey a reason sm0 = do {
     let sm = drop_timer sessionKey sm0;
     let session = store sm ! a;
     cs \<leftarrow> notify_all \<lparr>Token = '''', ResultError = Some (Errorf [Lit reason])\<rparr>
             (TokenWaiters session) (wchans sm);
     (if Done session then None else Some ());
     (_, ev) \<leftarrow> try_send (error_event reason) (EventWaiters session);
     Some (sm\<lparr>wchans := cs,
              store := (store sm)[a := session\<lparr>Done := True, EventWaiters := ev\<rparr>],
              userSessions := drop_user_key (UserID session) sessionKey (userSessions sm),
              sessions := AList.delete sessionKey (sessions sm)\<rparr>)
   }"

definition EndSession :: "string \<Rightarrow> SessionManager \<Rightarrow> (goerr option \<times> SessionManager) option" where
  "EndSession sessionKey sm =
     (case map_of (sessions sm) sessionKey of
        None \<Rightarrow> Some (Some (Errorf [Lit ''session not found'']), sm)
      | Some a \<Rightarrow>
          map_option (\<lambda>sm'. (None, sm')) (cleanupSessionLocked sessionKey a ''session ended'' sm))"

definition ExpireSession :: "string \<Rightarrow> SessionManager \<Rightarrow> SessionManager option" where
  "ExpireSession sessionKey sm =
     (case map_of (sessions sm) sessionKey of
        None \<Rightarrow> Some sm
      | Some a \<Rightarrow> cleanupSessionLocked sessionKey a ''session expired'' sm)"

definition ResetSessionTimer :: "string \<Rightarrow> gotime \<Rightarrow> SessionManager \<Rightarrow> SessionManager" where
  "ResetSessionTimer sessionKey now sm =
     (case map_of (sessions sm) sessionKey of
        None \<Rightarrow> sm
      | Some a \<Rightarrow>
          (let sm' = drop_timer sessionKey sm in
           sm'\<lparr>store := (store sm')[a := (store sm' ! a)\<lparr>LastPollAt := now,
                                   ExpirationDeadline := now + sessionTimeout sm'\<rparr>]\<rparr>))"

definition StartSessionTimer :: "string \<Rightarrow> gotime \<Rightarrow> SessionManager \<Rightarrow> SessionManager" where
  "StartSessionTimer sessionKey now sm =
     (case map_of (sessions sm) sessionKey of
        None \<Rightarrow> sm
      | Some a \<Rightarrow>
          (let ts = (case map_of (timers sm) sessionKey of
                       None \<Rightarrow> timerStore sm
                     | Some t \<Rightarrow> stop_timer t (timerStore sm)) in
           sm\<lparr>timerStore := ts @ [\<lparr>TimerKey = sessionKey, TState = Armed (now + sessionTimeout sm)\<rparr>],
              timers := AList.update sessionKey (length ts) (timers sm)\<rparr>))"

text \<open>The runtime fires an armed timer whose time has come; its goroutine later takes the mutex.\<close>

definition fire_timer :: "nat \<Rightarrow> gotime \<Rightarrow> SessionManager \<Rightarrow> SessionManager option" where
  "fire_timer t now sm =
     (if t < length (timerStore sm) then
        (case TState (timerStore sm ! t) of
           Armed d \<Rightarrow>
             if d \<le> now then
               Some (sm\<lparr>timerStore := (timerStore sm)[t := (timerStore sm ! t)\<lparr>TState := Fired\<rparr>]\<rparr>)
             else None
         | _ \<Rightarrow> None)
      else None)"

definition timer_fired :: "nat \<Rightarrow> SessionManager \<Rightarrow> bool" where
  "timer_fired t sm \<longleftrightarrow> t < length (timerStore sm) \<and> TState (timerStore sm ! t) = Fired"

definition run_timer :: "nat \<Rightarrow> SessionManager \<Rightarrow> SessionManager option" where
  "run_timer t sm =
     ExpireSession (TimerKey (timerStore sm ! t))
       (sm\<lparr>timerStore := (timerStore sm)[t := (timerStore sm ! t)\<lparr>TState := Ran\<rparr>]\<rparr>)"

fun cleanup_list :: "(string \<times> nat) list \<Rightarrow> string \<Rightarrow> SessionManager \<Rightarrow> SessionManager option" where
  "cleanup_list [] reason sm = Some sm"
| "cleanup_list ((k, a) # rest) reason sm = do {
     sm' \<leftarrow> cleanupSessionLocked k a reason sm;
     cleanup_list rest reason sm'
   }"

definition Shutdown :: "SessionManager \<Rightarrow> SessionManager option" where
  "Shutdown sm =
     (if shutdownChan sm then None
      else
        (let ts = foldl (\<lambda>ts (k, t). stop_timer t ts) (timerStore sm) (timers sm);
             sm' = sm\<lparr>shutdownChan := True, timerStore := ts, timers := []\<rparr>
         in cleanup_list (sessions sm') ''shutdown'' sm'))"

definition GetSessionCount :: "SessionManager \<Rightarrow> nat" where
  "GetSessionCount sm = length (sessions sm)"

definition GetUserSessionCount :: "string \<Rightarrow> SessionManager \<Rightarrow> nat" where
  "GetUserSessionCount userID sm =
     (case map_of (userSessions sm) userID of Some ks \<Rightarrow> length ks | None \<Rightarrow> 0)"

section \<open>Invariants\<close>

definition session_ok :: "Session \<Rightarrow> bool" where
  "session_ok s \<longleftrightarrow> TokenWaiters s = [] \<and>
     cap (AcquisitionSemaphore s) = 1 \<and> sem_wf (AcquisitionSemaphore s) \<and>
     cap (EventWaiters s) = 1 \<and> \<not> closed (EventWaiters s) \<and> length (buf (EventWaiters s)) \<le> 1"

text \<open>A key points to an object that exists, carries that key and was not closed.\<close>

definition sm_wf :: "SessionManager \<Rightarrow> bool" where
  "sm_wf sm \<longleftrightarrow> gm_wf (sessions sm) \<and> gm_wf (userSessions sm) \<and> gm_wf (timers sm) \<and>
     (\<forall>s \<in> set (store sm). session_ok s) \<and>
     (\<forall>k a. map_of (sessions sm) k = Some a \<longrightarrow>
        a < length (store sm) \<and> SessionKey (store sm ! a) = k \<and> \<not> Done (store sm ! a))"

definition owner :: "SessionManager \<Rightarrow> string \<Rightarrow> string option" where
  "owner sm k = map_option (\<lambda>a. UserID (store sm ! a)) (map_of (sessions sm) k)"

text \<open>No user is charged for more sessions than the quota allows.\<close>

definition quota_ok :: "SessionManager \<Rightarrow> bool" where
  "quota_ok sm \<longleftrightarrow>
     (\<forall>u. int (length (user_keys sm u)) \<le> max 1 (maxSessionsPerUser sm))"

text \<open>The per-user index lists exactly the live sessions of the user, each once.\<close>

definition index_exact :: "SessionManager \<Rightarrow> bool" where
  "index_exact sm \<longleftrightarrow>
     (\<forall>u. distinct (user_keys sm u) \<and> set (user_keys sm u) = {k. owner sm k = Some u})"

lemmas sm_defs = sm_wf_def owner_def quota_ok_def index_exact_def user_keys_def

lemma session_ok_new [simp]: "session_ok (new_session k u r now t)"
  by (simp add: session_ok_def new_session_def sem_defs make_chan_def)

lemma new_session_sel [simp]:
  "SessionKey (new_session k u r now t) = k" "UserID (new_session k u r now t) = u"
  "Done (new_session k u r now t) = False" "ActiveOAuthTx (new_session k u r now t) = None"
  "BackendSessionRedirectURL (new_session k u r now t) = r"
  by (simp_all add: new_session_def)

lemma sm_wf_new [simp]: "sm_wf (NewSessionManager t m)" "quota_ok (NewSessionManager t m)"
  "index_exact (NewSessionManager t m)"
  by (simp_all add: sm_defs NewSessionManager_def)

lemma sm_wf_live:
  assumes "sm_wf sm" and "map_of (sessions sm) k = Some a"
  shows "a < length (store sm)" "SessionKey (store sm ! a) = k" "\<not> Done (store sm ! a)"
    "session_ok (store sm ! a)"
  using assms by (auto simp: sm_wf_def)

lemma sm_wf_addr_inj:
  "sm_wf sm \<Longrightarrow> map_of (sessions sm) k = Some a \<Longrightarrow> map_of (sessions sm) k' = Some a \<Longrightarrow> k = k'"
  using sm_wf_live(2) by blast

subsection \<open>Creation\<close>

lemma CreateSession_cases:
  obtains (full) e where "CreateSession k u r now sm = (Some e, sm)"
      "e = Errorf [Lit ''max sessions per user exceeded'']"
      "maxSessionsPerUser sm \<le> int (length (user_keys sm u))" "u \<in> dom (map_of (userSessions sm))"
  | (ok) sm' where "CreateSession k u r now sm = (None, sm')"
      "store sm' = store sm @ [new_session k u r now (sessionTimeout sm)]"
      "sessions sm' = AList.update k (length (store sm)) (sessions sm)"
      "userSessions sm' = AList.update u (user_keys sm u @ [k]) (userSessions sm)"
      "timers sm' = timers sm" "maxSessionsPerUser sm' = maxSessionsPerUser sm"
      "sessionTimeout sm' = sessionTimeout sm"
      "u \<in> dom (map_of (userSessions sm)) \<Longrightarrow> int (length (user_keys sm u)) < maxSessionsPerUser sm"
proof (cases "case map_of (userSessions sm) u of Some ks \<Rightarrow> maxSessionsPerUser sm \<le> int (length ks) | None \<Rightarrow> False")
  case True
  then show thesis
    by (intro full [OF _ refl]) (auto simp: CreateSession_def user_keys_def split: option.splits)
next
  case False
  then show thesis
    by (intro ok [of "snd (CreateSession k u r now sm)"])
      (auto simp: CreateSession_def user_keys_def split: option.splits)
qed

lemma CreateSession_error_frame:
  "CreateSession k u r now sm = (Some e, sm') \<Longrightarrow> sm' = sm"
  by (cases rule: CreateSession_cases [of k u r now sm]) auto

lemma CreateSession_wf:
  assumes wf: "sm_wf sm" and c: "CreateSession k u r now sm = (e, sm')"
  shows "sm_wf sm'"
proof (cases rule: CreateSession_cases [of k u r now sm])
  case full
  with wf c show ?thesis by simp
next
  case (ok sm'')
  with c have "sm' = sm''" by simp
  with wf ok show ?thesis
    by (auto simp: sm_wf_def gomap_simps nth_append less_Suc_eq split: if_splits)
qed

lemma CreateSession_owner:
  assumes wf: "sm_wf sm" and c: "CreateSession k u r now sm = (None, sm')"
  shows "owner sm' = (owner sm)(k \<mapsto> u)"
proof (cases rule: CreateSession_cases [of k u r now sm])
  case full
  with c show ?thesis by simp
next
  case (ok sm'')
  with c have sm': "sm' = sm''" by simp
  show ?thesis
  proof
    fix k'
    show "owner sm' k' = ((owner sm)(k \<mapsto> u)) k'"
      using wf ok(2,3) sm_wf_live(1) [OF wf, of k']
      by (cases "map_of (sessions sm) k'") (auto simp: sm' owner_def gomap_simps nth_append)
  qed
qed

lemma user_keys_update:
  "userSessions sm' = AList.update u ks (userSessions sm) \<Longrightarrow>
   user_keys sm' u' = (if u' = u then ks else user_keys sm u')"
  by (simp add: user_keys_def gomap_simps)

lemma CreateSession_quota:
  assumes q: "quota_ok sm" and c: "CreateSession k u r now sm = (e, sm')"
  shows "quota_ok sm'"
proof (cases rule: CreateSession_cases [of k u r now sm])
  case full
  with q c show ?thesis by simp
next
  case (ok sm'')
  with c have sm': "sm' = sm''" by simp
  have "int (length (user_keys sm u)) + 1 \<le> max 1 (maxSessionsPerUser sm)"
  proof (cases "u \<in> dom (map_of (userSessions sm))")
    case True
    with ok(8) show ?thesis by simp
  next
    case False
    then have "map_of (userSessions sm) u = None" by (simp add: dom_def)
    then have "user_keys sm u = []"
      by (simp add: user_keys_def)
    then show ?thesis by simp
  qed
  with q show ?thesis
    by (auto simp: quota_ok_def sm' user_keys_update [OF ok(4)] ok(6))
qed

lemma CreateSession_index:
  assumes wf: "sm_wf sm" and ix: "index_exact sm" and fresh: "owner sm k = None"
    and c: "CreateSession k u r now sm = (e, sm')"
  shows "index_exact sm'"
proof (cases rule: CreateSession_cases [of k u r now sm])
  case full
  with ix c show ?thesis by simp
next
  case (ok sm'')
  with c have sm': "sm' = sm''" and e: "e = None" by simp_all
  have ow: "owner sm' = (owner sm)(k \<mapsto> u)"
    using CreateSession_owner [OF wf] c e by simp
  show ?thesis
    using ix fresh unfolding index_exact_def ow user_keys_update [OF ok(4), folded sm'] by auto
qed

subsection \<open>Termination of sessions\<close>

lemma drop_timer_frame [simp]:
  "store (drop_timer k sm) = store sm" "wchans (drop_timer k sm) = wchans sm"
  "sessions (drop_timer k sm) = sessions sm" "userSessions (drop_timer k sm) = userSessions sm"
  "maxSessionsPerUser (drop_timer k sm) = maxSessionsPerUser sm"
  "sessionTimeout (drop_timer k sm) = sessionTimeout sm"
  "shutdownChan (drop_timer k sm) = shutdownChan sm"
  "gm_wf (timers sm) \<Longrightarrow> gm_wf (timers (drop_timer k sm))"
  by (simp_all add: drop_timer_def split: option.splits)

lemma gm_wf_drop_user_key [simp]: "gm_wf us \<Longrightarrow> gm_wf (drop_user_key u k us)"
  by (simp add: drop_user_key_def Let_def split: option.splits)

text \<open>
  On a well-formed state the cleanup of a live session cannot panic: the broadcast channel
  is open, no waiter is registered and the event channel is never closed.
\<close>

lemma cleanup_ok:
  assumes wf: "sm_wf sm" and live: "map_of (sessions sm) k = Some a"
  obtains sm' ev where "cleanupSessionLocked k a reason sm = Some sm'"
    "store sm' = (store sm)[a := (store sm ! a)\<lparr>Done := True, EventWaiters := ev\<rparr>]"
    "sessions sm' = AList.delete k (sessions sm)"
    "userSessions sm' = drop_user_key (UserID (store sm ! a)) k (userSessions sm)"
    "timers sm' = timers (drop_timer k sm)" "timerStore sm' = timerStore (drop_timer k sm)"
    "maxSessionsPerUser sm' = maxSessionsPerUser sm" "sessionTimeout sm' = sessionTimeout sm"
    "shutdownChan sm' = shutdownChan sm"
    "cap ev = 1" "\<not> closed ev" "length (buf ev) = 1"
proof -
  note l = sm_wf_live [OF wf live]
  obtain b ev where ev: "try_send (error_event reason) (EventWaiters (store sm ! a)) = Some (b, ev)"
    and evp: "cap ev = 1" "\<not> closed ev" "length (buf ev) = 1"
    using l(4) by (cases "buf (EventWaiters (store sm ! a))") (auto simp: try_send_def session_ok_def)
  let ?sm' = "(drop_timer k sm)\<lparr>wchans := wchans sm,
     store := (store sm)[a := (store sm ! a)\<lparr>Done := True, EventWaiters := ev\<rparr>],
     userSessions := drop_user_key (UserID (store sm ! a)) k (userSessions sm),
     sessions := AList.delete k (sessions sm)\<rparr>"
  have "cleanupSessionLocked k a reason sm = Some ?sm'"
    using l(3,4) ev by (simp add: cleanupSessionLocked_def session_ok_def Let_def)
  then show thesis
    by (rule that [of ?sm' ev]) (use evp in simp_all)
qed

lemma cleanup_wf:
  assumes wf: "sm_wf sm" and live: "map_of (sessions sm) k = Some a"
    and c: "cleanupSessionLocked k a reason sm = Some sm'"
  shows "sm_wf sm'" "owner sm' = (owner sm)(k := None)"
proof -
  from cleanup_ok [OF wf live, of reason] obtain ev where
    st: "store sm' = (store sm)[a := (store sm ! a)\<lparr>Done := True, EventWaiters := ev\<rparr>]"
    and se: "sessions sm' = AList.delete k (sessions sm)"
    and us: "userSessions sm' = drop_user_key (UserID (store sm ! a)) k (userSessions sm)"
    and ti: "timers sm' = timers (drop_timer k sm)"
    and ev: "cap ev = 1" "\<not> closed ev" "length (buf ev) = 1"
    using c by (metis option.sel)
  have ok: "session_ok ((store sm ! a)\<lparr>Done := True, EventWaiters := ev\<rparr>)"
    using sm_wf_live(4) [OF wf live] ev by (simp add: session_ok_def)
  have addr: "a' \<noteq> a" if "map_of (sessions sm) k' = Some a'" "k' \<noteq> k" for k' a'
    using sm_wf_addr_inj [OF wf live] that by metis
  have other: "store sm' ! a' = store sm ! a'" if "map_of (sessions sm) k' = Some a'" "k' \<noteq> k" for k' a'
    using addr [OF that] by (simp add: st)
  have oks: "\<forall>s \<in> set (store sm'). session_ok s"
    using wf ok by (auto simp: st sm_wf_def dest: set_update_subset_insert [THEN subsetD])
  show "sm_wf sm'"
    using wf oks other by (simp add: sm_wf_def se us ti gomap_simps) (simp add: st)
  show "owner sm' = (owner sm)(k := None)"
    using other by (auto simp: fun_eq_iff owner_def se gomap_simps intro!: map_option_cong)
qed

lemma cleanup_user_keys:
  assumes wf: "sm_wf sm" and live: "map_of (sessions sm) k = Some a"
    and c: "cleanupSessionLocked k a reason sm = Some sm'"
  shows "user_keys sm' u =
    (if u = UserID (store sm ! a) then filter (\<lambda>key. key \<noteq> k) (user_keys sm u) else user_keys sm u)"
proof -
  from cleanup_ok [OF wf live, of reason]
  have us: "userSessions sm' = drop_user_key (UserID (store sm ! a)) k (userSessions sm)"
    using c by (metis option.sel)
  show ?thesis
    by (auto simp: user_keys_def us drop_user_key_def gomap_simps Let_def filter_empty_conv
        split: option.splits)
qed

lemma cleanup_quota:
  assumes wf: "sm_wf sm" and live: "map_of (sessions sm) k = Some a"
    and c: "cleanupSessionLocked k a reason sm = Some sm'" and q: "quota_ok sm"
  shows "quota_ok sm'"
proof -
  from cleanup_ok [OF wf live, of reason]
  have "maxSessionsPerUser sm' = maxSessionsPerUser sm"
    using c by (metis option.sel)
  moreover have "length (user_keys sm' u) \<le> length (user_keys sm u)" for u
    by (simp add: cleanup_user_keys [OF wf live c])
  ultimately show ?thesis
    using q unfolding quota_ok_def by (metis (no_types) int_ops(1) le_trans of_nat_mono order_trans)
qed

lemma cleanup_index:
  assumes wf: "sm_wf sm" and live: "map_of (sessions sm) k = Some a"
    and c: "cleanupSessionLocked k a reason sm = Some sm'" and ix: "index_exact sm"
  shows "index_exact sm'"
  unfolding index_exact_def
proof
  fix u
  have o: "owner sm k = Some (UserID (store sm ! a))"
    using live by (simp add: owner_def)
  show "distinct (user_keys sm' u) \<and> set (user_keys sm' u) = {k. owner sm' k = Some u}"
    using ix o unfolding index_exact_def cleanup_user_keys [OF wf live c] cleanup_wf(2) [OF wf live c]
    by auto
qed

lemma EndSession_live:
  assumes "sm_wf sm" and "map_of (sessions sm) k = Some a"
  obtains sm' where "EndSession k sm = Some (None, sm')"
    "cleanupSessionLocked k a ''session ended'' sm = Some sm'"
proof -
  obtain sm' where "cleanupSessionLocked k a ''session ended'' sm = Some sm'"
    by (rule cleanup_ok [OF assms])
  with assms(2) show thesis
    by (intro that [of sm']) (simp_all add: EndSession_def)
qed

lemma EndSession_absent:
  "map_of (sessions sm) k = None \<Longrightarrow>
   EndSession k sm = Some (Some (Errorf [Lit ''session not found'']), sm)"
  by (simp add: EndSession_def)

lemma EndSession_total:
  assumes "sm_wf sm"
  shows "\<exists>r sm'. EndSession k sm = Some (r, sm')"
proof (cases "map_of (sessions sm) k")
  case None
  then show ?thesis by (simp add: EndSession_absent)
next
  case (Some a)
  then show ?thesis by (rule EndSession_live [OF assms]) blast
qed

lemma EndSession_effect:
  assumes wf: "sm_wf sm" and e: "EndSession k sm = Some (r, sm')"
  shows "sm_wf sm'" "owner sm' = (owner sm)(k := None)"
    "quota_ok sm \<Longrightarrow> quota_ok sm'" "index_exact sm \<Longrightarrow> index_exact sm'"
    "r = None \<longleftrightarrow> owner sm k \<noteq> None"
proof -
  have "sm_wf sm' \<and> owner sm' = (owner sm)(k := None) \<and> (quota_ok sm \<longrightarrow> quota_ok sm') \<and>
    (index_exact sm \<longrightarrow> index_exact sm') \<and> (r = None \<longleftrightarrow> owner sm k \<noteq> None)"
  proof (cases "map_of (sessions sm) k")
    case None
    with e wf show ?thesis
      by (auto simp: EndSession_absent owner_def fun_eq_iff)
  next
    case (Some a)
    obtain sm'' where sm'': "EndSession k sm = Some (None, sm'')"
      and c: "cleanupSessionLocked k a ''session ended'' sm = Some sm''"
      by (rule EndSession_live [OF wf Some])
    with e have "sm' = sm''" "r = None" by simp_all
    with c show ?thesis
      using cleanup_wf [OF wf Some] cleanup_quota [OF wf Some] cleanup_index [OF wf Some]
      by (simp add: owner_def Some)
  qed
  then show "sm_wf sm'" "owner sm' = (owner sm)(k := None)"
    "quota_ok sm \<Longrightarrow> quota_ok sm'" "index_exact sm \<Longrightarrow> index_exact sm'"
    "r = None \<longleftrightarrow> owner sm k \<noteq> None" by simp_all
qed

lemma ExpireSession_effect:
  assumes wf: "sm_wf sm"
  obtains sm' where "ExpireSession k sm = Some sm'" "sm_wf sm'" "owner sm' = (owner sm)(k := None)"
    "quota_ok sm \<longrightarrow> quota_ok sm'" "index_exact sm \<longrightarrow> index_exact sm'"
proof (cases "map_of (sessions sm) k")
  case None
  then show thesis
    using that [of sm] wf by (auto simp: ExpireSession_def owner_def fun_eq_iff)
next
  case (Some a)
  obtain sm' where c: "cleanupSessionLocked k a ''session expired'' sm = Some sm'"
    by (rule cleanup_ok [OF wf Some])
  show thesis
    by (rule that [of sm'])
       (use c Some cleanup_wf [OF wf Some c] cleanup_quota [OF wf Some c] cleanup_index [OF wf Some c]
         in \<open>simp_all add: ExpireSession_def\<close>)
qed

subsection \<open>Timers\<close>

text \<open>Changes that touch only the timers keep every invariant of the sessions.\<close>

lemma sm_frame:
  assumes "store sm' = store sm" "sessions sm' = sessions sm" "userSessions sm' = userSessions sm"
    "maxSessionsPerUser sm' = maxSessionsPerUser sm" "gm_wf (timers sm) \<Longrightarrow> gm_wf (timers sm')"
  shows "sm_wf sm \<Longrightarrow> sm_wf sm'" "owner sm' = owner sm" "quota_ok sm' = quota_ok sm"
    "index_exact sm' = index_exact sm"
  using assms by (simp_all add: sm_defs fun_eq_iff)

lemma ResetSessionTimer_effect:
  assumes wf: "sm_wf sm"
  shows "sm_wf (ResetSessionTimer k now sm)" "owner (ResetSessionTimer k now sm) = owner sm"
    "quota_ok (ResetSessionTimer k now sm) = quota_ok sm"
    "index_exact (ResetSessionTimer k now sm) = index_exact sm"
proof -
  let ?sm' = "ResetSessionTimer k now sm"
  have "sm_wf ?sm' \<and> owner ?sm' = owner sm \<and> user_keys ?sm' = user_keys sm \<and>
    maxSessionsPerUser ?sm' = maxSessionsPerUser sm"
  proof (cases "map_of (sessions sm) k")
    case None
    with wf show ?thesis by (simp add: ResetSessionTimer_def)
  next
    case (Some a)
    let ?s = "(store sm ! a)\<lparr>LastPollAt := now, ExpirationDeadline := now + sessionTimeout sm\<rparr>"
    have st: "store ?sm' = (store sm)[a := ?s]" "sessions ?sm' = sessions sm"
      "userSessions ?sm' = userSessions sm" "maxSessionsPerUser ?sm' = maxSessionsPerUser sm"
      "timers ?sm' = timers (drop_timer k sm)"
      by (simp_all add: ResetSessionTimer_def Some Let_def)
    have sel: "UserID (store ?sm' ! a') = UserID (store sm ! a')"
      "SessionKey (store ?sm' ! a') = SessionKey (store sm ! a')"
      "Done (store ?sm' ! a') = Done (store sm ! a')" for a'
      using sm_wf_live(1) [OF wf Some] by (cases "a' = a"; simp add: st)+
    have "session_ok ?s"
      using sm_wf_live(4) [OF wf Some] by (simp add: session_ok_def)
    then have "\<forall>s \<in> set (store ?sm'). session_ok s"
      using wf by (auto simp: st sm_wf_def dest: set_update_subset_insert [THEN subsetD])
    then have "sm_wf ?sm'"
      using wf by (simp add: sm_wf_def sel) (simp add: st)
    then show ?thesis by (simp add: owner_def sel user_keys_def st(2,3,4) fun_eq_iff)
  qed
  then show "sm_wf ?sm'" "owner ?sm' = owner sm" "quota_ok ?sm' = quota_ok sm"
    "index_exact ?sm' = index_exact sm" by (simp_all add: quota_ok_def index_exact_def)
qed

lemma StartSessionTimer_frame:
  "store (StartSessionTimer k now sm) = store sm"
  "sessions (StartSessionTimer k now sm) = sessions sm"
  "userSessions (StartSessionTimer k now sm) = userSessions sm"
  "maxSessionsPerUser (StartSessionTimer k now sm) = maxSessionsPerUser sm"
  "gm_wf (timers sm) \<Longrightarrow> gm_wf (timers (StartSessionTimer k now sm))"
  by (simp_all add: StartSessionTimer_def Let_def split: option.splits)

lemma fire_timer_frame:
  "fire_timer t now sm = Some sm' \<Longrightarrow>
   store sm' = store sm \<and> sessions sm' = sessions sm \<and> userSessions sm' = userSessions sm \<and>
   maxSessionsPerUser sm' = maxSessionsPerUser sm \<and> timers sm' = timers sm"
  by (auto simp: fire_timer_def split: if_splits TimerState.splits)

subsection \<open>Shutdown\<close>

lemma cleanup_list_effect:
  assumes "sm_wf sm" and "sessions sm = l"
  shows "\<exists>sm'. cleanup_list l reason sm = Some sm' \<and> sm_wf sm' \<and> sessions sm' = [] \<and>
    (quota_ok sm \<longrightarrow> quota_ok sm') \<and> (index_exact sm \<longrightarrow> index_exact sm')"
  using assms
proof (induction l arbitrary: sm)
  case Nil
  then show ?case by simp
next
  case (Cons ka rest)
  obtain k a where ka: "ka = (k, a)" by (cases ka)
  with Cons.prems have live: "map_of (sessions sm) k = Some a"
    and fresh: "k \<notin> fst ` set rest"
    by (auto simp: sm_wf_def gm_wf_def)
  note wf = Cons.prems(1)
  obtain sm' where c: "cleanupSessionLocked k a reason sm = Some sm'"
    and se: "sessions sm' = AList.delete k (sessions sm)"
    by (rule cleanup_ok [OF wf live])
  have "sessions sm' = rest"
    using fresh by (simp add: se Cons.prems(2) ka delete_notin_dom)
  from Cons.IH [OF cleanup_wf(1) [OF wf live c] this] show ?case
    using c cleanup_quota [OF wf live c] cleanup_index [OF wf live c] by (auto simp: ka)
qed

lemma Shutdown_effect:
  assumes wf: "sm_wf sm" and up: "\<not> shutdownChan sm"
  obtains sm' where "Shutdown sm = Some sm'" "sm_wf sm'" "sessions sm' = []"
    "quota_ok sm \<longrightarrow> quota_ok sm'" "index_exact sm \<longrightarrow> index_exact sm'"
proof -
  let ?ts = "foldl (\<lambda>ts (k, t). stop_timer t ts) (timerStore sm) (timers sm)"
  let ?sm = "sm\<lparr>shutdownChan := True, timerStore := ?ts, timers := []\<rparr>"
  have f: "sm_wf ?sm" "quota_ok ?sm = quota_ok sm" "index_exact ?sm = index_exact sm"
    using sm_frame [of ?sm sm] wf by simp_all
  obtain sm' where sm': "cleanup_list (sessions sm) ''shutdown'' ?sm = Some sm'" "sm_wf sm'"
    "sessions sm' = []" "quota_ok ?sm \<longrightarrow> quota_ok sm'" "index_exact ?sm \<longrightarrow> index_exact sm'"
    using cleanup_list_effect [OF f(1), of "sessions sm" "''shutdown''"] by auto
  show thesis
    by (rule that [of sm']) (use sm' up f in \<open>simp_all add: Shutdown_def Let_def\<close>)
qed

section \<open>Histories of operations\<close>

text \<open>
  The calls the rest of the program makes on the manager, in any order; \<open>Fire\<close> and \<open>Run\<close>
  are the runtime's timer steps, and do nothing where the timer is not ready for them.
\<close>

datatype sm_op =
    Create string string string gotime
  | End string
  | Reset string gotime
  | Start string gotime
  | Fire nat gotime
  | Run nat
  | Down

fun sm_apply :: "sm_op \<Rightarrow> SessionManager \<Rightarrow> SessionManager option" where
  "sm_apply (Create k u r now) sm = Some (snd (CreateSession k u r now sm))"
| "sm_apply (End k) sm = map_option snd (EndSession k sm)"
| "sm_apply (Reset k now) sm = Some (ResetSessionTimer k now sm)"
| "sm_apply (Start k now) sm = Some (StartSessionTimer k now sm)"
| "sm_apply (Fire t now) sm = (case fire_timer t now sm of None \<Rightarrow> Some sm | Some sm' \<Rightarrow> Some sm')"
| "sm_apply (Run t) sm = (if timer_fired t sm then run_timer t sm else Some sm)"
| "sm_apply Down sm = Shutdown sm"

fun sm_run :: "sm_op list \<Rightarrow> SessionManager \<Rightarrow> SessionManager option" where
  "sm_run [] sm = Some sm"
| "sm_run (x # xs) sm = do { sm' \<leftarrow> sm_apply x sm; sm_run xs sm' }"

lemma run_timer_effect:
  assumes wf: "sm_wf sm"
  obtains sm' where "run_timer t sm = Some sm'" "sm_wf sm'"
    "quota_ok sm \<longrightarrow> quota_ok sm'" "index_exact sm \<longrightarrow> index_exact sm'"
    "owner sm' = (owner sm)(TimerKey (timerStore sm ! t) := None)"
proof -
  let ?sm = "sm\<lparr>timerStore := (timerStore sm)[t := (timerStore sm ! t)\<lparr>TState := Ran\<rparr>]\<rparr>"
  have f: "sm_wf ?sm" "owner ?sm = owner sm" "quota_ok ?sm = quota_ok sm" "index_exact ?sm = index_exact sm"
    using sm_frame [of ?sm sm] wf by simp_all
  show thesis
    by (rule ExpireSession_effect [OF f(1), of "TimerKey (timerStore sm ! t)"])
       (rule that, simp_all add: run_timer_def f)
qed

text \<open>The only operation that can panic is a second shutdown.\<close>

lemma sm_apply_step:
  assumes wf: "sm_wf sm" and q: "quota_ok sm"
  shows "(\<exists>sm'. sm_apply x sm = Some sm' \<and> sm_wf sm' \<and> quota_ok sm') \<or> (x = Down \<and> shutdownChan sm)"
proof (cases x)
  case (Create k u r now)
  obtain e sm' where c: "CreateSession k u r now sm = (e, sm')" by fastforce
  then show ?thesis
    using CreateSession_wf [OF wf c] CreateSession_quota [OF q c] by (simp add: Create)
next
  case (End k)
  obtain r sm' where e: "EndSession k sm = Some (r, sm')"
    using EndSession_total [OF wf] by blast
  then show ?thesis
    using EndSession_effect(1,3) [OF wf e] q by (simp add: End)
next
  case (Reset k now)
  then show ?thesis using ResetSessionTimer_effect(1,3) [OF wf] q by simp
next
  case (Start k now)
  then show ?thesis
    using sm_frame(1,3) [of "StartSessionTimer k now sm" sm] wf q by (simp add: StartSessionTimer_frame)
next
  case (Fire t now)
  show ?thesis
  proof (cases "fire_timer t now sm")
    case None
    with wf q show ?thesis by (simp add: Fire)
  next
    case (Some sm')
    with sm_frame(1,3) [of sm' sm] fire_timer_frame [OF Some] wf q show ?thesis
      by (simp add: Fire)
  qed
next
  case (Run t)
  obtain sm' where "run_timer t sm = Some sm'" "sm_wf sm'" "quota_ok sm \<longrightarrow> quota_ok sm'"
    by (rule run_timer_effect [OF wf])
  with wf q show ?thesis by (simp add: Run)
next
  case Down
  show ?thesis
  proof (cases "shutdownChan sm")
    case False
    obtain sm' where "Shutdown sm = Some sm'" "sm_wf sm'" "quota_ok sm \<longrightarrow> quota_ok sm'"
      by (rule Shutdown_effect [OF wf False])
    with q show ?thesis by (simp add: Down)
  qed (simp add: Down)
qed

lemma sm_run_wf:
  assumes "sm_wf sm" "quota_ok sm" "sm_run xs sm = Some sm'"
  shows "sm_wf sm' \<and> quota_ok sm'"
  using assms
proof (induction xs arbitrary: sm)
  case Nil
  then show ?case by simp
next
  case (Cons x xs)
  then obtain sm1 where x: "sm_apply x sm = Some sm1" and xs: "sm_run xs sm1 = Some sm'"
    by (auto simp: bind_eq_Some_conv)
  have "\<not> (x = Down \<and> shutdownChan sm)"
    using x by (auto simp: Shutdown_def)
  with sm_apply_step [OF Cons.prems(1,2), of x] x have "sm_wf sm1" "quota_ok sm1"
    by auto
  then show ?case using xs by (rule Cons.IH)
qed

section \<open>The interface SessionStore\<close>

text \<open>
  What the broker and the handlers rely on, over the map from live keys to their owners.
\<close>

locale session_store =
  fixes create :: "string \<Rightarrow> string \<Rightarrow> string \<Rightarrow> gotime \<Rightarrow> 's \<Rightarrow> goerr option \<times> 's"
    and validate :: "string \<Rightarrow> string \<Rightarrow> 's \<Rightarrow> goerr option"
    and finish :: "string \<Rightarrow> 's \<Rightarrow> (goerr option \<times> 's) option"
    and own :: "'s \<Rightarrow> string \<Rightarrow> string option"
    and inv :: "'s \<Rightarrow> bool"
  assumes create_own: "inv s \<Longrightarrow> create k u r n s = (None, t) \<Longrightarrow> own t = (own s)(k \<mapsto> u)"
    and create_fail: "create k u r n s = (Some e, t) \<Longrightarrow> t = s"
    and create_inv: "inv s \<Longrightarrow> create k u r n s = (x, t) \<Longrightarrow> inv t"
    and validate_own: "validate k u s = None \<longleftrightarrow> own s k = Some u"
    and finish_total: "inv s \<Longrightarrow> \<exists>x t. finish k s = Some (x, t)"
    and finish_own: "inv s \<Longrightarrow> finish k s = Some (x, t) \<Longrightarrow> own t = (own s)(k := None)"
    and finish_inv: "inv s \<Longrightarrow> finish k s = Some (x, t) \<Longrightarrow> inv t"
begin

lemma validate_unique: "validate k u s = None \<Longrightarrow> validate k u' s = None \<Longrightarrow> u = u'"
  by (simp add: validate_own)

lemma validate_after_create:
  "inv s \<Longrightarrow> create k u r n s = (None, t) \<Longrightarrow>
   validate k' u' t = None \<longleftrightarrow> (if k' = k then u' = u else validate k' u' s = None)"
  by (auto simp: validate_own create_own)

lemma validate_after_finish:
  "inv s \<Longrightarrow> finish k s = Some (x, t) \<Longrightarrow> validate k' u' t = None \<longleftrightarrow> k' \<noteq> k \<and> validate k' u' s = None"
  by (auto simp: validate_own finish_own)

lemma finish_twice:
  "inv s \<Longrightarrow> finish k s = Some (x, t) \<Longrightarrow> finish k t = Some (y, v) \<Longrightarrow> own v = own t"
  using finish_own finish_inv by fastforce

end

lemma ValidateSession_owner: "ValidateSession k u s = None \<longleftrightarrow> owner s k = Some u"
  by (auto simp: ValidateSession_def owner_def split: option.splits)

interpretation sms: session_store CreateSession ValidateSession EndSession owner sm_wf
  by unfold_locales
    (erule (1) CreateSession_owner, erule CreateSession_error_frame, erule (1) CreateSession_wf,
     rule ValidateSession_owner, erule EndSession_total, erule (1) EndSession_effect(2),
     erule (1) EndSession_effect(1))

section \<open>State parameters\<close>

lemma last_dot_found:
  assumes "CHR ''.'' \<notin> set nonce" and "n \<le> length nonce"
  shows "last_dot (key @ CHR ''.'' # nonce) (Suc (length key + n)) = Some (length key)"
  using assms(2)
proof (induction n)
  case 0
  then show ?case by simp
next
  case (Suc n)
  then have "(key @ CHR ''.'' # nonce) ! Suc (length key + n) = nonce ! n"
    by (simp add: nth_append)
  moreover have "nonce ! n \<noteq> CHR ''.''"
    using Suc.prems assms(1) by (metis Suc_le_lessD nth_mem)
  ultimately show ?case
    using Suc by simp
qed

lemma last_dot_state:
  "CHR ''.'' \<notin> set nonce \<Longrightarrow>
   last_dot (key @ CHR ''.'' # nonce) (length (key @ CHR ''.'' # nonce)) = Some (length key)"
  using last_dot_found [of nonce "length nonce" key] by simp

lemma GetSessionByState_sound:
  "GetSessionByState state sm = Inr a \<Longrightarrow> sm_wf sm \<Longrightarrow>
   map_of (sessions sm) (SessionKey (store sm ! a)) = Some a \<and>
   (\<exists>tx. ActiveOAuthTx (store sm ! a) = Some tx \<and> TxState tx = state)"
  by (auto simp: GetSessionByState_def Let_def dest: sm_wf_live(2) split: option.splits if_splits)

lemma GetSessionByState_complete:
  "CHR ''.'' \<notin> set nonce \<Longrightarrow> map_of (sessions sm) key = Some a \<Longrightarrow>
   ActiveOAuthTx (store sm ! a) = Some tx \<Longrightarrow> TxState tx = key @ ''.'' @ nonce \<Longrightarrow>
   GetSessionByState (key @ ''.'' @ nonce) sm = Inr a"
  using last_dot_state [of nonce key] by (simp add: GetSessionByState_def)

section \<open>Configuration and timers along a history\<close>

lemma cleanup_max:
  "cleanupSessionLocked k a reason sm = Some sm' \<Longrightarrow> maxSessionsPerUser sm' = maxSessionsPerUser sm"
  by (auto simp: cleanupSessionLocked_def Let_def bind_eq_Some_conv split: if_splits)

lemma cleanup_list_max:
  "cleanup_list l reason sm = Some sm' \<Longrightarrow> maxSessionsPerUser sm' = maxSessionsPerUser sm"
  by (induction l reason sm rule: cleanup_list.induct) (auto simp: bind_eq_Some_conv dest: cleanup_max)

lemma ExpireSession_max:
  "ExpireSession k sm = Some sm' \<Longrightarrow> maxSessionsPerUser sm' = maxSessionsPerUser sm"
  by (auto simp: ExpireSession_def dest: cleanup_max split: option.splits)

lemma sm_apply_max: "sm_apply x sm = Some sm' \<Longrightarrow> maxSessionsPerUser sm' = maxSessionsPerUser sm"
proof (cases x)
  case (Create k u r now)
  then show "sm_apply x sm = Some sm' \<Longrightarrow> ?thesis"
    by (cases rule: CreateSession_cases [of k u r now sm]) auto
next
  case (Fire t now)
  then show "sm_apply x sm = Some sm' \<Longrightarrow> ?thesis"
    by (auto dest: fire_timer_frame split: option.splits)
qed (auto simp: EndSession_def ResetSessionTimer_def StartSessionTimer_def run_timer_def Shutdown_def
      Let_def dest!: cleanup_max cleanup_list_max ExpireSession_max split: option.splits if_splits)

lemma sm_run_max: "sm_run xs sm = Some sm' \<Longrightarrow> maxSessionsPerUser sm' = maxSessionsPerUser sm"
  by (induction xs arbitrary: sm) (auto simp: bind_eq_Some_conv dest: sm_apply_max)

text \<open>
  An armed timer is the registered timer of its key, so a key has at most one.
\<close>

definition timers_ok :: "SessionManager \<Rightarrow> bool" where
  "timers_ok sm \<longleftrightarrow> gm_wf (timers sm) \<and>
     (\<forall>k t. map_of (timers sm) k = Some t \<longrightarrow>
        t < length (timerStore sm) \<and> TimerKey (timerStore sm ! t) = k) \<and>
     (\<forall>t < length (timerStore sm). \<forall>d. TState (timerStore sm ! t) = Armed d \<longrightarrow>
        map_of (timers sm) (TimerKey (timerStore sm ! t)) = Some t)"

lemma stop_timer_sel [simp]:
  "length (stop_timer t ts) = length ts"
  "TimerKey (stop_timer t ts ! i) = TimerKey (ts ! i)"
  by (cases "i = t"; auto simp: stop_timer_def split: TimerState.splits)+

lemma stop_timer_state:
  "TState (stop_timer t ts ! i) = Armed d \<Longrightarrow> i < length ts \<Longrightarrow> i \<noteq> t \<and> TState (ts ! i) = Armed d"
  by (cases "i = t"; auto simp: stop_timer_def split: TimerState.splits if_splits)

lemma timers_ok_new [simp]: "timers_ok (NewSessionManager t m)"
  by (simp add: timers_ok_def NewSessionManager_def)

lemma timers_ok_cong:
  "timers sm' = timers sm \<Longrightarrow> timerStore sm' = timerStore sm \<Longrightarrow> timers_ok sm' = timers_ok sm"
  by (simp add: timers_ok_def)

lemma timers_ok_iff:
  "timers_ok sm \<longleftrightarrow> gm_wf (timers sm) \<and>
     (\<forall>k t. map_of (timers sm) k = Some t \<longrightarrow>
        t < length (timerStore sm) \<and> TimerKey (timerStore sm ! t) = k) \<and>
     (\<forall>t d. t < length (timerStore sm) \<longrightarrow> TState (timerStore sm ! t) = Armed d \<longrightarrow>
        map_of (timers sm) (TimerKey (timerStore sm ! t)) = Some t)"
  by (auto simp: timers_ok_def)

lemma timers_ok_stop:
  assumes ok: "timers_ok sm" and k: "map_of (timers sm) k = Some t0"
    and "i < length (timerStore sm)" "TState (stop_timer t0 (timerStore sm) ! i) = Armed d"
  shows "TimerKey (timerStore sm ! i) \<noteq> k" "TState (timerStore sm ! i) = Armed d"
  using stop_timer_state [OF assms(4,3)] ok k assms(3) by (auto simp: timers_ok_def)

lemma timers_ok_drop:
  assumes ok: "timers_ok sm"
  shows "timers_ok (drop_timer k sm)"
proof (cases "map_of (timers sm) k")
  case None
  with ok show ?thesis by (simp add: drop_timer_def)
next
  case (Some t0)
  note stopped = timers_ok_stop [OF ok Some]
  show ?thesis
    using ok stopped by (simp add: timers_ok_iff drop_timer_def Some gomap_simps)
qed

lemma drop_timer_disarms:
  assumes "timers_ok sm" and "t < length (timerStore (drop_timer k sm))"
    and "TimerKey (timerStore (drop_timer k sm) ! t) = k"
  shows "TState (timerStore (drop_timer k sm) ! t) \<noteq> Armed d"
proof
  assume "TState (timerStore (drop_timer k sm) ! t) = Armed d"
  with timers_ok_drop [OF assms(1), of k] assms(2,3) have "map_of (timers (drop_timer k sm)) k = Some t"
    unfolding timers_ok_iff by metis
  then show False
    by (auto simp: drop_timer_def gomap_simps split: option.splits)
qed

lemma timers_ok_start:
  assumes ok: "timers_ok sm"
  shows "timers_ok (StartSessionTimer k now sm)"
proof (cases "map_of (sessions sm) k")
  case None
  with ok show ?thesis by (simp add: StartSessionTimer_def)
next
  case live: (Some a)
  show ?thesis
  proof (cases "map_of (timers sm) k")
    case None
    with ok show ?thesis
      by (auto simp: timers_ok_iff StartSessionTimer_def live Let_def gomap_simps nth_append less_Suc_eq)
  next
    case (Some t0)
    note stopped = timers_ok_stop [OF ok Some]
    show ?thesis
      using ok stopped
      by (auto simp: timers_ok_iff StartSessionTimer_def live Let_def Some gomap_simps nth_append less_Suc_eq)
  qed
qed

lemma timers_ok_state:
  assumes ok: "timers_ok sm" and ts: "timers sm' = timers sm"
    and st: "timerStore sm' = (timerStore sm)[t := (timerStore sm ! t)\<lparr>TState := x\<rparr>]"
    and x: "\<And>d. x \<noteq> Armed d"
  shows "timers_ok sm'"
proof -
  have key: "TimerKey (timerStore sm' ! i) = TimerKey (timerStore sm ! i)" for i
    by (cases "i = t"; cases "t < length (timerStore sm)") (simp_all add: st list_update_beyond)
  have arm: "TState (timerStore sm ! i) = Armed d" if "TState (timerStore sm' ! i) = Armed d"
    "i < length (timerStore sm)" for i d
    using that x by (cases "i = t") (auto simp: st)
  show ?thesis
    using ok arm by (auto simp: timers_ok_def ts key) (simp_all add: st)
qed

lemma cleanup_timers:
  "cleanupSessionLocked k a reason sm = Some sm' \<Longrightarrow>
   timers sm' = timers (drop_timer k sm) \<and> timerStore sm' = timerStore (drop_timer k sm)"
  by (auto simp: cleanupSessionLocked_def Let_def bind_eq_Some_conv split: if_splits)

lemma timers_ok_cleanup:
  "timers_ok sm \<Longrightarrow> cleanupSessionLocked k a reason sm = Some sm' \<Longrightarrow> timers_ok sm'"
  using cleanup_timers timers_ok_cong timers_ok_drop by metis

lemma timers_ok_cleanup_list:
  "timers_ok sm \<Longrightarrow> cleanup_list l reason sm = Some sm' \<Longrightarrow> timers_ok sm'"
  by (induction l reason sm rule: cleanup_list.induct)
     (auto simp: bind_eq_Some_conv dest: timers_ok_cleanup)

lemma timers_ok_expire:
  "timers_ok sm \<Longrightarrow> ExpireSession k sm = Some sm' \<Longrightarrow> timers_ok sm'"
  by (auto simp: ExpireSession_def dest: timers_ok_cleanup split: option.splits)

lemma stop_all_length: "length (foldl (\<lambda>ts (k, t). stop_timer t ts) ts l) = length ts"
  by (induction l arbitrary: ts) auto

lemma stop_all_armed:
  "TState (foldl (\<lambda>ts (k, t). stop_timer t ts) ts l ! i) = Armed d \<Longrightarrow> i < length ts \<Longrightarrow>
   i \<notin> snd ` set l \<and> TState (ts ! i) = Armed d"
proof (induction l arbitrary: ts)
  case Nil
  then show ?case by simp
next
  case (Cons kt l)
  obtain k t where kt: "kt = (k, t)" by (cases kt)
  have "i \<notin> snd ` set l \<and> TState (stop_timer t ts ! i) = Armed d"
    using Cons.IH [of "stop_timer t ts"] Cons.prems by (simp add: kt)
  with stop_timer_state [of t ts i d] Cons.prems(2) show ?case by (simp add: kt)
qed

lemma timers_ok_shutdown:
  assumes ok: "timers_ok sm" and d: "Shutdown sm = Some sm'"
  shows "timers_ok sm'"
proof -
  let ?ts = "foldl (\<lambda>ts (k, t). stop_timer t ts) (timerStore sm) (timers sm)"
  have "TState (?ts ! i) \<noteq> Armed d" if "i < length (timerStore sm)" for i d
  proof
    assume "TState (?ts ! i) = Armed d"
    from stop_all_armed [OF this that] have "i \<notin> snd ` set (timers sm)"
      and "TState (timerStore sm ! i) = Armed d" by simp_all
    with ok that have "map_of (timers sm) (TimerKey (timerStore sm ! i)) = Some i"
      by (simp add: timers_ok_iff)
    with \<open>i \<notin> snd ` set (timers sm)\<close> show False
      by (force dest: map_of_SomeD)
  qed
  then have "timers_ok (sm\<lparr>shutdownChan := True, timerStore := ?ts, timers := []\<rparr>)"
    by (simp add: timers_ok_iff stop_all_length)
  with d show ?thesis
    by (auto simp: Shutdown_def Let_def split: if_splits dest: timers_ok_cleanup_list)
qed

lemma timers_ok_apply:
  assumes ok: "timers_ok sm" and x: "sm_apply x sm = Some sm'"
  shows "timers_ok sm'"
proof (cases x)
  case (Create k u r now)
  then have "timers sm' = timers sm \<and> timerStore sm' = timerStore sm"
    using x by (auto simp: CreateSession_def split: if_splits)
  with ok show ?thesis using timers_ok_cong by blast
next
  case (End k)
  with ok x show ?thesis
    by (auto simp: EndSession_def dest: timers_ok_cleanup split: option.splits)
next
  case (Reset k now)
  with ok x show ?thesis
    using timers_ok_drop [OF ok, of k]
    by (auto simp: ResetSessionTimer_def Let_def timers_ok_def split: option.splits)
next
  case (Start k now)
  with ok x show ?thesis by (auto dest: timers_ok_start)
next
  case (Fire t now)
  with ok x show ?thesis
    by (auto simp: fire_timer_def intro!: timers_ok_state [OF ok]
        split: option.splits if_splits TimerState.splits)
next
  case (Run t)
  have "timers_ok (sm\<lparr>timerStore := (timerStore sm)[t := (timerStore sm ! t)\<lparr>TState := Ran\<rparr>]\<rparr>)"
    by (rule timers_ok_state [OF ok, where t = t and x = Ran]) simp_all
  with ok x Run show ?thesis
    by (auto simp: run_timer_def dest: timers_ok_expire split: if_splits)
next
  case Down
  with ok x show ?thesis by (simp add: timers_ok_shutdown)
qed

lemma sm_run_timers_ok: "timers_ok sm \<Longrightarrow> sm_run xs sm = Some sm' \<Longrightarrow> timers_ok sm'"
  by (induction xs arbitrary: sm) (auto simp: bind_eq_Some_conv dest: timers_ok_apply)

section \<open>Lockout by reused keys\<close>

text \<open>
  A user whose index entry is full but who owns no live session: nothing the manager can
  do changes that any more.
\<close>

definition locked_out :: "string \<Rightarrow> SessionManager \<Rightarrow> bool" where
  "locked_out u sm \<longleftrightarrow> u \<in> dom (map_of (userSessions sm)) \<and>
     maxSessionsPerUser sm \<le> int (length (user_keys sm u)) \<and> (\<forall>k. owner sm k \<noteq> Some u)"

lemma locked_out_refused:
  "locked_out u sm \<Longrightarrow> CreateSession k u r now sm =
     (Some (Errorf [Lit ''max sessions per user exceeded'']), sm)"
  by (auto simp: locked_out_def CreateSession_def user_keys_def split: option.splits)

lemma locked_out_frame:
  assumes "userSessions sm' = userSessions sm" "maxSessionsPerUser sm' = maxSessionsPerUser sm"
    "owner sm' = owner sm"
  shows "locked_out u sm' = locked_out u sm"
  using assms by (simp add: locked_out_def user_keys_def)

lemma locked_out_cleanup:
  assumes wf: "sm_wf sm" and live: "map_of (sessions sm) k = Some a"
    and c: "cleanupSessionLocked k a reason sm = Some sm'" and l: "locked_out u sm"
  shows "locked_out u sm'"
proof -
  have "UserID (store sm ! a) \<noteq> u"
    using l live by (auto simp: locked_out_def owner_def)
  moreover have "userSessions sm' = drop_user_key (UserID (store sm ! a)) k (userSessions sm)"
    using cleanup_ok [OF wf live, of reason] c by (metis option.sel)
  ultimately have "map_of (userSessions sm') u = map_of (userSessions sm) u"
    by (simp add: drop_user_key_def gomap_simps Let_def split: option.splits)
  with l show ?thesis
    using cleanup_wf(2) [OF wf live c] cleanup_max [OF c]
    by (simp add: locked_out_def user_keys_def dom_def)
qed

lemma locked_out_expire:
  assumes "sm_wf sm" and "ExpireSession k sm = Some sm'" and "locked_out u sm"
  shows "locked_out u sm'"
  using assms locked_out_cleanup by (auto simp: ExpireSession_def split: option.splits)

lemma locked_out_cleanup_list:
  assumes "sm_wf sm" and "sessions sm = l" and "cleanup_list l reason sm = Some sm'" and "locked_out u sm"
  shows "locked_out u sm'"
  using assms
proof (induction l arbitrary: sm)
  case Nil
  then show ?case by simp
next
  case (Cons ka rest)
  obtain k a where ka: "ka = (k, a)" by (cases ka)
  with Cons.prems have live: "map_of (sessions sm) k = Some a" and fresh: "k \<notin> fst ` set rest"
    by (auto simp: sm_wf_def gm_wf_def)
  note wf = Cons.prems(1)
  obtain sm1 where c: "cleanupSessionLocked k a reason sm = Some sm1"
    and se: "sessions sm1 = AList.delete k (sessions sm)"
    by (rule cleanup_ok [OF wf live])
  have "sessions sm1 = rest"
    using fresh by (simp add: se Cons.prems(2) ka delete_notin_dom)
  with Cons.IH [OF cleanup_wf(1) [OF wf live c] this] locked_out_cleanup [OF wf live c Cons.prems(4)]
    Cons.prems(3) c show ?case by (simp add: ka)
qed

lemma locked_out_apply:
  assumes wf: "sm_wf sm" and x: "sm_apply x sm = Some sm'" and l: "locked_out u sm"
  shows "locked_out u sm'"
proof (cases x)
  case (Create k v r now)
  show ?thesis
  proof (cases "v = u")
    case True
    with x l show ?thesis by (simp add: Create locked_out_refused)
  next
    case False
    show ?thesis
    proof (cases rule: CreateSession_cases [of k v r now sm])
      case full
      with x l show ?thesis by (simp add: Create)
    next
      case (ok sm1)
      then have "sm' = sm1" using x by (simp add: Create)
      with ok False l CreateSession_owner [OF wf ok(1)] show ?thesis
        by (simp add: locked_out_def user_keys_update [OF ok(4)] dom_def gomap_simps)
    qed
  qed
next
  case (End k)
  with x l wf show ?thesis
    using locked_out_cleanup by (auto simp: EndSession_def split: option.splits)
next
  case (Reset k now)
  have sm': "sm' = ResetSessionTimer k now sm" using x by (simp add: Reset)
  have "locked_out u sm' = locked_out u sm"
    by (rule locked_out_frame)
       (simp_all add: sm' ResetSessionTimer_effect(2) [OF wf],
        simp_all add: ResetSessionTimer_def Let_def split: option.splits)
  with l show ?thesis by simp
next
  case (Start k now)
  have sm': "sm' = StartSessionTimer k now sm" using x by (simp add: Start)
  have "locked_out u sm' = locked_out u sm"
    by (rule locked_out_frame) (simp_all add: sm' owner_def StartSessionTimer_frame fun_eq_iff)
  with l show ?thesis by simp
next
  case (Fire t now)
  show ?thesis
  proof (cases "fire_timer t now sm")
    case (Some sm1)
    with x l Fire fire_timer_frame [OF Some] show ?thesis
      using locked_out_frame [of sm' sm] by (simp add: owner_def fun_eq_iff)
  qed (use x l Fire in simp)
next
  case (Run t)
  let ?sm = "sm\<lparr>timerStore := (timerStore sm)[t := (timerStore sm ! t)\<lparr>TState := Ran\<rparr>]\<rparr>"
  have "sm_wf ?sm" "locked_out u ?sm"
    using sm_frame [of ?sm sm] locked_out_frame [of ?sm sm] wf l by simp_all
  with x l Run show ?thesis
    by (auto simp: run_timer_def dest: locked_out_expire split: if_splits)
next
  case Down
  let ?sm = "sm\<lparr>shutdownChan := True,
    timerStore := foldl (\<lambda>ts (k, t). stop_timer t ts) (timerStore sm) (timers sm), timers := []\<rparr>"
  have "sm_wf ?sm" "locked_out u ?sm" "sessions ?sm = sessions sm"
    using sm_frame [of ?sm sm] locked_out_frame [of ?sm sm] wf l by simp_all
  with x Down show ?thesis
    by (auto simp: Shutdown_def Let_def dest: locked_out_cleanup_list split: if_splits)
qed

lemma locked_out_run:
  assumes "sm_wf sm" "quota_ok sm" "locked_out u sm" "sm_run xs sm = Some sm'"
  shows "locked_out u sm'"
  using assms
proof (induction xs arbitrary: sm)
  case Nil
  then show ?case by simp
next
  case (Cons x xs)
  then obtain sm1 where x: "sm_apply x sm = Some sm1" and xs: "sm_run xs sm1 = Some sm'"
    by (auto simp: bind_eq_Some_conv)
  have "sm_wf sm1 \<and> quota_ok sm1"
    using sm_run_wf [OF Cons.prems(1,2), of "[x]"] x by simp
  with locked_out_apply [OF Cons.prems(1) x Cons.prems(3)] Cons.IH xs show ?case by blast
qed

section \<open>Properties\<close>

lemma GetUserSessionCount_keys: "GetUserSessionCount u sm = length (user_keys sm u)"
  by (simp add: GetUserSessionCount_def user_keys_def split: option.splits)

lemma sm_run_new_max:
  "sm_run xs (NewSessionManager timeout m) = Some sm \<Longrightarrow> maxSessionsPerUser sm = m"
  using sm_run_max [of xs "NewSessionManager timeout m" sm] by (simp add: NewSessionManager_def)

lemmas sm_eval = NewSessionManager_def CreateSession_def EndSession_def ExpireSession_def
  ResetSessionTimer_def StartSessionTimer_def fire_timer_def timer_fired_def run_timer_def
  cleanupSessionLocked_def new_session_def drop_timer_def drop_user_key_def try_send_def
  make_chan_def stop_timer_def Shutdown_def user_keys_def owner_def Let_def GetUserSessionCount_def

text \<open>
  C1.  Whatever calls reach the session manager, in whatever order and with timers firing at
  any moment, its maps stay consistent (a key points to an open session object carrying that
  key), no user is charged for more sessions than the configured maximum, and no operation
  panics on a closed channel, the one exception being a second shutdown.
\<close>

theorem session_manager_safe:
  assumes "sm_run xs (NewSessionManager timeout m) = Some sm"
  shows "sm_wf sm \<and> (\<forall>u. int (GetUserSessionCount u sm) \<le> max 1 m) \<and>
    (\<forall>x. sm_apply x sm = None \<longrightarrow> x = Down \<and> shutdownChan sm)"
proof -
  have wf: "sm_wf sm" and q: "quota_ok sm"
    using sm_run_wf [OF _ _ assms] by simp_all
  have "x = Down \<and> shutdownChan sm" if "sm_apply x sm = None" for x
    using sm_apply_step [OF wf q, of x] that by simp
  with wf q sm_run_new_max [OF assms] show ?thesis
    by (simp add: GetUserSessionCount_keys quota_ok_def)
qed

theorem session_manager_safe_witness:
  "\<exists>sm. sm_run [Create ''k'' ''u'' '''' 0, Start ''k'' 0, Fire 0 60, Run 0, Down]
      (NewSessionManager 60 5) = Some sm \<and> sm_wf sm \<and> sm_apply Down sm = None"
proof -
  let ?xs = "[Create ''k'' ''u'' '''' 0, Start ''k'' 0, Fire 0 60, Run 0, Down]"
  have "\<exists>sm. sm_run ?xs (NewSessionManager 60 5) = Some sm \<and> shutdownChan sm"
    by (simp add: sm_eval)
  then obtain sm where r: "sm_run ?xs (NewSessionManager 60 5) = Some sm" and d: "shutdownChan sm"
    by blast
  with session_manager_safe [OF r] show ?thesis by (auto simp: Shutdown_def)
qed

fun fresh_keys :: "sm_op list \<Rightarrow> SessionManager \<Rightarrow> bool" where
  "fresh_keys [] sm = True"
| "fresh_keys (x # xs) sm =
     ((case x of Create k u r now \<Rightarrow> owner sm k = None | _ \<Rightarrow> True) \<and>
      (case sm_apply x sm of None \<Rightarrow> True | Some sm' \<Rightarrow> fresh_keys xs sm'))"

lemma index_exact_apply:
  assumes wf: "sm_wf sm" and ix: "index_exact sm" and x: "sm_apply x sm = Some sm'"
    and fresh: "case x of Create k u r now \<Rightarrow> owner sm k = None | _ \<Rightarrow> True"
  shows "index_exact sm'"
proof (cases x)
  case (Create k u r now)
  obtain e sm1 where c: "CreateSession k u r now sm = (e, sm1)" by fastforce
  with CreateSession_index [OF wf ix _ c] fresh x Create show ?thesis by simp
next
  case (End k)
  then obtain r where "EndSession k sm = Some (r, sm')" using x by auto
  with EndSession_effect(4) [OF wf] ix show ?thesis by blast
next
  case (Reset k now)
  with x ix ResetSessionTimer_effect(4) [OF wf, of k now] show ?thesis by auto
next
  case (Start k now)
  with x ix sm_frame(4) [of "StartSessionTimer k now sm" sm] show ?thesis
    by (auto simp: StartSessionTimer_frame)
next
  case (Fire t now)
  show ?thesis
  proof (cases "fire_timer t now sm")
    case (Some sm1)
    with x ix Fire fire_timer_frame [OF Some] sm_frame(4) [of sm1 sm] show ?thesis by simp
  qed (use x ix Fire in simp)
next
  case (Run t)
  obtain sm1 where "run_timer t sm = Some sm1" "index_exact sm \<longrightarrow> index_exact sm1"
    by (rule run_timer_effect [OF wf])
  with x ix Run show ?thesis by (auto split: if_splits)
next
  case Down
  then have up: "\<not> shutdownChan sm" using x by (auto simp: Shutdown_def)
  obtain sm1 where "Shutdown sm = Some sm1" "index_exact sm \<longrightarrow> index_exact sm1"
    by (rule Shutdown_effect [OF wf up])
  with x ix Down show ?thesis by simp
qed

lemma index_exact_run:
  assumes "sm_wf sm" "quota_ok sm" "index_exact sm" "sm_run xs sm = Some sm'" "fresh_keys xs sm"
  shows "index_exact sm'"
  using assms
proof (induction xs arbitrary: sm)
  case Nil
  then show ?case by simp
next
  case (Cons x xs)
  then obtain sm1 where x: "sm_apply x sm = Some sm1" and xs: "sm_run xs sm1 = Some sm'"
    by (auto simp: bind_eq_Some_conv)
  have "sm_wf sm1 \<and> quota_ok sm1"
    using sm_run_wf [OF Cons.prems(1,2), of "[x]"] x by simp
  moreover have "index_exact sm1"
    using index_exact_apply [OF Cons.prems(1,3) x] Cons.prems(5) by simp
  moreover have "fresh_keys xs sm1"
    using Cons.prems(5) x by simp
  ultimately show ?case using Cons.IH xs by blast
qed

text \<open>
  C21.  As long as session keys are not reused while live, the quota is exact: the number of
  sessions a user is charged for is the number of live sessions the user owns, so ending,
  expiring or shutting down a session gives its slot back.
\<close>

theorem session_index_exact:
  assumes "sm_run xs (NewSessionManager timeout m) = Some sm"
    and "fresh_keys xs (NewSessionManager timeout m)"
  shows "GetUserSessionCount u sm = card {k. owner sm k = Some u} \<and>
    GetSessionCount sm = card {k. owner sm k \<noteq> None}"
proof -
  have wf: "sm_wf sm"
    using sm_run_wf [OF _ _ assms(1)] by simp
  have ix: "index_exact sm"
    using index_exact_run [OF _ _ _ assms] by simp
  have d: "{k. owner sm k \<noteq> None} = set (map fst (sessions sm))"
    by (auto simp: owner_def map_of_eq_None_iff)
  have "distinct (map fst (sessions sm))"
    using wf by (simp add: sm_wf_def gm_wf_def)
  then have "GetSessionCount sm = card {k. owner sm k \<noteq> None}"
    unfolding d by (simp only: distinct_card GetSessionCount_def length_map)
  moreover have "GetUserSessionCount u sm = card {k. owner sm k = Some u}"
    using ix distinct_card [of "user_keys sm u"] by (simp add: GetUserSessionCount_keys index_exact_def)
  ultimately show ?thesis by simp
qed

theorem session_index_exact_witness:
  "\<exists>sm. sm_run [Create ''k'' ''u'' '''' 0, Create ''l'' ''u'' '''' 1, End ''k''] (NewSessionManager 60 5) = Some sm \<and>
     GetUserSessionCount ''u'' sm = card {k. owner sm k = Some ''u''} \<and> GetUserSessionCount ''u'' sm = 1"
proof -
  let ?xs = "[Create ''k'' ''u'' '''' 0, Create ''l'' ''u'' '''' 1, End ''k'']"
  have "\<exists>sm. sm_run ?xs (NewSessionManager 60 5) = Some sm \<and> GetUserSessionCount ''u'' sm = 1"
    by (simp add: sm_eval)
  then obtain sm where r: "sm_run ?xs (NewSessionManager 60 5) = Some sm"
    and c: "GetUserSessionCount ''u'' sm = 1" by blast
  have f: "fresh_keys ?xs (NewSessionManager 60 5)" by (simp add: sm_eval)
  from session_index_exact [OF r f] r c show ?thesis by auto
qed

text \<open>One user takes over another user's key and ends the session.\<close>

definition takeover :: "string \<Rightarrow> string \<Rightarrow> string \<Rightarrow> sm_op list" where
  "takeover k u1 u2 = [Create k u1 [] 0, Create k u2 [] 0, End k]"

lemma takeover_leaks:
  assumes "u1 \<noteq> u2" "sessions sm = []" "timers sm = []" "int n < maxSessionsPerUser sm"
    and "userSessions sm = (if n = 0 then [] else [(u1, replicate n k)])"
  shows "\<exists>sm'. sm_run (takeover k u1 u2) sm = Some sm' \<and> sessions sm' = [] \<and> timers sm' = [] \<and>
    maxSessionsPerUser sm' = maxSessionsPerUser sm \<and> userSessions sm' = [(u1, replicate (Suc n) k)]"
  using assms by (simp add: takeover_def sm_eval replicate_append_same nth_append)

lemma sm_run_append: "sm_run (xs @ ys) sm = Option.bind (sm_run xs sm) (sm_run ys)"
  by (induction xs arbitrary: sm) (auto split: Option.bind_splits)

lemma takeovers_leak:
  assumes "u1 \<noteq> u2" "int n \<le> m"
  shows "\<exists>sm. sm_run (concat (replicate n (takeover k u1 u2))) (NewSessionManager timeout m) = Some sm \<and>
    sessions sm = [] \<and> timers sm = [] \<and> maxSessionsPerUser sm = m \<and>
    userSessions sm = (if n = 0 then [] else [(u1, replicate n k)])"
  using assms(2)
proof (induction n)
  case (Suc n)
  then obtain sm where sm: "sm_run (concat (replicate n (takeover k u1 u2))) (NewSessionManager timeout m) = Some sm"
    "sessions sm = []" "timers sm = []" "maxSessionsPerUser sm = m" "userSessions sm = (if n = 0 then [] else [(u1, replicate n k)])"
    by auto
  obtain sm' where "sm_run (takeover k u1 u2) sm = Some sm'" "sessions sm' = []" "timers sm' = []"
    "maxSessionsPerUser sm' = m" "userSessions sm' = [(u1, replicate (Suc n) k)]"
    using takeover_leaks [OF assms(1) sm(2,3) _ sm(5)] Suc.prems sm(4) by auto
  moreover have "concat (replicate (Suc n) (takeover k u1 u2)) = concat (replicate n (takeover k u1 u2)) @ takeover k u1 u2"
    by (induction n) simp_all
  ultimately show ?case using sm(1) by (simp add: sm_run_append)
qed (simp add: NewSessionManager_def)

text \<open>
  C31.  A session key that a second user takes over while it is live stays in the index of its
  first owner for ever, and so uses up one unit of that owner's quota each time.  With a quota of
  \<open>m\<close>, after \<open>m\<close> such takeovers, each followed by the end of the session, the manager holds no
  session at all, and yet every later attempt of the first user to create one is refused, whatever
  happens in between.
\<close>

theorem reused_key_locks_out:
  assumes "u1 \<noteq> u2" "0 < m"
  shows "\<exists>sm. sm_run (concat (replicate (nat m) (takeover k u1 u2))) (NewSessionManager timeout m) = Some sm \<and>
    sessions sm = [] \<and>
    (\<forall>xs sm' k' r n. sm_run xs sm = Some sm' \<longrightarrow>
       CreateSession k' u1 r n sm' = (Some (Errorf [Lit ''max sessions per user exceeded'']), sm'))"
proof -
  let ?xs = "concat (replicate (nat m) (takeover k u1 u2))"
  obtain sm where r: "sm_run ?xs (NewSessionManager timeout m) = Some sm" and s: "sessions sm = []"
    and us: "userSessions sm = [(u1, replicate (nat m) k)]"
    using takeovers_leak [OF assms(1), of "nat m" m] assms(2) by auto
  have "sm_wf sm \<and> quota_ok sm" by (rule sm_run_wf [OF _ _ r]) simp_all
  moreover have "locked_out u1 sm"
    using sm_run_new_max [OF r] assms(2) by (simp add: locked_out_def user_keys_def us owner_def s)
  ultimately have "locked_out u1 sm'" if "sm_run xs sm = Some sm'" for xs sm'
    using locked_out_run that by blast
  with r s locked_out_refused show ?thesis by blast
qed

theorem reused_key_locks_out_witness:
  "\<exists>sm. sm_run (concat (replicate 5 (takeover ''k'' ''alice'' ''mallory''))) (NewSessionManager 60 5) = Some sm \<and>
     sessions sm = [] \<and>
     CreateSession ''fresh'' ''alice'' '''' 9 sm = (Some (Errorf [Lit ''max sessions per user exceeded'']), sm)"
  using reused_key_locks_out [of "''alice''" "''mallory''" 5 "''k''" 60] sm_run.simps(1) by fastforce

text \<open>
   In every reachable state a key has at most one armed timer, and a poll of the backend
  (\<^verbatim>\<open>ResetSessionTimer\<close>) leaves none armed for its session, so a connected backend's session
  is not put on the clock.
\<close>

theorem reset_disarms:
  assumes "sm_run xs (NewSessionManager timeout m) = Some sm" and "owner sm k = Some u"
    and "t < length (timerStore (ResetSessionTimer k now sm))"
    and "TimerKey (timerStore (ResetSessionTimer k now sm) ! t) = k"
  shows "TState (timerStore (ResetSessionTimer k now sm) ! t) \<noteq> Armed d"
proof -
  have "timers_ok sm"
    using sm_run_timers_ok [OF _ assms(1)] by simp
  moreover have "timerStore (ResetSessionTimer k now sm) = timerStore (drop_timer k sm)"
    using assms(2) by (auto simp: ResetSessionTimer_def owner_def Let_def)
  ultimately show ?thesis
    using drop_timer_disarms assms(3,4) by simp
qed

theorem reset_disarms_witness:
  "\<exists>sm. sm_run [Create ''k'' ''u'' '''' 0, Start ''k'' 0] (NewSessionManager 60 5) = Some sm \<and>
     TState (timerStore sm ! 0) = Armed 60 \<and>
     TState (timerStore (ResetSessionTimer ''k'' 9 sm) ! 0) \<noteq> Armed 60"
proof -
  let ?xs = "[Create ''k'' ''u'' '''' 0, Start ''k'' 0]"
  have "\<exists>sm. sm_run ?xs (NewSessionManager 60 5) = Some sm \<and> owner sm ''k'' = Some ''u'' \<and>
    TState (timerStore sm ! 0) = Armed 60 \<and>
    0 < length (timerStore (ResetSessionTimer ''k'' 9 sm)) \<and>
    TimerKey (timerStore (ResetSessionTimer ''k'' 9 sm) ! 0) = ''k''"
    by (simp add: sm_eval)
  then show ?thesis using reset_disarms by blast
qed

text \<open>
  C32.  Two schedules in which a session dies although its backend is alive.  A timer that has
  fired but waits for the mutex is not recalled by a poll: the session polled at the very
  moment of expiry is removed right after the poll.  And a session created anew under a live
  key inherits the armed timer of the old one, so it is removed at the old deadline although
  its own recorded deadline is later.
\<close>

theorem stale_timer_expires_session:
  assumes "0 < timeout" and "0 < n" and "n < timeout" and "2 \<le> m"
  shows "\<exists>s1 s2 s3 s4.
    sm_run [Create k u r 0, Start k 0, Fire 0 timeout, Reset k timeout] (NewSessionManager timeout m) = Some s1 \<and>
    owner s1 k = Some u \<and> ExpirationDeadline (store s1 ! 0) = timeout + timeout \<and>
    sm_apply (Run 0) s1 = Some s2 \<and> owner s2 k = None \<and>
    sm_run [Create k u r 0, Start k 0, Create k u r n] (NewSessionManager timeout m) = Some s3 \<and>
    owner s3 k = Some u \<and> ExpirationDeadline (store s3 ! 1) = n + timeout \<and>
    sm_run [Fire 0 timeout, Run 0] s3 = Some s4 \<and> owner s4 k = None"
  using assms by (simp add: sm_eval)

theorem stale_timer_expires_session_witness:
  "\<exists>s1 s2. sm_run [Create ''k'' ''u'' '''' 0, Start ''k'' 0, Fire 0 60, Reset ''k'' 60]
       (NewSessionManager 60 5) = Some s1 \<and> owner s1 ''k'' = Some ''u'' \<and>
     sm_apply (Run 0) s1 = Some s2 \<and> owner s2 ''k'' = None"
  using stale_timer_expires_session [of 60 1 5 "''k''" "''u''" "''''"] by auto

end
