(* ===== verification/Go_Encoding.thy ===== *)
theory Go_Encoding
  imports Prelude
begin

text \<open>
  The parts of Go's standard library the sources use to read tokens: the unpadded URL
  alphabet of \<^verbatim>\<open>encoding/base64\<close> and \<^verbatim>\<open>encoding/json\<close>'s decoding into structs.  A byte is a
  \<^typ>\<open>char\<close>.  The JSON reader is a scanner and a push-down automaton, both structural
  recursions, so they need no fuel.  Raw bytes of JSON strings are taken to be valid UTF-8
  (Go would replace invalid ones), and Go's limit of 10000 nesting levels is not modelled.
\<close>

section \<open>base64.RawURLEncoding\<close>

definition b64_alphabet :: string where
  "b64_alphabet = ''ABCDEFGHIJKLMNOPQRSTUVWXYZabcdefghijklmnopqrstuvwxyz0123456789-_''"

definition b64_char :: "nat \<Rightarrow> char" where
  "b64_char n = b64_alphabet ! n"

definition b64_val :: "char \<Rightarrow> nat option" where
  "b64_val c = index_of c b64_alphabet"

fun b64_encode :: "string \<Rightarrow> string" where
  "b64_encode [] = []"
| "b64_encode [a] = (let a = of_char a in [b64_char (a div 4), b64_char (a mod 4 * 16)])"
| "b64_encode [a, b] =
     (let a = of_char a; b = of_char b in
      [b64_char (a div 4), b64_char (a mod 4 * 16 + b div 16), b64_char (b mod 16 * 4)])"
| "b64_encode (a # b # c # xs) =
     (let a = of_char a; b = of_char b; c = of_char c in
      [b64_char (a div 4), b64_char (a mod 4 * 16 + b div 16),
       b64_char (b mod 16 * 4 + c div 64), b64_char (c mod 64)] @ b64_encode xs)"

fun b64_quads :: "nat list \<Rightarrow> string option" where
  "b64_quads [] = Some []"
| "b64_quads [v] = None"
| "b64_quads [v, w] = Some [char_of (v * 4 + w div 16)]"
| "b64_quads [v, w, x] = Some [char_of (v * 4 + w div 16), char_of (w mod 16 * 16 + x div 4)]"
| "b64_quads (v # w # x # y # zs) =
     map_option (\<lambda>rest. [char_of (v * 4 + w div 16), char_of (w mod 16 * 16 + x div 4),
                          char_of (x mod 4 * 64 + y)] @ rest) (b64_quads zs)"

text \<open>The decoder skips line breaks and rejects every other byte outside the alphabet.\<close>

definition b64_decode :: "string \<Rightarrow> string option" where
  "b64_decode s =
     Option.bind (those (map b64_val (filter (\<lambda>c. c \<noteq> CHR 0x0A \<and> c \<noteq> CHR 0x0D) s))) b64_quads"

lemma b64_val_char: "n < 64 \<Longrightarrow> b64_val (b64_char n) = Some n"
proof -
  have "list_all (\<lambda>n. b64_val (b64_char n) = Some n) [0..<64]"
    by code_simp
  then show "n < 64 \<Longrightarrow> ?thesis" by (simp add: list_all_iff)
qed

lemma b64_char_in: "n < 64 \<Longrightarrow> b64_char n \<in> set b64_alphabet"
  unfolding b64_char_def by (rule nth_mem) (simp add: b64_alphabet_def)

lemma b64_alphabet_excludes:
  "CHR ''.'' \<notin> set b64_alphabet" "CHR ''='' \<notin> set b64_alphabet"
  "CHR 0x0A \<notin> set b64_alphabet" "CHR 0x0D \<notin> set b64_alphabet"
  by (simp_all add: b64_alphabet_def)

lemma of_char_less: "of_char c < (256 :: nat)"
  by simp

lemma sextet_bounds [simp]:
  "of_char a div 4 < (64 :: nat)" "of_char a mod 4 * 16 < (64 :: nat)"
  "of_char a mod 4 * 16 + of_char b div 16 < (64 :: nat)" "of_char b mod 16 * 4 < (64 :: nat)"
  "of_char b mod 16 * 4 + of_char c div 64 < (64 :: nat)" "of_char c mod 64 < (64 :: nat)"
proof -
  have b: "of_char a div 4 < (64 :: nat)" "of_char b div 16 < (16 :: nat)" "of_char c div 64 < (4 :: nat)"
    by (simp_all add: div_less_iff_less_mult)
  have "of_char a mod 4 < (4 :: nat)" "of_char b mod 16 < (16 :: nat)"
    by simp_all
  with b show "of_char a div 4 < (64 :: nat)" "of_char a mod 4 * 16 < (64 :: nat)"
    "of_char a mod 4 * 16 + of_char b div 16 < (64 :: nat)" "of_char b mod 16 * 4 < (64 :: nat)"
    "of_char b mod 16 * 4 + of_char c div 64 < (64 :: nat)"
    by linarith+
  show "of_char c mod 64 < (64 :: nat)" by simp
qed

lemma b64_encode_alphabet: "set (b64_encode s) \<subseteq> set b64_alphabet"
  by (induction s rule: b64_encode.induct) (auto simp: Let_def intro!: b64_char_in sextet_bounds)

lemma b64_encode_no_dot: "CHR ''.'' \<notin> set (b64_encode s)"
  using b64_encode_alphabet b64_alphabet_excludes(1) by blast

lemma b64_filter_encode: "filter (\<lambda>c. c \<noteq> CHR 0x0A \<and> c \<noteq> CHR 0x0D) (b64_encode s) = b64_encode s"
  using b64_encode_alphabet b64_alphabet_excludes(3,4) by (intro filter_True) blast

text \<open>Reassembling the bytes from the sextets.\<close>

lemma byte_split:
  fixes n m l :: nat
  assumes "m < 256" "l < 256"
  shows "n div 4 * 4 + (n mod 4 * 16) div 16 = n"
    "n div 4 * 4 + (n mod 4 * 16 + m div 16) div 16 = n"
    "(n mod 4 * 16 + m div 16) mod 16 * 16 + (m mod 16 * 4) div 4 = m"
    "(n mod 4 * 16 + m div 16) mod 16 * 16 + (m mod 16 * 4 + l div 64) div 4 = m"
    "(m mod 16 * 4 + l div 64) mod 4 * 64 + l mod 64 = l"
proof -
  have "m div 16 < 16" "l div 64 < 4"
    using assms by (simp_all add: div_less_iff_less_mult)
  then have q: "(n mod 4 * 16 + m div 16) div 16 = n mod 4" "(n mod 4 * 16 + m div 16) mod 16 = m div 16"
    "(m mod 16 * 4 + l div 64) div 4 = m mod 16" "(m mod 16 * 4 + l div 64) mod 4 = l div 64"
    by simp_all
  show "n div 4 * 4 + (n mod 4 * 16) div 16 = n" by simp
  show "n div 4 * 4 + (n mod 4 * 16 + m div 16) div 16 = n" by (simp only: q div_mult_mod_eq)
  show "(n mod 4 * 16 + m div 16) mod 16 * 16 + (m mod 16 * 4) div 4 = m"
    by (simp only: q) simp
  show "(n mod 4 * 16 + m div 16) mod 16 * 16 + (m mod 16 * 4 + l div 64) div 4 = m"
    by (simp only: q div_mult_mod_eq)
  show "(m mod 16 * 4 + l div 64) mod 4 * 64 + l mod 64 = l" by (simp only: q div_mult_mod_eq)
qed

lemmas byte_split_char = byte_split [OF of_char_less of_char_less]

lemma those_map_val:
  "list_all (\<lambda>n. n < 64) ns \<Longrightarrow> those (map b64_val (map b64_char ns)) = Some ns"
  by (induction ns) (auto simp: b64_val_char)

fun sextets :: "string \<Rightarrow> nat list" where
  "sextets [] = []"
| "sextets [a] = [of_char a div 4, of_char a mod 4 * 16]"
| "sextets [a, b] = [of_char a div 4, of_char a mod 4 * 16 + of_char b div 16, of_char b mod 16 * 4]"
| "sextets (a # b # c # xs) =
     [of_char a div 4, of_char a mod 4 * 16 + of_char b div 16, of_char b mod 16 * 4 + of_char c div 64,
      of_char c mod 64] @ sextets xs"

lemma b64_encode_sextets: "b64_encode s = map b64_char (sextets s)"
  by (induction s rule: sextets.induct) (simp_all add: Let_def)

lemma sextets_bound: "list_all (\<lambda>n. n < 64) (sextets s)"
  by (induction s rule: sextets.induct) simp_all

lemma b64_quads_sextets: "b64_quads (sextets s) = Some s"
  by (induction s rule: sextets.induct) (simp_all only: sextets.simps b64_quads.simps append_Cons append_Nil
      byte_split_char char_of_char option.map)

lemma b64_decode_encode: "b64_decode (b64_encode s) = Some s"
  unfolding b64_decode_def b64_filter_encode
  by (simp only: b64_encode_sextets those_map_val [OF sextets_bound] b64_quads_sextets bind.simps)

lemma those_None: "those xs = None \<longleftrightarrow> None \<in> set xs"
  by (induction xs) (auto split: option.splits)

lemma b64_decode_bad_byte:
  assumes "c \<in> set s" "c \<notin> set b64_alphabet" "c \<noteq> CHR 0x0A" "c \<noteq> CHR 0x0D"
  shows "b64_decode s = None"
proof -
  have "b64_val c = None"
    using assms(2) by (simp add: b64_val_def index_of_None)
  with assms have "None \<in> set (map b64_val (filter (\<lambda>c. c \<noteq> CHR 0x0A \<and> c \<noteq> CHR 0x0D) s))"
    by force
  then show ?thesis
    by (simp add: b64_decode_def those_None [THEN iffD2])
qed

lemma b64_decode_padding: "CHR ''='' \<in> set s \<Longrightarrow> b64_decode s = None"
  using b64_decode_bad_byte b64_alphabet_excludes(2) by fastforce

section \<open>encoding/json\<close>

datatype json =
    JNull
  | JBool bool
  | JNum string
  | JStr string
  | JArr "json list"
  | JObj "(string \<times> json) list"

subsection \<open>Scanner\<close>

datatype tok = TLBrack | TRBrack | TLBrace | TRBrace | TComma | TColon | TLit json

definition is_digit :: "char \<Rightarrow> bool" where
  "is_digit c \<longleftrightarrow> 48 \<le> (of_char c :: nat) \<and> of_char c \<le> (57 :: nat)"

definition hex_val :: "char \<Rightarrow> nat option" where
  "hex_val c = (let n = of_char c :: nat in
     if 48 \<le> n \<and> n \<le> 57 then Some (n - 48)
     else if 97 \<le> n \<and> n \<le> 102 then Some (n - 87)
     else if 65 \<le> n \<and> n \<le> 70 then Some (n - 55) else None)"

definition utf8 :: "nat \<Rightarrow> string" where
  "utf8 r =
     (if r < 128 then [char_of r]
      else if r < 2048 then [char_of (192 + r div 64), char_of (128 + r mod 64)]
      else if r < 65536 then
        [char_of (224 + r div 4096), char_of (128 + r div 64 mod 64), char_of (128 + r mod 64)]
      else
        [char_of (240 + r div 262144), char_of (128 + r div 4096 mod 64),
         char_of (128 + r div 64 mod 64), char_of (128 + r mod 64)])"

text \<open>\<open>[0-9]+\<close>, then the optional fraction and exponent of a number literal.\<close>

definition digits1 :: "string \<Rightarrow> string option" where
  "digits1 s = (case s of [] \<Rightarrow> None | c # _ \<Rightarrow> if is_digit c then Some (dropWhile is_digit s) else None)"

definition num_exp :: "string \<Rightarrow> bool" where
  "num_exp s = (case s of
      [] \<Rightarrow> True
    | c # r \<Rightarrow> (c = CHR ''e'' \<or> c = CHR ''E'') \<and>
        (let r' = (case r of d # q \<Rightarrow> if d = CHR ''+'' \<or> d = CHR ''-'' then q else r | [] \<Rightarrow> r) in
         digits1 r' = Some []))"

definition num_frac :: "string \<Rightarrow> bool" where
  "num_frac s = (case s of
      [] \<Rightarrow> True
    | c # r \<Rightarrow>
        if c = CHR ''.'' then (case digits1 r of None \<Rightarrow> False | Some r' \<Rightarrow> num_exp r') else num_exp s)"

definition is_number :: "string \<Rightarrow> bool" where
  "is_number s =
     (let s' = trim_prefix s ''-'' in
      case s' of
        [] \<Rightarrow> False
      | c # r \<Rightarrow> if c = CHR ''0'' then num_frac r
                 else (case digits1 s' of None \<Rightarrow> False | Some r' \<Rightarrow> num_frac r'))"

definition word_tok :: "string \<Rightarrow> tok option" where
  "word_tok w =
     (if w = ''true'' then Some (TLit (JBool True))
      else if w = ''false'' then Some (TLit (JBool False))
      else if w = ''null'' then Some (TLit JNull)
      else if is_number w then Some (TLit (JNum w)) else None)"

definition punct :: "char \<Rightarrow> tok option" where
  "punct c =
     (if c = CHR ''['' then Some TLBrack else if c = CHR '']'' then Some TRBrack
      else if c = CHR ''{'' then Some TLBrace else if c = CHR ''}'' then Some TRBrace
      else if c = CHR '','' then Some TComma else if c = CHR '':'' then Some TColon else None)"

definition json_ws :: "char \<Rightarrow> bool" where
  "json_ws c \<longleftrightarrow> c = CHR '' '' \<or> c = CHR 0x09 \<or> c = CHR 0x0A \<or> c = CHR 0x0D"

definition simple_escape :: "char \<Rightarrow> char option" where
  "simple_escape c =
     (if c = CHR 0x22 \<or> c = CHR 0x5C \<or> c = CHR ''/'' then Some c
      else if c = CHR ''b'' then Some (CHR 0x08) else if c = CHR ''f'' then Some (CHR 0x0C)
      else if c = CHR ''n'' then Some (CHR 0x0A) else if c = CHR ''r'' then Some (CHR 0x0D)
      else if c = CHR ''t'' then Some (CHR 0x09) else None)"

text \<open>
  Scanner states: between tokens; inside a word; inside a string with a pending high
  surrogate; after a backslash; inside \<open>\u\<close> with the digits read so far.  A surrogate
  without its partner becomes U+FFFD.
\<close>

datatype lexst =
    LStart
  | LWord string
  | LStr string "nat option"
  | LEsc string "nat option"
  | LHex string "nat option" "nat list"

definition flush :: "string \<Rightarrow> nat option \<Rightarrow> string" where
  "flush acc pend = (case pend of None \<Rightarrow> acc | Some _ \<Rightarrow> acc @ utf8 65533)"

definition add_rune :: "string \<Rightarrow> nat option \<Rightarrow> nat \<Rightarrow> string \<times> nat option" where
  "add_rune acc pend r =
     (if 56320 \<le> r \<and> r < 57344 then
        (case pend of
           Some h \<Rightarrow> (acc @ utf8 (65536 + (h - 55296) * 1024 + (r - 56320)), None)
         | None \<Rightarrow> (acc @ utf8 65533, None))
      else if 55296 \<le> r \<and> r < 56320 then (flush acc pend, Some r)
      else (flush acc pend @ utf8 r, None))"

fun lex :: "lexst \<Rightarrow> string \<Rightarrow> tok list option" where
  "lex LStart [] = Some []"
| "lex (LWord w) [] = map_option (\<lambda>t. [t]) (word_tok (rev w))"
| "lex _ [] = None"
| "lex LStart (c # cs) =
     (if json_ws c then lex LStart cs
      else if c = CHR 0x22 then lex (LStr [] None) cs
      else case punct c of
             Some t \<Rightarrow> map_option (Cons t) (lex LStart cs)
           | None \<Rightarrow> lex (LWord [c]) cs)"
| "lex (LWord w) (c # cs) =
     (if json_ws c then
        (case word_tok (rev w) of None \<Rightarrow> None | Some t \<Rightarrow> map_option (Cons t) (lex LStart cs))
      else if c = CHR 0x22 then None
      else case punct c of
             Some t \<Rightarrow> (case word_tok (rev w) of
                           None \<Rightarrow> None
                         | Some t' \<Rightarrow> map_option (\<lambda>ts. t' # t # ts) (lex LStart cs))
           | None \<Rightarrow> lex (LWord (c # w)) cs)"
| "lex (LStr acc pend) (c # cs) =
     (if c = CHR 0x22 then map_option (Cons (TLit (JStr (flush acc pend)))) (lex LStart cs)
      else if c = CHR 0x5C then lex (LEsc acc pend) cs
      else if (of_char c :: nat) < 32 then None
      else lex (LStr (flush acc pend @ [c]) None) cs)"
| "lex (LEsc acc pend) (c # cs) =
     (if c = CHR ''u'' then lex (LHex acc pend []) cs
      else case simple_escape c of
             None \<Rightarrow> None
           | Some d \<Rightarrow> lex (LStr (flush acc pend @ [d]) None) cs)"
| "lex (LHex acc pend ds) (c # cs) =
     (case hex_val c of
        None \<Rightarrow> None
      | Some d \<Rightarrow>
          if length ds = 3 then
            (let (acc', pend') = add_rune acc pend (foldl (\<lambda>a d. a * 16 + d) 0 (ds @ [d])) in
             lex (LStr acc' pend') cs)
          else lex (LHex acc pend (ds @ [d])) cs)"

subsection \<open>Parser\<close>

datatype frame = FArr "json list" | FObj "(string \<times> json) list" string

datatype pmode =
    PVal
  | PArr0
  | PKey bool "(string \<times> json) list"
  | PColon "(string \<times> json) list" string
  | PEnd json

text \<open>
  The open brackets are the stack; \<open>PKey True\<close> is the position right after an opening
  brace, where a closing one may follow.
\<close>

fun parse :: "frame list \<Rightarrow> pmode \<Rightarrow> tok list \<Rightarrow> json option" where
  "parse [] (PEnd j) [] = Some j"
| "parse _ _ [] = None"
| "parse st (PEnd j) (t # ts) =
     (case (st, t) of
        (FArr vs # st', TComma) \<Rightarrow> parse (FArr (vs @ [j]) # st') PVal ts
      | (FArr vs # st', TRBrack) \<Rightarrow> parse st' (PEnd (JArr (vs @ [j]))) ts
      | (FObj kvs k # st', TComma) \<Rightarrow> parse st' (PKey False (kvs @ [(k, j)])) ts
      | (FObj kvs k # st', TRBrace) \<Rightarrow> parse st' (PEnd (JObj (kvs @ [(k, j)]))) ts
      | _ \<Rightarrow> None)"
| "parse st (PKey first kvs) (t # ts) =
     (case t of
        TLit (JStr k) \<Rightarrow> parse st (PColon kvs k) ts
      | TRBrace \<Rightarrow> if first then parse st (PEnd (JObj [])) ts else None
      | _ \<Rightarrow> None)"
| "parse st (PColon kvs k) (t # ts) = (if t = TColon then parse (FObj kvs k # st) PVal ts else None)"
| "parse st mode (t # ts) =
     (case t of
        TLit j \<Rightarrow> parse (if mode = PArr0 then FArr [] # st else st) (PEnd j) ts
      | TLBrack \<Rightarrow> parse (if mode = PArr0 then FArr [] # st else st) PArr0 ts
      | TLBrace \<Rightarrow> parse (if mode = PArr0 then FArr [] # st else st) (PKey True []) ts
      | TRBrack \<Rightarrow> if mode = PArr0 then parse st (PEnd (JArr [])) ts else None
      | _ \<Rightarrow> None)"

definition json_parse :: "string \<Rightarrow> json option" where
  "json_parse s = Option.bind (lex LStart s) (parse [] PVal)"

subsection \<open>Decoding into structs\<close>

text \<open>
  A struct field is named, and set by a function that fails on a value of the wrong type;
  \<^verbatim>\<open>null\<close> leaves a field alone.  A key selects the field of exactly that name, else one equal
  up to case (Unicode's long s and Kelvin sign fold to the ASCII letters).
\<close>

function fold_name :: "string \<Rightarrow> string" where
  "fold_name [] = []"
| "fold_name (c # cs) =
     (let n = of_char c :: nat in
      if 97 \<le> n \<and> n \<le> 122 then char_of (n - 32) # fold_name cs
      else if n = 197 \<and> take 1 cs = [CHR 0xBF] then CHR ''S'' # fold_name (drop 1 cs)
      else if n = 226 \<and> take 2 cs = [CHR 0x84, CHR 0xAA] then CHR ''K'' # fold_name (drop 2 cs)
      else c # fold_name cs)"
  by pat_completeness auto
termination
  by (relation "measure length") auto

type_synonym 's field = "string \<times> (json \<Rightarrow> 's \<Rightarrow> 's option)"

definition find_field :: "'s field list \<Rightarrow> string \<Rightarrow> (json \<Rightarrow> 's \<Rightarrow> 's option) option" where
  "find_field fs k =
     (case map_of fs k of
        Some f \<Rightarrow> Some f
      | None \<Rightarrow> map_of (map (\<lambda>(n, f). (fold_name n, f)) fs) (fold_name k))"

fun set_fields :: "'s field list \<Rightarrow> (string \<times> json) list \<Rightarrow> 's \<Rightarrow> 's option" where
  "set_fields fs [] s = Some s"
| "set_fields fs ((k, v) # kvs) s =
     (case find_field fs k of
        None \<Rightarrow> set_fields fs kvs s
      | Some f \<Rightarrow> Option.bind (f v s) (set_fields fs kvs))"

definition unmarshal_struct :: "'s field list \<Rightarrow> json \<Rightarrow> 's \<Rightarrow> 's option" where
  "unmarshal_struct fs j s =
     (case j of JNull \<Rightarrow> Some s | JObj kvs \<Rightarrow> set_fields fs kvs s | _ \<Rightarrow> None)"

definition str_field :: "string \<Rightarrow> (string \<Rightarrow> 's \<Rightarrow> 's) \<Rightarrow> 's field" where
  "str_field n upd =
     (n, \<lambda>j s. case j of JStr v \<Rightarrow> Some (upd v s) | JNull \<Rightarrow> Some s | _ \<Rightarrow> None)"

definition parse_nat :: "string \<Rightarrow> int option" where
  "parse_nat ds =
     (if ds \<noteq> [] \<and> list_all is_digit ds
      then Some (foldl (\<lambda>a c. a * 10 + int (of_char c - 48)) 0 ds) else None)"

definition parse_int64 :: "string \<Rightarrow> int option" where
  "parse_int64 s =
     (case (if has_prefix s ''-'' then map_option uminus (parse_nat (tl s)) else parse_nat s) of
        None \<Rightarrow> None
      | Some n \<Rightarrow> if - (2 ^ 63) \<le> n \<and> n < 2 ^ 63 then Some n else None)"

definition int_field :: "string \<Rightarrow> (int \<Rightarrow> 's \<Rightarrow> 's) \<Rightarrow> 's field" where
  "int_field n upd =
     (n, \<lambda>j s. case j of
            JNum l \<Rightarrow> map_option (\<lambda>i. upd i s) (parse_int64 l)
          | JNull \<Rightarrow> Some s
          | _ \<Rightarrow> None)"

fun str_list :: "json list \<Rightarrow> string list option" where
  "str_list [] = Some []"
| "str_list (JStr s # js) = map_option (Cons s) (str_list js)"
| "str_list (JNull # js) = map_option (Cons []) (str_list js)"
| "str_list (_ # js) = None"

definition strs_field :: "string \<Rightarrow> (string list \<Rightarrow> 's \<Rightarrow> 's) \<Rightarrow> 's field" where
  "strs_field n upd =
     (n, \<lambda>j s. case j of
            JArr js \<Rightarrow> map_option (\<lambda>l. upd l s) (str_list js)
          | JNull \<Rightarrow> Some (upd [] s)
          | _ \<Rightarrow> None)"

definition json_unmarshal :: "'s field list \<Rightarrow> string \<Rightarrow> 's \<Rightarrow> 's option" where
  "json_unmarshal fs data s = Option.bind (json_parse data) (\<lambda>j. unmarshal_struct fs j s)"

lemmas json_eval = json_unmarshal_def json_parse_def unmarshal_struct_def find_field_def
  str_field_def int_field_def strs_field_def word_tok_def punct_def json_ws_def is_number_def
  num_frac_def num_exp_def digits1_def is_digit_def parse_int64_def parse_nat_def flush_def
  trim_prefix_def has_prefix_def Let_def

end
