(* ===== verification/TB_Cache.thy ===== *)
theory TB_Cache
  imports TB_Core Go_Encoding
begin

text \<open>
  The token cache (\<^verbatim>\<open>token-broker/internal/cache\<close>): expiry times read from tokens
  (\<^verbatim>\<open>jwt_parser.go\<close>) and the cache keyed by session and resource server
  (\<^verbatim>\<open>token_cache.go\<close>).  \<open>now\<close> is \<^verbatim>\<open>time.Now()\<close> at the call; the injected clock is read
  only for log messages and for \<open>EntryCreatedAt\<close>.
\<close>

section \<open>Token expiry\<close>

definition long_lived :: duration where
  "long_lived = 365 * 24 * Hour"

text \<open>\<^verbatim>\<open>Time.Sub\<close> saturates at the bounds of a 64-bit duration.\<close>

definition time_sub :: "gotime \<Rightarrow> gotime \<Rightarrow> duration" where
  "time_sub t u = max (- (2 ^ 63)) (min (2 ^ 63 - 1) (t - u))"

definition pad_payload :: "string \<Rightarrow> string" where
  "pad_payload payload =
     (if length payload mod 4 = 2 then payload @ ''==''
      else if length payload mod 4 = 3 then payload @ ''='' else payload)"

text \<open>\<^verbatim>\<open>time.Unix\<close> adds the seconds from year 1 to 1970 in 64-bit arithmetic.\<close>

definition time_unix :: "int \<Rightarrow> gotime" where
  "time_unix sec = ((sec + 62135596800 + 2 ^ 63) mod 2 ^ 64 - 2 ^ 63 - 62135596800) * Second"

definition exp_claims :: "string \<Rightarrow> int option" where
  "exp_claims decoded = json_unmarshal [int_field ''exp'' (\<lambda>i _. i)] decoded 0"

definition ParseJWTExpiry :: "string \<Rightarrow> gotime \<Rightarrow> goerr + gotime" where
  "ParseJWTExpiry token now =
     (let parts = split (CHR ''.'') token in
      if length parts \<noteq> 3 then Inr (now + long_lived)
      else
        case b64_decode (pad_payload (parts ! 1)) of
          None \<Rightarrow> Inr (now + long_lived)
        | Some decoded \<Rightarrow>
            (case exp_claims decoded of
               None \<Rightarrow> Inr (now + long_lived)
             | Some e \<Rightarrow> if e = 0 then Inr (now + long_lived) else Inr (time_unix e)))"

definition IsTokenExpired :: "gotime \<Rightarrow> gotime \<Rightarrow> bool" where
  "IsTokenExpired expiresAt now =
     (if expiresAt < now then True
      else if time_sub expiresAt now < 5 * Minute then True else False)"

section \<open>The cache\<close>

record TokenEntry =
  AccessToken :: string
  ExpiresAt :: gotime
  EntryCreatedAt :: gotime

type_synonym TokenCache = "(string, (string, TokenEntry) gomap) gomap"

definition NewTokenCache :: TokenCache where
  "NewTokenCache = []"

definition GetToken :: "string \<Rightarrow> string \<Rightarrow> gotime \<Rightarrow> TokenCache \<Rightarrow> string option" where
  "GetToken sessionKey resourceURL now tokens =
     (case map_of tokens sessionKey of
        None \<Rightarrow> None
      | Some sessionTokens \<Rightarrow>
          (case map_of sessionTokens resourceURL of
             None \<Rightarrow> None
           | Some entry \<Rightarrow>
               if IsTokenExpired (ExpiresAt entry) now then None else Some (AccessToken entry)))"

definition session_tokens :: "string \<Rightarrow> TokenCache \<Rightarrow> (string, TokenEntry) gomap" where
  "session_tokens sessionKey tokens = (case map_of tokens sessionKey of None \<Rightarrow> [] | Some m \<Rightarrow> m)"

definition SetToken ::
  "string \<Rightarrow> string \<Rightarrow> string \<Rightarrow> gotime \<Rightarrow> gotime \<Rightarrow> TokenCache \<Rightarrow> goerr option \<times> TokenCache" where
  "SetToken sessionKey resourceURL token now clockNow tokens =
     (case ParseJWTExpiry token now of
        Inl e \<Rightarrow> (Some (Errorf [Lit ''failed to parse token expiry: '', Wrap e]), tokens)
      | Inr expiresAt \<Rightarrow>
          (None,
           AList.update sessionKey
             (AList.update resourceURL
                \<lparr>AccessToken = token, ExpiresAt = expiresAt, EntryCreatedAt = clockNow\<rparr>
                (session_tokens sessionKey tokens))
             tokens))"

definition DeleteToken :: "string \<Rightarrow> string \<Rightarrow> TokenCache \<Rightarrow> TokenCache" where
  "DeleteToken sessionKey resourceURL tokens =
     (case map_of tokens sessionKey of
        None \<Rightarrow> tokens
      | Some sessionTokens \<Rightarrow>
          (let m = AList.delete resourceURL sessionTokens in
           if length m = 0 then AList.delete sessionKey tokens
           else AList.update sessionKey m tokens))"

definition GetCacheSize :: "TokenCache \<Rightarrow> nat" where
  "GetCacheSize tokens = foldl (\<lambda>count (k, m). count + length m) 0 tokens"

definition GetSessionTokenCount :: "string \<Rightarrow> TokenCache \<Rightarrow> nat" where
  "GetSessionTokenCount sessionKey tokens =
     (case map_of tokens sessionKey of Some m \<Rightarrow> length m | None \<Rightarrow> 0)"

fun CleanupExpiredTokens :: "gotime \<Rightarrow> TokenCache \<Rightarrow> nat \<times> TokenCache" where
  "CleanupExpiredTokens now [] = (0, [])"
| "CleanupExpiredTokens now ((sessionKey, sessionTokens) # rest) =
     (let live = filter (\<lambda>(r, entry). \<not> IsTokenExpired (ExpiresAt entry) now) sessionTokens;
          (removed, rest') = CleanupExpiredTokens now rest
      in (length sessionTokens - length live + removed,
          if length live = 0 then rest' else (sessionKey, live) # rest'))"

section \<open>Laws\<close>

definition cache_wf :: "TokenCache \<Rightarrow> bool" where
  "cache_wf tokens \<longleftrightarrow> gm_wf tokens \<and> (\<forall>(k, m) \<in> set tokens. gm_wf m \<and> m \<noteq> [])"

lemma cache_wf_get: "cache_wf tokens \<Longrightarrow> map_of tokens k = Some m \<Longrightarrow> gm_wf m \<and> m \<noteq> []"
  by (auto simp: cache_wf_def dest: map_of_SomeD)

lemma IsTokenExpired_iff: "IsTokenExpired e now \<longleftrightarrow> e - now < 5 * Minute"
  by (auto simp: IsTokenExpired_def time_sub_def Minute_def Second_def)

lemma IsTokenExpired_mono: "IsTokenExpired e now \<Longrightarrow> now \<le> later \<Longrightarrow> IsTokenExpired e later"
  by (simp add: IsTokenExpired_iff)

lemma ParseJWTExpiry_total: "\<exists>e. ParseJWTExpiry token now = Inr e"
  by (simp add: ParseJWTExpiry_def Let_def split: option.splits)

lemma SetToken_ok:
  obtains e where "ParseJWTExpiry token now = Inr e"
    "SetToken k r token now c tokens =
      (None, AList.update k (AList.update r \<lparr>AccessToken = token, ExpiresAt = e, EntryCreatedAt = c\<rparr>
        (session_tokens k tokens)) tokens)"
proof -
  obtain e where "ParseJWTExpiry token now = Inr e"
    using ParseJWTExpiry_total by blast
  then show thesis
    by (rule that) (simp add: SetToken_def \<open>ParseJWTExpiry token now = Inr e\<close>)
qed

lemma SetToken_get:
  assumes "SetToken k r token now c tokens = (None, tokens')"
  shows "GetToken k' r' t tokens' =
    (if k' = k \<and> r' = r then
       (case ParseJWTExpiry token now of Inl _ \<Rightarrow> None
        | Inr e \<Rightarrow> if IsTokenExpired e t then None else Some token)
     else GetToken k' r' t tokens)"
proof -
  obtain e where e: "ParseJWTExpiry token now = Inr e"
    and upd: "tokens' = AList.update k (AList.update r
      \<lparr>AccessToken = token, ExpiresAt = e, EntryCreatedAt = c\<rparr> (session_tokens k tokens)) tokens"
    using assms SetToken_ok [of token now k r c tokens] by (metis prod.inject)
  show ?thesis
    unfolding e upd
    by (cases "k' = k"; cases "r' = r"; cases "map_of tokens k")
       (simp_all add: GetToken_def session_tokens_def gm_get_update)
qed

lemma cache_wf_new [simp]: "cache_wf NewTokenCache"
  by (simp add: cache_wf_def NewTokenCache_def)

lemma cache_wf_update:
  "cache_wf tokens \<Longrightarrow> gm_wf m \<Longrightarrow> m \<noteq> [] \<Longrightarrow> cache_wf (AList.update k m tokens)"
  by (fastforce simp: cache_wf_def gm_wf_in_set gomap_simps split: if_splits)

lemma cache_wf_delete: "cache_wf tokens \<Longrightarrow> cache_wf (AList.delete k tokens)"
  by (fastforce simp: cache_wf_def gm_wf_in_set gomap_simps split: if_splits)

lemma session_tokens_wf: "cache_wf tokens \<Longrightarrow> gm_wf (session_tokens k tokens)"
  by (auto simp: session_tokens_def dest: cache_wf_get split: option.splits)

lemma update_not_Nil: "AList.update k v m \<noteq> []"
  by (cases m) auto

lemma SetToken_wf: "cache_wf tokens \<Longrightarrow> SetToken k r token now c tokens = (e, tokens') \<Longrightarrow> cache_wf tokens'"
  using SetToken_ok [of token now k r c tokens] cache_wf_update gm_wf_update
    session_tokens_wf update_not_Nil by (metis prod.inject)

lemma DeleteToken_wf: "cache_wf tokens \<Longrightarrow> cache_wf (DeleteToken k r tokens)"
  by (auto simp: DeleteToken_def Let_def intro!: cache_wf_update cache_wf_delete
      dest: cache_wf_get split: option.splits)

lemma DeleteToken_get:
  assumes "cache_wf tokens"
  shows "GetToken k' r' t (DeleteToken k r tokens) =
    (if k' = k \<and> r' = r then None else GetToken k' r' t tokens)"
proof (cases "map_of tokens k")
  case None
  then show ?thesis by (auto simp: DeleteToken_def GetToken_def)
next
  case (Some m)
  show ?thesis
  proof (cases "AList.delete r m = []")
    case True
    then have none: "r' \<noteq> r \<Longrightarrow> map_of m r' = None"
      using gm_get_delete [of r m r'] by simp
    have "DeleteToken k r tokens = AList.delete k tokens"
      using Some True by (simp add: DeleteToken_def)
    then show ?thesis
      using none Some by (cases "k' = k"; cases "r' = r") (simp_all add: GetToken_def gm_get_delete)
  next
    case False
    then have "DeleteToken k r tokens = AList.update k (AList.delete r m) tokens"
      using Some by (simp add: DeleteToken_def Let_def)
    then show ?thesis
      using Some by (cases "k' = k"; cases "r' = r")
        (simp_all add: GetToken_def gm_get_delete gm_get_update)
  qed
qed

lemma cache_wf_Cons:
  "cache_wf ((k, m) # rest) \<longleftrightarrow> k \<notin> fst ` set rest \<and> gm_wf m \<and> m \<noteq> [] \<and> cache_wf rest"
  by (auto simp: cache_wf_def gm_wf_def)

lemma Cleanup_Cons:
  "snd (CleanupExpiredTokens now ((k, m) # rest)) =
     (case filter (\<lambda>(r, entry). \<not> IsTokenExpired (ExpiresAt entry) now) m of
        [] \<Rightarrow> snd (CleanupExpiredTokens now rest)
      | live \<Rightarrow> (k, live) # snd (CleanupExpiredTokens now rest))"
  by (simp add: Let_def split: prod.splits list.splits)

lemma Cleanup_keys: "fst ` set (snd (CleanupExpiredTokens now tokens)) \<subseteq> fst ` set tokens"
proof (induction tokens)
  case (Cons x rest)
  obtain k m where "x = (k, m)" by (cases x)
  with Cons show ?case
    unfolding \<open>x = (k, m)\<close> Cleanup_Cons by (auto split: list.split)
qed simp

lemma Cleanup_wf: "cache_wf tokens \<Longrightarrow> cache_wf (snd (CleanupExpiredTokens now tokens))"
proof (induction now tokens rule: CleanupExpiredTokens.induct)
  case (2 now k m rest)
  have keys: "fst ` set (snd (CleanupExpiredTokens now rest)) \<subseteq> fst ` set rest"
    by (rule Cleanup_keys)
  have "cache_wf rest" and m: "gm_wf m" and k: "k \<notin> fst ` set rest"
    using "2.prems" by (auto simp: cache_wf_def gm_wf_def)
  then have rest: "cache_wf (snd (CleanupExpiredTokens now rest))"
    using "2.IH" by simp
  let ?live = "filter (\<lambda>(r, entry). \<not> IsTokenExpired (ExpiresAt entry) now) m"
  have "gm_wf ?live" using m by (rule gm_wf_filter)
  moreover have "k \<notin> fst ` set (snd (CleanupExpiredTokens now rest))"
    using k keys by blast
  ultimately show ?case
    using rest unfolding Cleanup_Cons by (cases ?live) (simp_all only: list.case cache_wf_Cons, simp)
qed (simp add: cache_wf_def)

text \<open>Sweeping is invisible: an entry it drops would not have been returned any more.\<close>

lemma Cleanup_get:
  assumes "cache_wf tokens" "now \<le> t"
  shows "GetToken k' r' t (snd (CleanupExpiredTokens now tokens)) = GetToken k' r' t tokens"
  using assms
proof (induction now tokens rule: CleanupExpiredTokens.induct)
  case (2 now k m rest)
  let ?live = "filter (\<lambda>(r, entry). \<not> IsTokenExpired (ExpiresAt entry) now) m"
  let ?rest = "snd (CleanupExpiredTokens now rest)"
  have "cache_wf rest" and m: "gm_wf m" and k: "k \<notin> fst ` set rest"
    using "2.prems"(1) by (auto simp: cache_wf_def gm_wf_def)
  then have IH: "GetToken k' r' t ?rest = GetToken k' r' t rest"
    using "2.IH" "2.prems"(2) by simp
  have k': "map_of ?rest k = None" "map_of rest k = None"
    using k Cleanup_keys [of now rest] by (auto simp: map_of_eq_None_iff)
  have live: "map_of ?live r' =
      (case map_of m r' of None \<Rightarrow> None
       | Some e \<Rightarrow> if \<not> IsTokenExpired (ExpiresAt e) now then Some e else None)"
    by (rule gm_get_filter [OF m])
  have get: "GetToken j r' t ((k, n) # ys) =
      (if j = k then (case map_of n r' of None \<Rightarrow> None
         | Some e \<Rightarrow> if IsTokenExpired (ExpiresAt e) t then None else Some (AccessToken e))
       else GetToken j r' t ys)" for j n ys
    by (simp add: GetToken_def)
  have sweep: "snd (CleanupExpiredTokens now ((k, m) # rest)) =
      (if ?live = [] then ?rest else (k, ?live) # ?rest)"
    unfolding Cleanup_Cons by (simp split: list.split)
  show ?case
  proof (cases "k' = k")
    case True
    then show ?thesis
      unfolding sweep using live k' IsTokenExpired_mono [OF _ "2.prems"(2)]
      by (cases "map_of m r'"; cases "?live = []") (auto simp: get GetToken_def [of k r' t ?rest] split: if_splits)
  next
    case False
    then show ?thesis unfolding sweep using IH by (simp add: get)
  qed
qed simp

lemma Cleanup_sub:
  assumes "cache_wf tokens" "map_of (snd (CleanupExpiredTokens now tokens)) k = Some m'"
  shows "\<exists>m. map_of tokens k = Some m \<and> m' = filter (\<lambda>(r, entry). \<not> IsTokenExpired (ExpiresAt entry) now) m"
  using assms
proof (induction tokens)
  case (Cons x rest)
  obtain j m where x: "x = (j, m)" by (cases x)
  have wf: "cache_wf rest" "j \<notin> fst ` set rest" using Cons.prems(1) by (simp_all add: x cache_wf_Cons)
  have none: "map_of (snd (CleanupExpiredTokens now rest)) j = None"
    using wf(2) Cleanup_keys [of now rest] by (auto simp: map_of_eq_None_iff)
  let ?live = "filter (\<lambda>(r, entry). \<not> IsTokenExpired (ExpiresAt entry) now) m"
  have c: "snd (CleanupExpiredTokens now (x # rest)) =
      (if ?live = [] then [] else [(j, ?live)]) @ snd (CleanupExpiredTokens now rest)"
    unfolding x Cleanup_Cons by (simp split: list.split)
  show ?case
  proof (cases "k = j")
    case True
    then show ?thesis using Cons.prems(2) none unfolding c by (auto simp: x split: if_splits)
  next
    case False
    then show ?thesis using Cons.prems(2) Cons.IH [OF wf(1)] unfolding c by (auto simp: x split: if_splits)
  qed
qed simp

lemma Cleanup_get_Some:
  assumes "cache_wf tokens" "GetToken k r t (snd (CleanupExpiredTokens now tokens)) = Some tok"
  shows "GetToken k r t tokens = Some tok"
proof -
  obtain m' where m': "map_of (snd (CleanupExpiredTokens now tokens)) k = Some m'"
    using assms(2) by (auto simp: GetToken_def split: option.splits)
  obtain m where m: "map_of tokens k = Some m"
    "m' = filter (\<lambda>(r, entry). \<not> IsTokenExpired (ExpiresAt entry) now) m"
    using Cleanup_sub [OF assms(1) m'] by blast
  show ?thesis
    using assms(2) m' m(1) gm_get_filter [of m "\<lambda>_ entry. \<not> IsTokenExpired (ExpiresAt entry) now" r]
      cache_wf_get [OF assms(1) m(1)]
    by (auto simp: GetToken_def m(2) split: option.splits if_splits)
qed

lemma GetCacheSize_sum: "GetCacheSize tokens = (\<Sum>(k, m) \<leftarrow> tokens. length m)"
proof -
  have "foldl (\<lambda>count (k, m). count + length m) n tokens = n + (\<Sum>(k, m) \<leftarrow> tokens. length m)" for n
    by (induction tokens arbitrary: n) auto
  then show ?thesis by (simp add: GetCacheSize_def)
qed

section \<open>The interface the broker uses\<close>

text \<open>
  A cache history is a sequence of the state-changing operations; \<open>cache_spec\<close> says what such
  a history has stored for one session and one resource: the last token set, unless deleted.
\<close>

datatype cache_op =
    OpSetToken string string string gotime gotime
  | OpDeleteToken string string
  | OpCleanup gotime

fun cache_apply :: "cache_op \<Rightarrow> TokenCache \<Rightarrow> TokenCache" where
  "cache_apply (OpSetToken k r token now c) tokens = snd (SetToken k r token now c tokens)"
| "cache_apply (OpDeleteToken k r) tokens = DeleteToken k r tokens"
| "cache_apply (OpCleanup now) tokens = snd (CleanupExpiredTokens now tokens)"

definition token_expiry :: "string \<Rightarrow> gotime \<Rightarrow> gotime" where
  "token_expiry token now = (case ParseJWTExpiry token now of Inl _ \<Rightarrow> 0 | Inr e \<Rightarrow> e)"

fun cache_spec :: "string \<Rightarrow> string \<Rightarrow> cache_op \<Rightarrow> (string \<times> gotime) option \<Rightarrow> (string \<times> gotime) option" where
  "cache_spec k r (OpSetToken k' r' token now c) stored =
     (if k' = k \<and> r' = r then Some (token, token_expiry token now) else stored)"
| "cache_spec k r (OpDeleteToken k' r') stored = (if k' = k \<and> r' = r then None else stored)"
| "cache_spec k r (OpCleanup now) stored = stored"

fun swept_before :: "gotime \<Rightarrow> cache_op \<Rightarrow> bool" where
  "swept_before t (OpCleanup now) = (now \<le> t)"
| "swept_before t _ = True"

definition usable :: "gotime \<Rightarrow> (string \<times> gotime) option \<Rightarrow> string option" where
  "usable t stored =
     (case stored of None \<Rightarrow> None | Some (token, e) \<Rightarrow> if e - t < 5 * Minute then None else Some token)"

locale token_cache =
  fixes get :: "string \<Rightarrow> string \<Rightarrow> gotime \<Rightarrow> 's \<Rightarrow> string option"
    and step :: "cache_op \<Rightarrow> 's \<Rightarrow> 's"
    and inv :: "'s \<Rightarrow> bool"
    and init :: 's
  assumes init_inv: "inv init"
    and init_get: "get k r t init = None"
    and step_inv: "inv s \<Longrightarrow> inv (step c s)"
    and get_set: "inv s \<Longrightarrow> get k r t (step (OpSetToken k' r' token now cl) s) =
      (if k' = k \<and> r' = r then usable t (Some (token, token_expiry token now)) else get k r t s)"
    and get_delete: "inv s \<Longrightarrow> get k r t (step (OpDeleteToken k' r') s) =
      (if k' = k \<and> r' = r then None else get k r t s)"
    and get_sweep: "inv s \<Longrightarrow> now \<le> t \<Longrightarrow> get k r t (step (OpCleanup now) s) = get k r t s"
begin

lemma run_inv: "inv s \<Longrightarrow> inv (fold step ops s)"
  by (induction ops arbitrary: s) (simp_all add: step_inv)

lemma step_spec:
  assumes "inv s" "swept_before t c" "get k r t s = usable t stored"
  shows "get k r t (step c s) = usable t (cache_spec k r c stored)"
  using assms by (cases c) (simp_all add: get_set get_delete get_sweep, simp_all add: usable_def)

lemma run_spec_from:
  assumes "inv s" "list_all (swept_before t) ops" "get k r t s = usable t stored"
  shows "get k r t (fold step ops s) = usable t (fold (cache_spec k r) ops stored)"
  using assms
proof (induction ops arbitrary: s stored)
  case (Cons c ops)
  then show ?case by (simp add: step_inv step_spec)
qed simp

lemma run_spec:
  "list_all (swept_before t) ops \<Longrightarrow>
     get k r t (fold step ops init) = usable t (fold (cache_spec k r) ops None)"
  by (rule run_spec_from) (simp_all add: init_inv init_get usable_def)

end

lemma SetToken_None: "fst (SetToken k r token now c tokens) = None"
  using SetToken_ok [of token now k r c tokens] by (metis fst_conv)

interpretation tcache: token_cache GetToken cache_apply cache_wf NewTokenCache
proof unfold_locales
  show "cache_wf NewTokenCache" by simp
  show "GetToken k r t NewTokenCache = None" for k r t
    by (simp add: GetToken_def NewTokenCache_def)
  show "cache_wf (cache_apply c s)" if "cache_wf s" for c s
    using that by (cases c) (auto simp: Cleanup_wf DeleteToken_wf intro: SetToken_wf [OF _ surjective_pairing])
  show "GetToken k r t (cache_apply (OpSetToken k' r' token now cl) s) =
      (if k' = k \<and> r' = r then usable t (Some (token, token_expiry token now)) else GetToken k r t s)"
    for k r t k' r' token now cl s
    using SetToken_get [of k' r' token now cl s "snd (SetToken k' r' token now cl s)" k r t]
      SetToken_None [of k' r' token now cl s] ParseJWTExpiry_total [of token now]
    by (auto simp: prod_eq_iff usable_def token_expiry_def IsTokenExpired_iff)
  show "GetToken k r t (cache_apply (OpDeleteToken k' r') s) =
      (if k' = k \<and> r' = r then None else GetToken k r t s)" if "cache_wf s" for k r t k' r' s
    using DeleteToken_get [OF that, of k r t k' r'] by auto
  show "GetToken k r t (cache_apply (OpCleanup now) s) = GetToken k r t s"
    if "cache_wf s" "now \<le> t" for k r t now s
    using that by (simp add: Cleanup_get)
qed

section \<open>Properties\<close>

text \<open>
  C2.  The cache refines its specification.  After any history of stores, deletions and
  sweeps, a lookup at time \<open>t\<close> (no sweep read a later clock) returns exactly the last token
  stored under that session key and that resource URL, provided it was not deleted since and
  at least five minutes of its life remain.  In particular no other session or resource can
  ever change or see it, and sweeping is invisible.
\<close>

theorem cache_refines_spec:
  assumes "list_all (swept_before t) ops"
  shows "GetToken k r t (fold cache_apply ops NewTokenCache) =
    usable t (fold (cache_spec k r) ops None)"
  by (rule tcache.run_spec [OF assms])

theorem cache_refines_spec_witness:
  "GetToken ''k'' ''r'' (7 * Second)
     (fold cache_apply
        [OpSetToken ''k'' ''r'' ''pat'' 0 0, OpSetToken ''k2'' ''r'' ''other'' 0 0,
         OpDeleteToken ''k'' ''q'', OpCleanup (5 * Second)] NewTokenCache) = Some ''pat''"
proof -
  have "list_all (swept_before (7 * Second))
      [OpSetToken ''k'' ''r'' ''pat'' 0 0, OpSetToken ''k2'' ''r'' ''other'' 0 0,
       OpDeleteToken ''k'' ''q'', OpCleanup (5 * Second)]"
    by (simp add: Second_def)
  from cache_refines_spec [OF this, of "''k''" "''r''"] show ?thesis
    by (simp add: usable_def token_expiry_def ParseJWTExpiry_def long_lived_def
        Hour_def Minute_def Second_def)
qed

lemma Cleanup_counts:
  "fst (CleanupExpiredTokens now tokens) + GetCacheSize (snd (CleanupExpiredTokens now tokens)) =
     GetCacheSize tokens"
proof (induction tokens)
  case (Cons x rest)
  obtain k m where x: "x = (k, m)" by (cases x)
  let ?live = "filter (\<lambda>(r, entry). \<not> IsTokenExpired (ExpiresAt entry) now) m"
  have "fst (CleanupExpiredTokens now (x # rest)) =
      length m - length ?live + fst (CleanupExpiredTokens now rest)"
    by (simp add: x Let_def split: prod.splits)
  moreover have "GetCacheSize (snd (CleanupExpiredTokens now (x # rest))) =
      length ?live + GetCacheSize (snd (CleanupExpiredTokens now rest))"
    unfolding x Cleanup_Cons GetCacheSize_sum by (cases ?live) simp_all
  moreover have "length ?live \<le> length m" by simp
  moreover have "GetCacheSize (x # rest) = length m + GetCacheSize rest"
    by (simp add: x GetCacheSize_sum)
  ultimately show ?case
    using Cons by linarith
qed simp

lemma Cleanup_unexpired:
  "list_all (\<lambda>(k, m). list_all (\<lambda>(r, e). \<not> IsTokenExpired (ExpiresAt e) now) m)
     (snd (CleanupExpiredTokens now tokens))"
proof (induction tokens)
  case (Cons x rest)
  obtain k m where x: "x = (k, m)" by (cases x)
  have "list_all (\<lambda>(r, e). \<not> IsTokenExpired (ExpiresAt e) now)
      (filter (\<lambda>(r, e). \<not> IsTokenExpired (ExpiresAt e) now) m)"
    by (simp add: list_all_iff)
  with Cons.IH show ?case
    unfolding x Cleanup_Cons
    by (cases "filter (\<lambda>(r, e). \<not> IsTokenExpired (ExpiresAt e) now) m") simp_all
qed simp

text \<open>
   The sweep is exact: the number it reports is the number of entries it removed, nothing
  expired or within five minutes of expiry is left, and no session keeps an empty table.
\<close>

theorem cleanup_exact:
  assumes "CleanupExpiredTokens now (fold cache_apply ops NewTokenCache) = (removed, tokens')"
  shows "removed + GetCacheSize tokens' = GetCacheSize (fold cache_apply ops NewTokenCache) \<and>
    list_all (\<lambda>(k, m). m \<noteq> [] \<and> list_all (\<lambda>(r, e). \<not> IsTokenExpired (ExpiresAt e) now) m) tokens'"
proof -
  let ?c = "fold cache_apply ops NewTokenCache"
  have r: "removed = fst (CleanupExpiredTokens now ?c)" "tokens' = snd (CleanupExpiredTokens now ?c)"
    using assms by simp_all
  have n: "removed + GetCacheSize tokens' = GetCacheSize ?c"
    unfolding r by (rule Cleanup_counts)
  have "cache_wf tokens'"
    unfolding r by (intro Cleanup_wf tcache.run_inv cache_wf_new)
  with Cleanup_unexpired [of now ?c]
  have "list_all (\<lambda>(k, m). m \<noteq> [] \<and> list_all (\<lambda>(r, e). \<not> IsTokenExpired (ExpiresAt e) now) m) tokens'"
    unfolding r by (auto simp: list_all_iff cache_wf_def)
  with n show ?thesis by simp
qed

theorem cleanup_exact_witness:
  "GetCacheSize (snd (CleanupExpiredTokens (400 * 24 * Hour)
      (fold cache_apply [OpSetToken ''k'' ''r'' ''pat'' 0 0] NewTokenCache))) = 0"
proof -
  have "CleanupExpiredTokens (400 * 24 * Hour)
      (fold cache_apply [OpSetToken ''k'' ''r'' ''pat'' 0 0] NewTokenCache) = (1, [])"
    by (simp add: SetToken_def NewTokenCache_def session_tokens_def ParseJWTExpiry_def
        IsTokenExpired_iff long_lived_def Hour_def Minute_def Second_def)
  from cleanup_exact [OF this] this show ?thesis
    by (simp add: GetCacheSize_def)
qed

lemma b64_encode_length: "length (b64_encode s) mod 4 = (if length s mod 3 = 0 then 0 else length s mod 3 + 1)"
proof (induction s rule: b64_encode.induct)
  case (4 a b c xs)
  have "length (b64_encode (a # b # c # xs)) = length (b64_encode xs) + 4"
    by (simp add: Let_def)
  moreover have "length (a # b # c # xs) = length xs + 3"
    by simp
  ultimately show ?case
    using "4.IH" by (simp only: mod_add_self2)
qed (simp_all add: Let_def)

lemma decode_padded:
  "b64_decode (pad_payload (b64_encode c)) = (if length c mod 3 = 0 then Some c else None)"
proof -
  have "length c mod 3 < 3" by simp
  then consider "length c mod 3 = 0" | "length c mod 3 = 1" | "length c mod 3 = 2"
    by linarith
  then show ?thesis
    by cases (simp_all add: pad_payload_def b64_encode_length b64_decode_encode b64_decode_padding)
qed

lemma split_three:
  assumes "CHR ''.'' \<notin> set h" "CHR ''.'' \<notin> set p" "CHR ''.'' \<notin> set s"
  shows "split (CHR ''.'') (h @ ''.'' @ p @ ''.'' @ s) = [h, p, s]"
  using assms by (simp add: split_append split_no_sep)

text \<open>
  C33.  What \<open>ParseJWTExpiry\<close> reads from a compact token with claims \<open>c\<close>.  The payload is
  padded to a multiple of four and then decoded with the decoder that refuses padding, so the
  expiry is read only when the number of claim bytes is a multiple of three; every other
  token counts as one that lives for a year, whatever its \<^verbatim>\<open>exp\<close> says.
\<close>

theorem ParseJWTExpiry_by_length:
  assumes "CHR ''.'' \<notin> set h" "CHR ''.'' \<notin> set s"
  shows "ParseJWTExpiry (h @ ''.'' @ b64_encode c @ ''.'' @ s) now =
    (if length c mod 3 \<noteq> 0 then Inr (now + 365 * 24 * Hour)
     else case exp_claims c of
            None \<Rightarrow> Inr (now + 365 * 24 * Hour)
          | Some e \<Rightarrow> Inr (if e = 0 then now + 365 * 24 * Hour else time_unix e))"
  unfolding ParseJWTExpiry_def Let_def split_three [OF assms(1) b64_encode_no_dot assms(2)]
  by (simp add: decode_padded long_lived_def split: option.split)

theorem ParseJWTExpiry_by_length_witness:
  "ParseJWTExpiry (''h.'' @ b64_encode ''{\"exp\":5}'' @ ''.s'') 0 = Inr (5 * Second)
   \<and> ParseJWTExpiry (''h.'' @ b64_encode ''{\"exp\": 5}'' @ ''.s'') 0 = Inr (365 * 24 * Hour)"
proof
  have e: "exp_claims ''{\"exp\":5}'' = Some 5" "time_unix 5 = 5 * Second"
    by code_simp+
  show "ParseJWTExpiry (''h.'' @ b64_encode ''{\"exp\":5}'' @ ''.s'') 0 = Inr (5 * Second)"
    using ParseJWTExpiry_by_length [of "''h''" "''s''" "''{\"exp\":5}''" 0]
    by (simp add: e del: b64_encode.simps)
  show "ParseJWTExpiry (''h.'' @ b64_encode ''{\"exp\": 5}'' @ ''.s'') 0 = Inr (365 * 24 * Hour)"
    using ParseJWTExpiry_by_length [of "''h''" "''s''" "''{\"exp\": 5}''" 0]
    by (simp del: b64_encode.simps)
qed

end
