(* ===== verification/Go_Url.thy ===== *)
theory Go_Url
  imports Go_Encoding "HOL-Library.Char_ord" "HOL-Library.List_Lexorder"
begin

text \<open>
  The package \<^verbatim>\<open>net/url\<close> as far as the sources use it: percent-encoding, query strings,
  parsing and printing of URLs.  Non-ASCII bytes are passed through by \<open>quote\<close> (Go prints
  printable runes as they are).  A bracketed host must be an IPv6 literal.
\<close>

section \<open>Percent-encoding\<close>

datatype encoding =
    EncodePath | EncodePathSegment | EncodeHost | EncodeZone | EncodeUserPassword
  | EncodeQueryComponent | EncodeFragment

definition is_alnum :: "char \<Rightarrow> bool" where
  "is_alnum c \<longleftrightarrow> (let n = of_char c :: nat in
     (97 \<le> n \<and> n \<le> 122) \<or> (65 \<le> n \<and> n \<le> 90) \<or> (48 \<le> n \<and> n \<le> 57))"

definition should_escape :: "char \<Rightarrow> encoding \<Rightarrow> bool" where
  "should_escape c mode =
     (if is_alnum c then False
      else if (mode = EncodeHost \<or> mode = EncodeZone) \<and>
              c \<in> set (CHR 0x22 # CHR 0x27 # ''!$&()*+,;=:[]<>'') then False
      else if c \<in> set ''-_.~'' then False
      else if c \<in> set ''$&+,/:;=?@'' then
        (case mode of
           EncodePath \<Rightarrow> c = CHR ''?''
         | EncodePathSegment \<Rightarrow> c \<in> set ''/;,?''
         | EncodeUserPassword \<Rightarrow> c \<in> set ''@/?:''
         | EncodeQueryComponent \<Rightarrow> True
         | EncodeFragment \<Rightarrow> False
         | _ \<Rightarrow> True)
      else if mode = EncodeFragment \<and> c \<in> set ''!()*'' then False
      else True)"

definition hex_digit :: "nat \<Rightarrow> char" where
  "hex_digit n = ''0123456789ABCDEF'' ! n"

fun escape :: "encoding \<Rightarrow> string \<Rightarrow> string" where
  "escape mode [] = []"
| "escape mode (c # cs) =
     (if mode = EncodeQueryComponent \<and> c = CHR '' '' then CHR ''+'' # escape mode cs
      else if should_escape c mode then
        CHR ''%'' # hex_digit (of_char c div 16) # hex_digit (of_char c mod 16) # escape mode cs
      else c # escape mode cs)"

fun unescape :: "encoding \<Rightarrow> string \<Rightarrow> string option" where
  "unescape mode [] = Some []"
| "unescape mode (c # cs) =
     (if c = CHR ''%'' then
        (case cs of
           d # e # ds \<Rightarrow>
             (case (hex_val d, hex_val e) of
                (Some i, Some j) \<Rightarrow>
                  (let b = char_of (16 * i + j) in
                   if mode = EncodeHost \<and> i < 8 \<and> [d, e] \<noteq> ''25'' then None
                   else if mode = EncodeZone \<and> [d, e] \<noteq> ''25'' \<and> b \<noteq> CHR '' '' \<and>
                           should_escape b EncodeHost then None
                   else map_option (Cons b) (unescape mode ds))
              | _ \<Rightarrow> None)
         | _ \<Rightarrow> None)
      else if c = CHR ''+'' \<and> mode = EncodeQueryComponent then
        map_option (Cons (CHR '' '')) (unescape mode cs)
      else if (mode = EncodeHost \<or> mode = EncodeZone) \<and> of_char c < (128 :: nat) \<and>
              should_escape c mode then None
      else map_option (Cons c) (unescape mode cs))"

abbreviation QueryEscape :: "string \<Rightarrow> string" where
  "QueryEscape \<equiv> escape EncodeQueryComponent"

abbreviation QueryUnescape :: "string \<Rightarrow> string option" where
  "QueryUnescape \<equiv> unescape EncodeQueryComponent"

abbreviation PathEscape :: "string \<Rightarrow> string" where
  "PathEscape \<equiv> escape EncodePathSegment"

lemma hex_val_digit: "n < 16 \<Longrightarrow> hex_val (hex_digit n) = Some n"
proof -
  have "list_all (\<lambda>n. hex_val (hex_digit n) = Some n) [0..<16]"
    by code_simp
  then show "n < 16 \<Longrightarrow> ?thesis" by (simp add: list_all_iff)
qed

lemma of_char_div_16: "of_char c div 16 < (16 :: nat)"
  by (simp add: div_less_iff_less_mult)

lemma byte_of_hex: "char_of (16 * (of_char c div 16) + of_char c mod 16 :: nat) = c"
proof -
  have "16 * (of_char c div 16) + of_char c mod 16 = (of_char c :: nat)"
    by simp
  then show ?thesis by (simp only: char_of_char)
qed

lemma plus_escaped: "should_escape (CHR ''+'') EncodeQueryComponent" "should_escape (CHR ''%'') mode"
proof -
  show "should_escape (CHR ''+'') EncodeQueryComponent" by code_simp
  show "should_escape (CHR ''%'') mode" by (cases mode; simp add: should_escape_def is_alnum_def)
qed

lemma unescape_escape:
  assumes "mode \<noteq> EncodeHost" "mode \<noteq> EncodeZone"
  shows "unescape mode (escape mode s) = Some s"
proof (induction s)
  case (Cons c cs)
  show ?case
  proof (cases "should_escape c mode")
    case True
    then show ?thesis
      using assms Cons by (auto simp: hex_val_digit of_char_div_16 byte_of_hex)
  next
    case False
    then have "c \<noteq> CHR ''%''" "mode = EncodeQueryComponent \<Longrightarrow> c \<noteq> CHR ''+''"
      using plus_escaped by auto
    with False show ?thesis using assms Cons by auto
  qed
qed simp

lemma QueryUnescape_QueryEscape: "QueryUnescape (QueryEscape s) = Some s"
  by (rule unescape_escape) simp_all

text \<open>A byte of a query-escaped string is unreserved, a percent sign or a plus sign.\<close>

lemma escape_bytes:
  "c \<in> set (QueryEscape s) \<Longrightarrow> is_alnum c \<or> c \<in> set ''-_.~%+''"
proof (induction s)
  case (Cons x xs)
  have d: "is_alnum (hex_digit n)" if "n < 16" for n
  proof -
    have "list_all (\<lambda>n. is_alnum (hex_digit n)) [0..<16]" by code_simp
    with that show ?thesis by (simp add: list_all_iff)
  qed
  have "is_alnum x \<or> x \<in> set ''-_.~''" if "\<not> should_escape x EncodeQueryComponent"
    using that by (auto simp: should_escape_def split: if_splits)
  with Cons d [OF of_char_div_16 [of x]] d [of "of_char x mod 16"] show ?case
    by (auto split: if_splits)
qed simp

lemma escape_no_delim:
  "CHR ''&'' \<notin> set (QueryEscape s)" "CHR ''='' \<notin> set (QueryEscape s)" "CHR '';'' \<notin> set (QueryEscape s)"
  "CHR ''#'' \<notin> set (QueryEscape s)" "CHR ''?'' \<notin> set (QueryEscape s)"
  by (auto dest!: escape_bytes simp: is_alnum_def)

section \<open>Query strings\<close>

type_synonym Values = "(string, string list) gomap"

definition values_Set :: "string \<Rightarrow> string \<Rightarrow> Values \<Rightarrow> Values" where
  "values_Set k v = AList.update k [v]"

definition values_Get :: "string \<Rightarrow> Values \<Rightarrow> string" where
  "values_Get k vs = (case map_of vs k of Some (v # _) \<Rightarrow> v | _ \<Rightarrow> [])"

definition cut :: "char \<Rightarrow> string \<Rightarrow> string \<times> string \<times> bool" where
  "cut c s = (case index_of c s of None \<Rightarrow> (s, [], False) | Some i \<Rightarrow> (take i s, drop (Suc i) s, True))"

definition Encode :: "Values \<Rightarrow> string" where
  "Encode vs =
     join ''&'' (concat (map (\<lambda>k. map (\<lambda>v. QueryEscape k @ ''='' @ QueryEscape v) (the (map_of vs k)))
       (sort (map fst vs))))"

definition values_add :: "string \<Rightarrow> string \<Rightarrow> Values \<Rightarrow> Values" where
  "values_add k v vs = AList.update k ((case map_of vs k of None \<Rightarrow> [] | Some l \<Rightarrow> l) @ [v]) vs"

text \<open>\<^verbatim>\<open>URL.Query\<close>: pairs that do not decode, and pairs with a semicolon, are dropped.\<close>

definition query_pair :: "string \<Rightarrow> (string \<times> string) option" where
  "query_pair p =
     (if p = [] \<or> (CHR '';'') \<in> set p then None
      else let (k, v, _) = cut (CHR ''='') p in
           case (QueryUnescape k, QueryUnescape v) of
             (Some k', Some v') \<Rightarrow> Some (k', v')
           | _ \<Rightarrow> None)"

definition ParseQuery :: "string \<Rightarrow> Values" where
  "ParseQuery q =
     fold (\<lambda>p vs. case query_pair p of None \<Rightarrow> vs | Some (k, v) \<Rightarrow> values_add k v vs)
       (split (CHR ''&'') q) []"

lemma cut_append: "c \<notin> set a \<Longrightarrow> cut c (a @ c # b) = (a, b, True)"
  by (simp add: cut_def)

lemma query_pair_escaped: "query_pair (QueryEscape k @ ''='' @ QueryEscape v) = Some (k, v)"
  using escape_no_delim [of k] escape_no_delim [of v]
  by (simp add: query_pair_def cut_append QueryUnescape_QueryEscape)

lemma query_pair_no_amp: "CHR ''&'' \<notin> set (QueryEscape k @ ''='' @ QueryEscape v)"
  using escape_no_delim by simp

text \<open>Reading an encoded query gives every key its values back.\<close>

lemma values_add_get:
  "map_of (values_add k v vs) j =
     (if j = k then Some ((case map_of vs k of None \<Rightarrow> [] | Some l \<Rightarrow> l) @ [v]) else map_of vs j)"
  by (simp add: values_add_def gomap_simps)

lemma fold_values_add:
  "map_of (fold (\<lambda>(k, v). values_add k v) kvs vs) k =
     (case (map_of vs k, map snd (filter (\<lambda>(j, v). j = k) kvs)) of
        (None, []) \<Rightarrow> None
      | (None, l) \<Rightarrow> Some l
      | (Some l, l') \<Rightarrow> Some (l @ l'))"
proof (induction kvs arbitrary: vs)
  case Nil
  then show ?case by (simp split: option.split)
next
  case (Cons kv kvs)
  obtain j v where kv: "kv = (j, v)" by (cases kv)
  show ?case
    unfolding kv by (auto simp: Cons.IH values_add_get split: option.splits list.splits)
qed

lemma ParseQuery_join:
  assumes "kvs \<noteq> []"
  shows "ParseQuery (join ''&'' (map (\<lambda>(k, v). QueryEscape k @ ''='' @ QueryEscape v) kvs)) =
    fold (\<lambda>(k, v). values_add k v) kvs []"
proof -
  let ?enc = "\<lambda>(k, v). QueryEscape k @ ''='' @ QueryEscape v"
  have "split (CHR ''&'') (join [CHR ''&''] (map ?enc kvs)) = map ?enc kvs"
  proof (rule split_join)
    show "map ?enc kvs \<noteq> []" using assms by simp
    show "\<forall>p\<in>set (map ?enc kvs). CHR ''&'' \<notin> set p"
      using query_pair_no_amp by fastforce
  qed
  moreover have "fold (\<lambda>p vs. case query_pair p of None \<Rightarrow> vs | Some (k, v) \<Rightarrow> values_add k v vs)
      (map ?enc l) vs = fold (\<lambda>(k, v). values_add k v) l vs" for l vs
    by (induction l arbitrary: vs) (auto simp: query_pair_escaped simp del: append_Cons)
  ultimately show ?thesis
    by (simp add: ParseQuery_def)
qed

definition value_pairs :: "Values \<Rightarrow> (string \<times> string) list" where
  "value_pairs vs = concat (map (\<lambda>k. map (Pair k) (the (map_of vs k))) (sort (map fst vs)))"

lemma Encode_pairs:
  "Encode vs = join ''&'' (map (\<lambda>(k, v). QueryEscape k @ ''='' @ QueryEscape v) (value_pairs vs))"
  by (simp add: Encode_def value_pairs_def map_concat comp_def)

lemma filter_key_pairs: "filter (\<lambda>(j, v). j = k) (map (Pair i) l) = (if i = k then map (Pair i) l else [])"
  by (induction l) auto

lemma filter_key_concat:
  "distinct ks \<Longrightarrow> filter (\<lambda>(j, v). j = k) (concat (map (\<lambda>k. map (Pair k) (f k)) ks)) =
     (if k \<in> set ks then map (Pair k) (f k) else [])"
  by (induction ks) (auto simp: filter_key_pairs)

lemma value_pairs_key:
  assumes "gm_wf vs"
  shows "filter (\<lambda>(j, v). j = k) (value_pairs vs) =
    (case map_of vs k of None \<Rightarrow> [] | Some l \<Rightarrow> map (Pair k) l)"
proof -
  have "distinct (sort (map fst vs))" using assms by (simp add: gm_wf_def)
  from filter_key_concat [OF this, of k "\<lambda>k. the (map_of vs k)"]
  have f: "filter (\<lambda>(j, v). j = k) (value_pairs vs) =
      (if k \<in> fst ` set vs then map (Pair k) (the (map_of vs k)) else [])"
    by (simp add: value_pairs_def)
  show ?thesis
  proof (cases "map_of vs k")
    case None
    then have "k \<notin> fst ` set vs" by (simp add: map_of_eq_None_iff)
    with None show ?thesis using f by simp
  next
    case (Some l)
    then have "k \<in> fst ` set vs" by (force dest: map_of_SomeD)
    with Some show ?thesis using f by simp
  qed
qed

lemma ParseQuery_Encode:
  assumes "gm_wf vs" "list_all (\<lambda>(k, l). l \<noteq> []) vs"
  shows "map_of (ParseQuery (Encode vs)) k = map_of vs k"
proof (cases "value_pairs vs = []")
  case True
  have "vs = []"
  proof (rule ccontr)
    assume "vs \<noteq> []"
    then obtain j l where jl: "(j, l) \<in> set vs" by (cases vs) auto
    then have "map_of vs j = Some l" using assms(1) by (simp add: gm_wf_in_set)
    then have "map (Pair j) l = []" using value_pairs_key [OF assms(1), of j] True by simp
    with jl assms(2) show False by (auto simp: list_all_iff)
  qed
  then show ?thesis by (simp add: Encode_def ParseQuery_def query_pair_def)
next
  case False
  have ne: "l \<noteq> []" if "map_of vs k = Some l" for l
    using assms(2) map_of_SomeD [OF that] by (auto simp: list_all_iff)
  show ?thesis
    unfolding Encode_pairs ParseQuery_join [OF False] fold_values_add value_pairs_key [OF assms(1)]
    using ne by (auto simp: comp_def split: option.split list.split)
qed

section \<open>URLs\<close>

record Userinfo =
  Username :: string
  Password :: "string option"

record URL =
  Scheme :: string
  Opaque :: string
  User :: "Userinfo option"
  Host :: string
  Path :: string
  RawPath :: string
  OmitHost :: bool
  ForceQuery :: bool
  RawQuery :: string
  Fragment :: string
  RawFragment :: string

definition empty_url :: URL where
  "empty_url = \<lparr>Scheme = [], Opaque = [], User = None, Host = [], Path = [], RawPath = [],
     OmitHost = False, ForceQuery = False, RawQuery = [], Fragment = [], RawFragment = []\<rparr>"

fun quote_body :: "string \<Rightarrow> string" where
  "quote_body [] = []"
| "quote_body (c # cs) =
     (let n = of_char c :: nat in
      if c = CHR 0x22 \<or> c = CHR 0x5C then CHR 0x5C # c # quote_body cs
      else if n = 7 then CHR 0x5C # CHR ''a'' # quote_body cs
      else if n = 8 then CHR 0x5C # CHR ''b'' # quote_body cs
      else if n = 9 then CHR 0x5C # CHR ''t'' # quote_body cs
      else if n = 10 then CHR 0x5C # CHR ''n'' # quote_body cs
      else if n = 11 then CHR 0x5C # CHR ''v'' # quote_body cs
      else if n = 12 then CHR 0x5C # CHR ''f'' # quote_body cs
      else if n = 13 then CHR 0x5C # CHR ''r'' # quote_body cs
      else if n < 32 \<or> n = 127 then
        CHR 0x5C # CHR ''x'' # (''0123456789abcdef'' ! (n div 16)) # (''0123456789abcdef'' ! (n mod 16)) # quote_body cs
      else c # quote_body cs)"

text \<open>The verb \<open>%q\<close>.\<close>

definition quote :: "string \<Rightarrow> string" where
  "quote s = CHR 0x22 # quote_body s @ [CHR 0x22]"

definition is_letter :: "char \<Rightarrow> bool" where
  "is_letter c \<longleftrightarrow> (let n = of_char c :: nat in (97 \<le> n \<and> n \<le> 122) \<or> (65 \<le> n \<and> n \<le> 90))"

definition to_lower :: "string \<Rightarrow> string" where
  "to_lower = map (\<lambda>c. let n = of_char c :: nat in if 65 \<le> n \<and> n \<le> 90 then char_of (n + 32) else c)"

text \<open>The bytes of the scheme read so far; no scheme is the value \<open>([], rawURL)\<close>.\<close>

fun scan_scheme :: "string \<Rightarrow> string \<Rightarrow> (string \<times> string) option" where
  "scan_scheme acc [] = None"
| "scan_scheme acc (c # cs) =
     (if is_letter c then scan_scheme (acc @ [c]) cs
      else if is_digit c \<or> c \<in> set ''+-.'' then (if acc = [] then None else scan_scheme (acc @ [c]) cs)
      else if c = CHR '':'' then Some (acc, cs)
      else None)"

definition get_scheme :: "string \<Rightarrow> goerr + string \<times> string" where
  "get_scheme raw =
     (case scan_scheme [] raw of
        None \<Rightarrow> Inr ([], raw)
      | Some (s, rest) \<Rightarrow> if s = [] then Inl (Sentinel ''missing protocol scheme'') else Inr (s, rest))"

fun last_index :: "char \<Rightarrow> string \<Rightarrow> nat option" where
  "last_index c [] = None"
| "last_index c (x # xs) =
     (case last_index c xs of Some i \<Rightarrow> Some (Suc i) | None \<Rightarrow> if x = c then Some 0 else None)"

definition valid_optional_port :: "string \<Rightarrow> bool" where
  "valid_optional_port p \<longleftrightarrow> (case p of [] \<Rightarrow> True | c # ds \<Rightarrow> c = CHR '':'' \<and> list_all is_digit ds)"

definition is_ipv4 :: "string \<Rightarrow> bool" where
  "is_ipv4 s \<longleftrightarrow>
     (let ps = split (CHR ''.'') s in
      length ps = 4 \<and>
      list_all (\<lambda>p. p \<noteq> [] \<and> length p \<le> 3 \<and> list_all is_digit p \<and> (length p > 1 \<longrightarrow> hd p \<noteq> CHR ''0'') \<and>
        (case parse_nat p of Some n \<Rightarrow> n < 256 | None \<Rightarrow> False)) ps)"

text \<open>The number of 16-bit groups in colon-separated text, a trailing IPv4 address counting as two.\<close>

fun ipv6_groups :: "string list \<Rightarrow> nat option" where
  "ipv6_groups [] = Some 0"
| "ipv6_groups [p] =
     (if is_ipv4 p then Some 2
      else if p \<noteq> [] \<and> length p \<le> 4 \<and> list_all (\<lambda>c. hex_val c \<noteq> None) p then Some 1 else None)"
| "ipv6_groups (p # q # ps) =
     (if p \<noteq> [] \<and> length p \<le> 4 \<and> list_all (\<lambda>c. hex_val c \<noteq> None) p
      then map_option Suc (ipv6_groups (q # ps)) else None)"

fun find_dcolon :: "string \<Rightarrow> nat option" where
  "find_dcolon (a # b # cs) =
     (if a = CHR '':'' \<and> b = CHR '':'' then Some 0 else map_option Suc (find_dcolon (b # cs)))"
| "find_dcolon _ = None"

definition colon_groups :: "string \<Rightarrow> nat option" where
  "colon_groups s = (if s = [] then Some 0 else ipv6_groups (split (CHR '':'') s))"

definition is_ipv6 :: "string \<Rightarrow> bool" where
  "is_ipv6 addr \<longleftrightarrow>
     (let (s, zone, z) = cut (CHR ''%'') addr in
      (z \<longrightarrow> zone \<noteq> []) \<and>
      (case find_dcolon s of
         None \<Rightarrow> colon_groups s = Some 8
       | Some i \<Rightarrow>
           (case (colon_groups (take i s), colon_groups (drop (i + 2) s)) of
              (Some m, Some n) \<Rightarrow> m + n < 8 \<and> CHR ''.'' \<notin> set (take i s)
            | _ \<Rightarrow> False)))"

fun find_sub :: "string \<Rightarrow> string \<Rightarrow> nat option" where
  "find_sub p [] = (if p = [] then Some 0 else None)"
| "find_sub p (x # xs) = (if has_prefix (x # xs) p then Some 0 else map_option Suc (find_sub p xs))"

definition escape_err :: goerr where
  "escape_err = Sentinel ''invalid URL escape''"

definition unescape_e :: "encoding \<Rightarrow> string \<Rightarrow> goerr + string" where
  "unescape_e mode s = (case unescape mode s of None \<Rightarrow> Inl escape_err | Some t \<Rightarrow> Inr t)"

definition bracket_host :: "string \<Rightarrow> string option" where
  "bracket_host h =
     (case find_sub ''%25'' h of
        None \<Rightarrow> unescape EncodeHost h
      | Some z \<Rightarrow>
          (case (unescape EncodeHost (take z h), unescape EncodeZone (drop z h)) of
             (Some a, Some b) \<Rightarrow> Some (a @ b)
           | _ \<Rightarrow> None))"

definition parse_host :: "string \<Rightarrow> goerr + string" where
  "parse_host host =
     (case last_index (CHR ''['') host of
        Some i \<Rightarrow>
          (case last_index (CHR '']'') host of
             None \<Rightarrow> Inl (Sentinel ''missing ] in host'')
           | Some j \<Rightarrow>
               if i \<noteq> 0 \<or> \<not> valid_optional_port (drop (Suc j) host) then Inl (Sentinel ''invalid port after host'')
               else
                 (case bracket_host (take (j - 1) (drop 1 host)) of
                    None \<Rightarrow> Inl escape_err
                  | Some h \<Rightarrow>
                      if is_ipv6 h then Inr (''['' @ h @ '']'' @ drop (Suc j) host)
                      else Inl (Sentinel ''invalid host'')))
      | None \<Rightarrow>
          (case index_of (CHR '':'') host of
             None \<Rightarrow> unescape_e EncodeHost host
           | Some i \<Rightarrow>
               if valid_optional_port (drop i host) then unescape_e EncodeHost host
               else Inl (Sentinel ''invalid port after host'')))"

definition valid_userinfo :: "string \<Rightarrow> bool" where
  "valid_userinfo s \<longleftrightarrow> list_all (\<lambda>c. is_alnum c \<or> c \<in> set (CHR 0x27 # ''-._:~!$&()*+,;=%@'')) s"

definition parse_authority :: "string \<Rightarrow> goerr + Userinfo option \<times> string" where
  "parse_authority a =
     (case last_index (CHR ''@'') a of
        None \<Rightarrow> (case parse_host a of Inl e \<Rightarrow> Inl e | Inr h \<Rightarrow> Inr (None, h))
      | Some i \<Rightarrow>
          (case parse_host (drop (Suc i) a) of
             Inl e \<Rightarrow> Inl e
           | Inr h \<Rightarrow>
               if \<not> valid_userinfo (take i a) then Inl (Sentinel ''net/url: invalid userinfo'')
               else
                 (let (u, p, hasp) = cut (CHR '':'') (take i a) in
                  case (unescape EncodeUserPassword u, unescape EncodeUserPassword p) of
                    (Some u', Some p') \<Rightarrow>
                      Inr (Some \<lparr>Username = u', Password = (if hasp then Some p' else None)\<rparr>, h)
                  | _ \<Rightarrow> Inl escape_err)))"

definition set_path :: "string \<Rightarrow> URL \<Rightarrow> goerr + URL" where
  "set_path p u =
     (case unescape EncodePath p of
        None \<Rightarrow> Inl escape_err
      | Some path \<Rightarrow> Inr (u\<lparr>Path := path, RawPath := (if p = escape EncodePath path then [] else p)\<rparr>))"

definition set_fragment :: "string \<Rightarrow> URL \<Rightarrow> goerr + URL" where
  "set_fragment f u =
     (case unescape EncodeFragment f of
        None \<Rightarrow> Inl escape_err
      | Some frag \<Rightarrow>
          Inr (u\<lparr>Fragment := frag, RawFragment := (if f = escape EncodeFragment frag then [] else f)\<rparr>))"

text \<open>The query is cut off first; a lone trailing question mark is remembered.\<close>

definition cut_query :: "string \<Rightarrow> URL \<Rightarrow> string \<times> URL" where
  "cut_query rest u =
     (if has_suffix rest ''?'' \<and> length (filter (\<lambda>c. c = CHR ''?'') rest) = 1
      then (butlast rest, u\<lparr>ForceQuery := True\<rparr>)
      else let (r, q, _) = cut (CHR ''?'') rest in (r, u\<lparr>RawQuery := q\<rparr>))"

definition parse_rest :: "string \<Rightarrow> URL \<Rightarrow> goerr + URL" where
  "parse_rest rest u =
     (if \<not> has_prefix rest ''/'' \<and> Scheme u \<noteq> [] then Inr (u\<lparr>Opaque := rest\<rparr>)
      else if \<not> has_prefix rest ''/'' \<and> CHR '':'' \<in> set (fst (cut (CHR ''/'') rest)) then
        Inl (Sentinel ''first path segment in URL cannot contain colon'')
      else if (Scheme u \<noteq> [] \<or> \<not> has_prefix rest ''///'') \<and> has_prefix rest ''//'' then
        (let (a, p, hasp) = cut (CHR ''/'') (drop 2 rest) in
         case parse_authority a of
           Inl e \<Rightarrow> Inl e
         | Inr (user, host) \<Rightarrow> set_path (if hasp then CHR ''/'' # p else []) (u\<lparr>User := user, Host := host\<rparr>))
      else if Scheme u \<noteq> [] \<and> has_prefix rest ''/'' then set_path rest (u\<lparr>OmitHost := True\<rparr>)
      else set_path rest u)"

definition parse_nofrag :: "string \<Rightarrow> goerr + URL" where
  "parse_nofrag raw =
     (if \<not> list_all (\<lambda>c. 32 \<le> (of_char c :: nat) \<and> of_char c \<noteq> (127 :: nat)) raw then
        Inl (Sentinel ''net/url: invalid control character in URL'')
      else if raw = ''*'' then Inr (empty_url\<lparr>Path := ''*''\<rparr>)
      else
        (case get_scheme raw of
           Inl e \<Rightarrow> Inl e
         | Inr (scheme, rest) \<Rightarrow>
             (let (rest', u) = cut_query rest (empty_url\<lparr>Scheme := to_lower scheme\<rparr>) in
              parse_rest rest' u)))"

definition url_error :: "string \<Rightarrow> goerr \<Rightarrow> goerr" where
  "url_error raw e = Errorf [Lit ''parse '', Lit (quote raw), Lit '': '', Wrap e]"

definition url_Parse :: "string \<Rightarrow> goerr + URL" where
  "url_Parse raw =
     (let (r, frag, _) = cut (CHR ''#'') raw in
      case parse_nofrag r of
        Inl e \<Rightarrow> Inl (url_error r e)
      | Inr u \<Rightarrow>
          if frag = [] then Inr u
          else (case set_fragment frag u of Inl e \<Rightarrow> Inl (url_error raw e) | Inr u' \<Rightarrow> Inr u'))"

definition valid_encoded :: "encoding \<Rightarrow> string \<Rightarrow> bool" where
  "valid_encoded mode s \<longleftrightarrow>
     list_all (\<lambda>c. c \<in> set (CHR 0x27 # ''!$&()*+,;=:@[]%'') \<or> \<not> should_escape c mode) s"

definition EscapedPath :: "URL \<Rightarrow> string" where
  "EscapedPath u =
     (if RawPath u \<noteq> [] \<and> valid_encoded EncodePath (RawPath u) \<and>
         unescape EncodePath (RawPath u) = Some (Path u) then RawPath u
      else if Path u = ''*'' then ''*'' else escape EncodePath (Path u))"

definition EscapedFragment :: "URL \<Rightarrow> string" where
  "EscapedFragment u =
     (if RawFragment u \<noteq> [] \<and> valid_encoded EncodeFragment (RawFragment u) \<and>
         unescape EncodeFragment (RawFragment u) = Some (Fragment u) then RawFragment u
      else escape EncodeFragment (Fragment u))"

definition user_String :: "Userinfo \<Rightarrow> string" where
  "user_String ui = escape EncodeUserPassword (Username ui) @
     (case Password ui of None \<Rightarrow> [] | Some p \<Rightarrow> '':'' @ escape EncodeUserPassword p)"

definition authority_String :: "URL \<Rightarrow> string" where
  "authority_String u =
     (if Scheme u \<noteq> [] \<or> Host u \<noteq> [] \<or> User u \<noteq> None then
        (if OmitHost u \<and> Host u = [] \<and> User u = None then []
         else (if Host u \<noteq> [] \<or> Path u \<noteq> [] \<or> User u \<noteq> None then ''//'' else []) @
              (case User u of None \<Rightarrow> [] | Some ui \<Rightarrow> user_String ui @ ''@'') @
              escape EncodeHost (Host u))
      else [])"

definition url_String :: "URL \<Rightarrow> string" where
  "url_String u =
     (let start = (if Scheme u \<noteq> [] then Scheme u @ '':'' else []) in
      (if Opaque u \<noteq> [] then start @ Opaque u
       else
         (let buf = start @ authority_String u;
              path = EscapedPath u;
              slash = (if path \<noteq> [] \<and> hd path \<noteq> CHR ''/'' \<and> Host u \<noteq> [] then ''/'' else []);
              dot = (if buf @ slash = [] \<and> CHR '':'' \<in> set (fst (cut (CHR ''/'') path)) then ''./'' else [])
          in buf @ slash @ dot @ path)) @
      (if ForceQuery u \<or> RawQuery u \<noteq> [] then ''?'' @ RawQuery u else []) @
      (if Fragment u \<noteq> [] then ''#'' @ EscapedFragment u else []))"

lemmas url_eval = url_Parse_def parse_nofrag_def get_scheme_def cut_query_def parse_rest_def
  parse_authority_def parse_host_def unescape_e_def set_path_def set_fragment_def cut_def
  empty_url_def has_prefix_def has_suffix_def is_letter_def to_lower_def is_digit_def
  valid_optional_port_def should_escape_def is_alnum_def Let_def

end
