(* ===== verification/Go_Sha256.thy ===== *)
theory Go_Sha256
  imports Prelude "HOL-Library.Word"
begin

text \<open>
  The hash of \<^verbatim>\<open>crypto/sha256\<close> (FIPS 180-4) on byte lists, as an executable definition.  The
  development uses that it is a function, that a sum has 32 bytes, and, as an explicit
  hypothesis where a claim needs it, that two given inputs do not collide.
\<close>

unbundle bit_operations_syntax

type_synonym word32 = "32 word"

text \<open>
  The constants of the algorithm are the first 32 bits of the fractional parts of the roots
  of the first primes, cube roots for the rounds and square roots for the initial state.
\<close>

fun root_bits :: "nat \<Rightarrow> int \<Rightarrow> nat \<Rightarrow> int \<Rightarrow> int" where
  "root_bits k n 0 r = r"
| "root_bits k n (Suc b) r = root_bits k n b (if (r + 2 ^ b) ^ k \<le> n then r + 2 ^ b else r)"

definition primes_to :: "int \<Rightarrow> int list" where
  "primes_to m = filter (\<lambda>p. list_all (\<lambda>d. p mod d \<noteq> 0) [2..p - 1]) [2..m]"

definition root_fraction :: "nat \<Rightarrow> int \<Rightarrow> word32" where
  "root_fraction k p = word_of_int (root_bits k (p * 2 ^ (32 * k)) 40 0)"

definition sha_k :: "word32 list" where
  "sha_k = map (root_fraction 3) (primes_to 311)"

record sha_state =
  sa :: word32
  sb :: word32
  sc :: word32
  sd :: word32
  se :: word32
  sf :: word32
  sg :: word32
  sh :: word32

definition sha_init :: sha_state where
  "sha_init = \<lparr>sa = root_fraction 2 2, sb = root_fraction 2 3, sc = root_fraction 2 5, sd = root_fraction 2 7,
     se = root_fraction 2 11, sf = root_fraction 2 13, sg = root_fraction 2 17, sh = root_fraction 2 19\<rparr>"

definition rotr :: "nat \<Rightarrow> word32 \<Rightarrow> word32" where
  "rotr n x = drop_bit n x OR push_bit (32 - n) x"

definition sigma0 :: "word32 \<Rightarrow> word32" where
  "sigma0 x = rotr 7 x XOR rotr 18 x XOR drop_bit 3 x"

definition sigma1 :: "word32 \<Rightarrow> word32" where
  "sigma1 x = rotr 17 x XOR rotr 19 x XOR drop_bit 10 x"

text \<open>The message schedule, newest word first.\<close>

fun schedule :: "nat \<Rightarrow> word32 list \<Rightarrow> word32 list" where
  "schedule 0 ws = ws"
| "schedule (Suc n) ws = schedule n ((sigma1 (ws ! 1) + ws ! 6 + sigma0 (ws ! 14) + ws ! 15) # ws)"

definition sha_round :: "word32 \<times> word32 \<Rightarrow> sha_state \<Rightarrow> sha_state" where
  "sha_round kw s =
     (let t1 = sh s + (rotr 6 (se s) XOR rotr 11 (se s) XOR rotr 25 (se s)) +
               ((se s AND sf s) XOR (NOT (se s) AND sg s)) + fst kw + snd kw;
          t2 = (rotr 2 (sa s) XOR rotr 13 (sa s) XOR rotr 22 (sa s)) +
               ((sa s AND sb s) XOR (sa s AND sc s) XOR (sb s AND sc s))
      in \<lparr>sa = t1 + t2, sb = sa s, sc = sb s, sd = sc s, se = sd s + t1, sf = se s, sg = sf s, sh = sg s\<rparr>)"

definition sha_add :: "sha_state \<Rightarrow> sha_state \<Rightarrow> sha_state" where
  "sha_add s t = \<lparr>sa = sa s + sa t, sb = sb s + sb t, sc = sc s + sc t, sd = sd s + sd t,
     se = se s + se t, sf = sf s + sf t, sg = sg s + sg t, sh = sh s + sh t\<rparr>"

definition sha_block :: "word32 list \<Rightarrow> sha_state \<Rightarrow> sha_state" where
  "sha_block ws s = sha_add s (fold sha_round (zip sha_k (rev (schedule 48 (rev ws)))) s)"

fun be_words :: "int list \<Rightarrow> word32 list" where
  "be_words (a # b # c # d # xs) =
     word_of_int (a * 16777216 + b * 65536 + c * 256 + d) # be_words xs"
| "be_words _ = []"

definition be_bytes :: "nat \<Rightarrow> int \<Rightarrow> int list" where
  "be_bytes k n = map (\<lambda>i. n div 256 ^ (k - 1 - i) mod 256) [0..<k]"

definition sha_pad :: "string \<Rightarrow> int list" where
  "sha_pad s = map of_char s @ [128] @ replicate ((119 - length s mod 64) mod 64) 0 @
     be_bytes 8 (8 * int (length s) mod 2 ^ 64)"

function sha_blocks :: "word32 list \<Rightarrow> sha_state \<Rightarrow> sha_state" where
  "sha_blocks ws s = (if ws = [] then s else sha_blocks (drop 16 ws) (sha_block (take 16 ws) s))"
  by auto
termination
  by (relation "measure (length \<circ> fst)") auto

declare sha_blocks.simps [simp del]

definition word_chars :: "word32 \<Rightarrow> string" where
  "word_chars w = map char_of (be_bytes 4 (uint w))"

definition Sum256 :: "string \<Rightarrow> string" where
  "Sum256 m =
     (let s = sha_blocks (be_words (sha_pad m)) sha_init in
      concat (map word_chars [sa s, sb s, sc s, sd s, se s, sf s, sg s, sh s]))"

lemma root_bits_spec:
  assumes "0 \<le> r" "r ^ k \<le> n" "n < (r + 2 ^ b) ^ k"
  shows "root_bits k n b r ^ k \<le> n \<and> n < (root_bits k n b r + 1) ^ k"
  using assms
proof (induction b arbitrary: r)
  case (Suc b)
  show ?case
  proof (cases "(r + 2 ^ b) ^ k \<le> n")
    case True
    then show ?thesis using Suc.IH [of "r + 2 ^ b"] Suc.prems by (simp add: add.assoc)
  next
    case False
    then show ?thesis using Suc.IH [of r] Suc.prems by simp
  qed
qed simp

lemma Sum256_length: "length (Sum256 m) = 32"
  by (simp add: Sum256_def Let_def word_chars_def be_bytes_def)

text \<open>\<^verbatim>\<open>hex.EncodeToString\<close>.\<close>

definition hex_lower :: "nat \<Rightarrow> char" where
  "hex_lower n = ''0123456789abcdef'' ! n"

definition hex_encode :: "string \<Rightarrow> string" where
  "hex_encode s = concat (map (\<lambda>c. [hex_lower (of_char c div 16), hex_lower (of_char c mod 16)]) s)"

lemma hex_lower_inj: "m < 16 \<Longrightarrow> n < 16 \<Longrightarrow> hex_lower m = hex_lower n \<longleftrightarrow> m = n"
proof -
  have "distinct ''0123456789abcdef''" by simp
  then show "m < 16 \<Longrightarrow> n < 16 \<Longrightarrow> ?thesis"
    unfolding hex_lower_def by (rule nth_eq_iff_index_eq) simp_all
qed

lemma hex_encode_Cons:
  "hex_encode (c # s) = hex_lower (of_char c div 16) # hex_lower (of_char c mod 16) # hex_encode s"
  by (simp add: hex_encode_def)

lemma hex_encode_length: "length (hex_encode s) = 2 * length s"
  by (induction s) (simp_all add: hex_encode_Cons, simp add: hex_encode_def)

lemma hex_encode_inj: "hex_encode s = hex_encode t \<longleftrightarrow> s = t"
proof
  show "hex_encode s = hex_encode t \<Longrightarrow> s = t"
  proof (induction s arbitrary: t)
    case Nil
    then show ?case using hex_encode_length [of t] by (simp add: hex_encode_def)
  next
    case (Cons c s)
    then have "t \<noteq> []" using hex_encode_length [of "c # s"] hex_encode_length [of t] by auto
    then obtain d t' where t: "t = d # t'" by (cases t) auto
    have b: "of_char x div 16 < (16 :: nat)" "of_char x mod 16 < (16 :: nat)" for x
      by (simp_all add: div_less_iff_less_mult)
    have "hex_lower (of_char c div 16) = hex_lower (of_char d div 16)"
      "hex_lower (of_char c mod 16) = hex_lower (of_char d mod 16)" "hex_encode s = hex_encode t'"
      using Cons.prems by (simp_all add: t hex_encode_Cons)
    then have "of_char c div 16 = (of_char d div 16 :: nat)" "of_char c mod 16 = (of_char d mod 16 :: nat)"
      and s: "s = t'"
      using Cons.IH b by (simp_all add: hex_lower_inj)
    then have "of_char c = (of_char d :: nat)"
      by (metis div_mult_mod_eq)
    then show ?case using t s by simp
  qed
qed simp

end
