(* ===== verification/TB_OAuth.thy ===== *)
theory TB_OAuth
  imports TB_Core Go_Url Go_Sha256
begin

text \<open>
  The OAuth client of the broker: proof keys (\<^verbatim>\<open>token-broker/pkg/oauth/pkce.go\<close>), the
  authorization URL and the token exchange (\<^verbatim>\<open>token-broker/internal/oauth/client.go\<close>) and the
  discovery of endpoints (\<^verbatim>\<open>token-broker/internal/oauth/discovery.go\<close>).  The network is the
  argument \<open>send\<close>, the answer of the HTTP client to one request; the random source is the
  argument \<open>rnd\<close>, the answer of one read of 32 bytes.
\<close>

section \<open>HTTP\<close>

record Request =
  ReqMethod :: string
  ReqURL :: URL
  ReqHeader :: "(string, string) gomap"
  ReqBody :: string

text \<open>A response with the bytes its body yields and the error that ended the reading, if any.\<close>

record Response =
  StatusCode :: int
  RespBody :: string
  RespReadErr :: "goerr option"

type_synonym transport = "Request \<Rightarrow> goerr + Response"

definition NewRequest :: "string \<Rightarrow> string \<Rightarrow> string \<Rightarrow> goerr + Request" where
  "NewRequest meth rawURL body =
     (case url_Parse rawURL of
        Inl e \<Rightarrow> Inl e
      | Inr u \<Rightarrow> Inr \<lparr>ReqMethod = meth, ReqURL = u, ReqHeader = [], ReqBody = body\<rparr>)"

definition set_header :: "string \<Rightarrow> string \<Rightarrow> Request \<Rightarrow> Request" where
  "set_header k v r = r\<lparr>ReqHeader := AList.update k v (ReqHeader r)\<rparr>"

section \<open>Proof keys\<close>

definition GeneratePKCEChallenge :: "goerr + string \<Rightarrow> goerr + PKCEChallenge" where
  "GeneratePKCEChallenge rnd =
     (case rnd of
        Inl e \<Rightarrow> Inl (Errorf [Lit ''failed to generate random verifier: '', Wrap e])
      | Inr verifierBytes \<Rightarrow>
          (let verifier = b64_encode verifierBytes;
               challenge = b64_encode (Sum256 verifier)
           in Inr \<lparr>Verifier = verifier, Challenge = challenge, Method = ''S256''\<rparr>))"

definition GenerateState :: "goerr + string \<Rightarrow> goerr + string" where
  "GenerateState rnd =
     (case rnd of
        Inl e \<Rightarrow> Inl (Errorf [Lit ''failed to generate random state: '', Wrap e])
      | Inr stateBytes \<Rightarrow> Inr (b64_encode stateBytes))"

section \<open>Client\<close>

record Config =
  ClientID :: string
  ClientSecret :: string

definition auth_params :: "Config \<Rightarrow> string \<Rightarrow> string \<Rightarrow> string list \<Rightarrow> PKCEChallenge \<Rightarrow> Values" where
  "auth_params config callbackURL state scopes pkce =
     (let params =
        values_Set ''code_challenge_method'' (Method pkce)
          (values_Set ''code_challenge'' (Challenge pkce)
            (values_Set ''state'' state
              (values_Set ''response_type'' ''code''
                (values_Set ''redirect_uri'' callbackURL
                  (values_Set ''client_id'' (ClientID config) [])))))
      in if length scopes > 0 then values_Set ''scope'' (join '' '' scopes) params else params)"

definition BuildAuthorizationURL ::
  "Config \<Rightarrow> goerr + string \<Rightarrow> string \<Rightarrow> string \<Rightarrow> string \<Rightarrow> string list \<Rightarrow> PKCEChallenge \<Rightarrow>
     goerr + string \<times> string" where
  "BuildAuthorizationURL config rnd authEndpoint callbackURL sessionKey scopes pkce =
     (case url_Parse authEndpoint of
        Inl e \<Rightarrow> Inl (Errorf [Lit ''invalid authorization endpoint: '', Wrap e])
      | Inr u \<Rightarrow>
          (case GenerateState rnd of
             Inl e \<Rightarrow> Inl (Errorf [Lit ''failed to generate state nonce: '', Wrap e])
           | Inr nonce \<Rightarrow>
               (let state = sessionKey @ ''.'' @ nonce;
                    params = auth_params config callbackURL state scopes pkce
                in Inr (url_String (u\<lparr>RawQuery := Encode params\<rparr>), state))))"

record tokenResp =
  RespAccessToken :: string
  ExpiresIn :: int
  TokenType :: string

definition token_fields :: "tokenResp field list" where
  "token_fields =
     [str_field ''access_token'' (\<lambda>v t. t\<lparr>RespAccessToken := v\<rparr>),
      int_field ''expires_in'' (\<lambda>i t. t\<lparr>ExpiresIn := i\<rparr>),
      str_field ''token_type'' (\<lambda>v t. t\<lparr>TokenType := v\<rparr>)]"

definition exchange_params :: "Config \<Rightarrow> string \<Rightarrow> string \<Rightarrow> string \<Rightarrow> Values" where
  "exchange_params config code codeVerifier callbackURL =
     values_Set ''grant_type'' ''authorization_code''
       (values_Set ''redirect_uri'' callbackURL
         (values_Set ''code_verifier'' codeVerifier
           (values_Set ''code'' code
             (values_Set ''client_secret'' (ClientSecret config)
               (values_Set ''client_id'' (ClientID config) [])))))"

definition exchange_request :: "Config \<Rightarrow> string \<Rightarrow> string \<Rightarrow> string \<Rightarrow> string \<Rightarrow> goerr + Request" where
  "exchange_request config tokenEndpoint code codeVerifier callbackURL =
     (case NewRequest ''POST'' tokenEndpoint (Encode (exchange_params config code codeVerifier callbackURL)) of
        Inl e \<Rightarrow> Inl e
      | Inr req \<Rightarrow>
          Inr (set_header ''Accept'' ''application/json''
            (set_header ''Content-Type'' ''application/x-www-form-urlencoded'' req)))"

definition ExchangeToken ::
  "Config \<Rightarrow> transport \<Rightarrow> string \<Rightarrow> string \<Rightarrow> string \<Rightarrow> string \<Rightarrow> goerr + string \<times> int" where
  "ExchangeToken config send tokenEndpoint code codeVerifier callbackURL =
     (case exchange_request config tokenEndpoint code codeVerifier callbackURL of
        Inl e \<Rightarrow> Inl (Errorf [Lit ''failed to create token request: '', Wrap e])
      | Inr req \<Rightarrow>
          (case send req of
             Inl e \<Rightarrow> Inl (Errorf [Lit ''failed to send token request: '', Wrap e])
           | Inr resp \<Rightarrow>
               (case RespReadErr resp of
                  Some e \<Rightarrow> Inl (Errorf [Lit ''failed to read token response: '', Wrap e])
                | None \<Rightarrow>
                    if StatusCode resp \<noteq> 200 then
                      Inl (Errorf [Lit ''token exchange failed with status '', Lit (itoa (StatusCode resp)),
                                   Lit '': '', Lit (RespBody resp)])
                    else
                      (case json_unmarshal token_fields (RespBody resp)
                              \<lparr>RespAccessToken = [], ExpiresIn = 0, TokenType = []\<rparr> of
                         None \<Rightarrow> Inl (Errorf [Lit ''failed to parse token response: '', Wrap (Sentinel ''json error'')])
                       | Some t \<Rightarrow>
                           if RespAccessToken t = [] then Inl (Errorf [Lit ''no access token in response''])
                           else Inr (RespAccessToken t, ExpiresIn t)))))"

section \<open>Discovery\<close>

record ResourceConfig =
  RScopes :: "string list"
  RAuthorizationEndpoint :: string
  RTokenEndpoint :: string

record DiscovererConfig =
  AuthorizationEndpoint :: string
  DTokenEndpoint :: string
  ScopesSupported :: "string list"
  ResourceScopes :: "(string, string list) gomap"
  ResourceConfigs :: "(string, ResourceConfig) gomap"

definition resolve_scopes :: "DiscovererConfig \<Rightarrow> string \<Rightarrow> string list \<Rightarrow> string list" where
  "resolve_scopes config resourceURL scopes =
     (case map_of (ResourceConfigs config) resourceURL of
        Some serverCfg \<Rightarrow>
          if length (RScopes serverCfg) > 0 then RScopes serverCfg
          else (case map_of (ResourceScopes config) resourceURL of Some override \<Rightarrow> override | None \<Rightarrow> scopes)
      | None \<Rightarrow> (case map_of (ResourceScopes config) resourceURL of Some override \<Rightarrow> override | None \<Rightarrow> scopes))"

record metadata =
  AuthorizationServers :: "string list"
  MScopesSupported :: "string list"

definition metadata_fields :: "metadata field list" where
  "metadata_fields =
     [strs_field ''authorization_servers'' (\<lambda>l m. m\<lparr>AuthorizationServers := l\<rparr>),
      strs_field ''scopes_supported'' (\<lambda>l m. m\<lparr>MScopesSupported := l\<rparr>)]"

definition fetch_metadata :: "transport \<Rightarrow> string \<Rightarrow> goerr + metadata" where
  "fetch_metadata send wellKnownURL =
     (case NewRequest ''GET'' wellKnownURL [] of
        Inl e \<Rightarrow> Inl (Errorf [Lit ''failed to create discovery request: '', Wrap e])
      | Inr req \<Rightarrow>
          (case send (set_header ''Accept'' ''application/json'' req) of
             Inl e \<Rightarrow> Inl (Errorf [Lit ''failed to send discovery request: '', Wrap e])
           | Inr resp \<Rightarrow>
               if StatusCode resp \<noteq> 200 then
                 Inl (Errorf [Lit ''discovery endpoint returned status '', Lit (itoa (StatusCode resp)),
                              Lit '': '', Lit (RespBody resp)])
               else
                 (case RespReadErr resp of
                    Some e \<Rightarrow> Inl (Errorf [Lit ''failed to read discovery response: '', Wrap e])
                  | None \<Rightarrow>
                      (case json_unmarshal metadata_fields (RespBody resp)
                              \<lparr>AuthorizationServers = [], MScopesSupported = []\<rparr> of
                         None \<Rightarrow> Inl (Errorf [Lit ''failed to parse discovery response: '', Wrap (Sentinel ''json error'')])
                       | Some m \<Rightarrow>
                           if length (AuthorizationServers m) = 0 then
                             Inl (Errorf [Lit ''no authorization servers found in discovery response''])
                           else Inr m))))"

definition http_url :: "string \<Rightarrow> bool" where
  "http_url resourceURL =
     (case url_Parse resourceURL of
        Inl e \<Rightarrow> False
      | Inr u \<Rightarrow> (Scheme u = ''http'' \<or> Scheme u = ''https'') \<and> Host u \<noteq> [])"

definition derive_endpoints :: "DiscovererConfig \<Rightarrow> string \<Rightarrow> metadata \<Rightarrow> string \<times> string \<times> string list" where
  "derive_endpoints config resourceURL m =
     (let authServerBase = trim_suffix (AuthorizationServers m ! 0) ''/'';
          auth = authServerBase @ ''/authorize'';
          tok = authServerBase @ ''/access_token'';
          (auth', tok') =
            (case map_of (ResourceConfigs config) resourceURL of
               None \<Rightarrow> (auth, tok)
             | Some serverCfg \<Rightarrow>
                 (if RAuthorizationEndpoint serverCfg \<noteq> [] then RAuthorizationEndpoint serverCfg else auth,
                  if RTokenEndpoint serverCfg \<noteq> [] then RTokenEndpoint serverCfg else tok))
      in (auth', tok', resolve_scopes config resourceURL (MScopesSupported m)))"

definition discover_global ::
  "DiscovererConfig \<Rightarrow> transport \<Rightarrow> string \<Rightarrow> goerr + string \<times> string \<times> string list" where
  "discover_global config send resourceURL =
     (if AuthorizationEndpoint config \<noteq> [] \<and> DTokenEndpoint config \<noteq> [] then
        Inr (AuthorizationEndpoint config, DTokenEndpoint config,
             resolve_scopes config resourceURL (ScopesSupported config))
      else if \<not> http_url resourceURL then
        Inl (Errorf [Lit ''invalid resource URL '', Lit (quote resourceURL),
                     Lit '': must be http or https with a non-empty host''])
      else
        (case fetch_metadata send (trim_suffix resourceURL ''/'' @ ''/.well-known/oauth-protected-resource'') of
           Inl e \<Rightarrow> Inl e
         | Inr m \<Rightarrow> Inr (derive_endpoints config resourceURL m)))"

definition DiscoverEndpoints ::
  "DiscovererConfig \<Rightarrow> transport \<Rightarrow> string \<Rightarrow> goerr + string \<times> string \<times> string list" where
  "DiscoverEndpoints config send resourceURL =
     (case map_of (ResourceConfigs config) resourceURL of
        Some serverCfg \<Rightarrow>
          if RAuthorizationEndpoint serverCfg \<noteq> [] \<and> RTokenEndpoint serverCfg \<noteq> [] then
            Inr (RAuthorizationEndpoint serverCfg, RTokenEndpoint serverCfg, RScopes serverCfg)
          else discover_global config send resourceURL
      | None \<Rightarrow> discover_global config send resourceURL)"

definition synthetic_body :: string where
  "synthetic_body = ''{\"id\":1,\"jsonrpc\":\"2.0\",\"method\":\"tools/list\",\"params\":{}}''"

definition SendSyntheticRequest :: "transport \<Rightarrow> string \<Rightarrow> goerr + bool" where
  "SendSyntheticRequest send resourceURL =
     (case NewRequest ''POST'' (trim_suffix resourceURL ''/'' @ ''/mcp'') synthetic_body of
        Inl e \<Rightarrow> Inl (Errorf [Lit ''failed to create request: '', Wrap e])
      | Inr req \<Rightarrow>
          (case send (set_header ''Content-Type'' ''application/json'' req) of
             Inl e \<Rightarrow> Inl (Errorf [Lit ''failed to send request: '', Wrap e])
           | Inr resp \<Rightarrow> Inr (StatusCode resp = 401)))"

section \<open>Laws\<close>

lemma values_Set_wf:
  "gm_wf vs \<Longrightarrow> list_all (\<lambda>(k, l). l \<noteq> []) vs \<Longrightarrow>
     gm_wf (values_Set k v vs) \<and> list_all (\<lambda>(k, l). l \<noteq> []) (values_Set k v vs)"
proof -
  assume a: "gm_wf vs" "list_all (\<lambda>(k, l). l \<noteq> []) vs"
  have "list_all (\<lambda>(k, l). l \<noteq> []) (AList.update k [v] vs)"
    using a(2) by (induction vs) auto
  with a show ?thesis by (simp add: values_Set_def gm_wf_update)
qed

lemma values_Get_Set: "values_Get j (values_Set k v vs) = (if j = k then v else values_Get j vs)"
  by (simp add: values_Get_def values_Set_def gomap_simps)

lemma query_Get:
  "gm_wf vs \<and> list_all (\<lambda>(k, l). l \<noteq> []) vs \<Longrightarrow> values_Get k (ParseQuery (Encode vs)) = values_Get k vs"
  by (simp add: values_Get_def ParseQuery_Encode)

lemma auth_params_wf:
  "gm_wf (auth_params config cb state scopes pkce) \<and>
   list_all (\<lambda>(k, l). l \<noteq> []) (auth_params config cb state scopes pkce)"
  by (simp add: auth_params_def Let_def values_Set_wf)

lemma exchange_params_wf:
  "gm_wf (exchange_params config code verifier cb) \<and>
   list_all (\<lambda>(k, l). l \<noteq> []) (exchange_params config code verifier cb)"
  by (simp add: exchange_params_def values_Set_wf)

lemma BuildAuthorizationURL_state:
  assumes "BuildAuthorizationURL config rnd ep cb key scopes pkce = Inr (url, state)"
  obtains nonce where "state = key @ ''.'' @ nonce" "CHR ''.'' \<notin> set nonce"
  using assms that b64_encode_no_dot
  by (auto simp: BuildAuthorizationURL_def GenerateState_def Let_def split: sum.splits)

section \<open>Properties\<close>

text \<open>
  C20.  The proof key binds the two halves of the flow.  Read by any server that decodes query
  strings, the authorization URL carries the S256 challenge of exactly the verifier that the
  token request carries, both name the same client and the same callback, and the state in
  the URL is the state handed to the caller, which starts with the session key and a dot.
\<close>

theorem pkce_binding:
  assumes "GeneratePKCEChallenge rnd = Inr pkce"
    and "BuildAuthorizationURL config rnd' ep cb key scopes pkce = Inr (url, state)"
    and "exchange_request config tep code (Verifier pkce) cb = Inr req"
  shows "\<exists>u q nonce. url_Parse ep = Inr u \<and> url = url_String (u\<lparr>RawQuery := q\<rparr>) \<and>
    values_Get ''code_challenge'' (ParseQuery q) =
      b64_encode (Sum256 (values_Get ''code_verifier'' (ParseQuery (ReqBody req)))) \<and>
    values_Get ''code_challenge_method'' (ParseQuery q) = ''S256'' \<and>
    values_Get ''client_id'' (ParseQuery q) = values_Get ''client_id'' (ParseQuery (ReqBody req)) \<and>
    values_Get ''redirect_uri'' (ParseQuery q) = values_Get ''redirect_uri'' (ParseQuery (ReqBody req)) \<and>
    values_Get ''state'' (ParseQuery q) = state \<and> state = key @ ''.'' @ nonce \<and> CHR ''.'' \<notin> set nonce"
proof -
  have pkce: "Challenge pkce = b64_encode (Sum256 (Verifier pkce))" "Method pkce = ''S256''"
    using assms(1) by (auto simp: GeneratePKCEChallenge_def Let_def split: sum.splits)
  obtain nonce where state: "state = key @ ''.'' @ nonce" "CHR ''.'' \<notin> set nonce"
    using BuildAuthorizationURL_state [OF assms(2)] .
  let ?q = "Encode (auth_params config cb state scopes pkce)"
  obtain u where u: "url_Parse ep = Inr u" "url = url_String (u\<lparr>RawQuery := ?q\<rparr>)"
    using assms(2) by (auto simp: BuildAuthorizationURL_def Let_def split: sum.splits)
  have body: "ReqBody req = Encode (exchange_params config code (Verifier pkce) cb)"
    using assms(3) by (auto simp: exchange_request_def NewRequest_def set_header_def split: sum.splits)
  have q: "values_Get k (ParseQuery ?q) = values_Get k (auth_params config cb state scopes pkce)"
    and b: "values_Get k (ParseQuery (ReqBody req)) = values_Get k (exchange_params config code (Verifier pkce) cb)" for k
    unfolding body by (rule query_Get, rule auth_params_wf, rule query_Get, rule exchange_params_wf)
  have "values_Get ''code_challenge'' (ParseQuery ?q) =
      b64_encode (Sum256 (values_Get ''code_verifier'' (ParseQuery (ReqBody req))))"
    "values_Get ''code_challenge_method'' (ParseQuery ?q) = ''S256''"
    "values_Get ''client_id'' (ParseQuery ?q) = values_Get ''client_id'' (ParseQuery (ReqBody req))"
    "values_Get ''redirect_uri'' (ParseQuery ?q) = values_Get ''redirect_uri'' (ParseQuery (ReqBody req))"
    "values_Get ''state'' (ParseQuery ?q) = state"
    unfolding q b by (simp_all add: auth_params_def exchange_params_def Let_def values_Get_Set pkce)
  with u state show ?thesis by blast
qed

theorem pkce_binding_witness:
  "\<exists>pkce url state req u q.
     GeneratePKCEChallenge (Inr ''seed'') = Inr pkce \<and>
     BuildAuthorizationURL \<lparr>ClientID = ''id'', ClientSecret = ''sec''\<rparr> (Inr ''nonce'')
       ''https://h/authorize'' ''https://cb'' ''k'' [] pkce = Inr (url, state) \<and>
     exchange_request \<lparr>ClientID = ''id'', ClientSecret = ''sec''\<rparr> ''https://h/token'' ''code''
       (Verifier pkce) ''https://cb'' = Inr req \<and>
     url_Parse ''https://h/authorize'' = Inr u \<and> url = url_String (u\<lparr>RawQuery := q\<rparr>) \<and>
     values_Get ''state'' (ParseQuery q) = state"
proof -
  let ?c = "\<lparr>ClientID = ''id'', ClientSecret = ''sec''\<rparr>"
  obtain pkce where p: "GeneratePKCEChallenge (Inr ''seed'') = Inr pkce"
    by (simp add: GeneratePKCEChallenge_def Let_def)
  have "\<exists>r. BuildAuthorizationURL ?c (Inr ''nonce'') ''https://h/authorize'' ''https://cb'' ''k'' [] pkce = Inr r"
    by (simp add: BuildAuthorizationURL_def GenerateState_def url_eval)
  then obtain url state where b:
    "BuildAuthorizationURL ?c (Inr ''nonce'') ''https://h/authorize'' ''https://cb'' ''k'' [] pkce = Inr (url, state)"
    by auto
  obtain req where e: "exchange_request ?c ''https://h/token'' ''code'' (Verifier pkce) ''https://cb'' = Inr req"
    by (simp add: exchange_request_def NewRequest_def url_eval)
  from p b e pkce_binding [OF p b e] show ?thesis by blast
qed

text \<open>
   What discovery returns: both endpoints are non-empty whenever it succeeds; a complete
  per-server entry is used as it is, and otherwise a complete global configuration is, in
  either case whatever the network says; only http and https resources with a host are ever
  asked for their metadata.
\<close>

theorem discovery_resolution:
  assumes "DiscoverEndpoints config send r = Inr (auth, tok, scopes)"
  shows "auth \<noteq> [] \<and> tok \<noteq> [] \<and>
    ((\<forall>send'. DiscoverEndpoints config send' r = Inr (auth, tok, scopes)) \<or>
     http_url r \<and> (\<exists>req resp. send req = Inr resp \<and> StatusCode resp = 200))"
proof (cases "(\<exists>c. map_of (ResourceConfigs config) r = Some c \<and> RAuthorizationEndpoint c \<noteq> [] \<and> RTokenEndpoint c \<noteq> []) \<or>
    AuthorizationEndpoint config \<noteq> [] \<and> DTokenEndpoint config \<noteq> []")
  case True
  then have "DiscoverEndpoints config send' r = DiscoverEndpoints config send r" for send'
    by (auto simp: DiscoverEndpoints_def discover_global_def split: option.splits)
  moreover have "auth \<noteq> []" "tok \<noteq> []"
    using True assms by (auto simp: DiscoverEndpoints_def discover_global_def split: option.splits if_splits)
  ultimately show ?thesis using assms by simp
next
  case False
  then have g: "discover_global config send r = Inr (auth, tok, scopes)"
    using assms by (auto simp: DiscoverEndpoints_def split: option.splits if_splits)
  with False obtain m where h: "http_url r"
    and m: "fetch_metadata send (trim_suffix r ''/'' @ ''/.well-known/oauth-protected-resource'') = Inr m"
    and d: "derive_endpoints config r m = (auth, tok, scopes)"
    by (auto simp: discover_global_def split: sum.splits if_splits)
  have "\<exists>req resp. send req = Inr resp \<and> StatusCode resp = 200"
    using m unfolding fetch_metadata_def by (auto split: sum.splits if_splits)
  moreover have "auth \<noteq> [] \<and> tok \<noteq> []"
    using d by (auto simp: derive_endpoints_def Let_def split: option.splits if_splits)
  ultimately show ?thesis using h by blast
qed

theorem discovery_resolution_witness:
  "\<exists>req resp. (\<lambda>_. Inr \<lparr>StatusCode = 200, RespBody = ''{\"authorization_servers\":[\"https://as/\"]}'', RespReadErr = None\<rparr>)
     (req :: Request) = (Inr resp :: goerr + Response) \<and> StatusCode resp = 200 \<and> http_url ''http://r''"
proof -
  let ?c = "\<lparr>AuthorizationEndpoint = [], DTokenEndpoint = [], ScopesSupported = [], ResourceScopes = [], ResourceConfigs = []\<rparr>"
  let ?s = "(\<lambda>_. Inr \<lparr>StatusCode = 200, RespBody = ''{\"authorization_servers\":[\"https://as/\"]}'', RespReadErr = None\<rparr>) :: transport"
  have d: "DiscoverEndpoints ?c ?s ''http://r'' = Inr (''https://as/authorize'', ''https://as/access_token'', [])"
    by code_simp
  have n: "DiscoverEndpoints ?c (\<lambda>_. Inl (Sentinel [])) ''http://r'' \<noteq> Inr (''https://as/authorize'', ''https://as/access_token'', [])"
    by code_simp
  from discovery_resolution [OF d] n show ?thesis by blast
qed

text \<open>
   A per-server entry that overrides only one endpoint has no effect on the endpoints once
  a global pair is configured: the global pair is returned although per-server settings are
  documented to have the highest priority field by field.
\<close>

theorem partial_override_ignored:
  assumes "map_of (ResourceConfigs config) r = Some c"
    and "RAuthorizationEndpoint c = [] \<or> RTokenEndpoint c = []"
    and "AuthorizationEndpoint config \<noteq> []" "DTokenEndpoint config \<noteq> []"
  shows "\<exists>scopes. DiscoverEndpoints config send r =
    Inr (AuthorizationEndpoint config, DTokenEndpoint config, scopes)"
  using assms by (auto simp: DiscoverEndpoints_def discover_global_def)

theorem partial_override_ignored_witness:
  "\<exists>scopes. DiscoverEndpoints
     \<lparr>AuthorizationEndpoint = ''ga'', DTokenEndpoint = ''gt'', ScopesSupported = [], ResourceScopes = [],
      ResourceConfigs = [(''r'', \<lparr>RScopes = [], RAuthorizationEndpoint = ''own'', RTokenEndpoint = []\<rparr>)]\<rparr>
     (\<lambda>_. Inl (Sentinel [])) ''r'' = Inr (''ga'', ''gt'', scopes)"
  using partial_override_ignored [of "\<lparr>AuthorizationEndpoint = ''ga'', DTokenEndpoint = ''gt'',
      ScopesSupported = [], ResourceScopes = [],
      ResourceConfigs = [(''r'', \<lparr>RScopes = [], RAuthorizationEndpoint = ''own'', RTokenEndpoint = []\<rparr>)]\<rparr>" "''r''"]
  by simp

end
