(* ===== verification/TB_Broker.thy ===== *)
theory TB_Broker
  imports TB_Session TB_Cache TB_OAuth
begin

text \<open>
  Token acquisition (\<^verbatim>\<open>token-broker/internal/core/broker.go\<close>).  Requests run concurrently, and
  \<^verbatim>\<open>performOAuthFlow\<close> works on the shared session object without the manager's mutex, so
  \<^verbatim>\<open>AcquireToken\<close> and \<^verbatim>\<open>CompleteOAuth\<close> are state machines: one program point per access to shared
  state, one step of \<open>acquire_step\<close> or \<open>complete_step\<close> per access, and a relation that
  interleaves any number of requests with the session manager's operations, the timers, the
  backend's polls and cache sweeps.  A step yields the list of its possible outcomes (the
  enabled branches of a \<^verbatim>\<open>select\<close>); the empty list means the goroutine is blocked and \<^const>\<open>None\<close>
  is a panic.  Memory is taken to be sequentially consistent.
\<close>

section \<open>State\<close>

record TokenBroker =
  oauthClient :: Config
  discoverer :: DiscovererConfig
  callbackURL :: string
  waitTimeout :: duration

text \<open>What the outside world answers during one step: the clock, \<^verbatim>\<open>ctx.Err()\<close>, randomness, HTTP.\<close>

record env =
  Now :: gotime
  CtxErr :: "goerr option"
  Rand :: "goerr + string"
  Send :: transport

record request =
  RKey :: string
  RUser :: string
  RResource :: string

text \<open>
  Program points of \<^verbatim>\<open>AcquireToken\<close>; from \<open>ADiscover\<close> to \<open>AClear\<close> they are those of
  \<^verbatim>\<open>performOAuthFlow\<close>.  The address is the session object the goroutine holds.
\<close>

datatype apc =
    AValidate
  | ACache1
  | AGetSession
  | AAcquire nat
  | ACache2 nat
  | ADiscover nat
  | AGenerate nat string string "string list"
  | AStore nat string string "string list" PKCEChallenge
  | ABuild nat string string "string list" PKCEChallenge
  | APublish nat string string PKCEChallenge
  | AWait nat string PKCEChallenge gotime
  | AExchange nat string PKCEChallenge string
  | ASetToken nat string
  | ANotify nat string
  | AClear nat string
  | ARelease nat "goerr + string"
  | AEnd "goerr + string"

section \<open>AcquireToken\<close>

definition set_session :: "nat \<Rightarrow> (Session \<Rightarrow> Session) \<Rightarrow> SessionManager \<Rightarrow> SessionManager" where
  "set_session a f sm = sm\<lparr>store := (store sm)[a := f (store sm ! a)]\<rparr>"

text \<open>An assignment to a field of \<^verbatim>\<open>session.ActiveOAuthTx\<close>; a nil pointer panics.\<close>

definition set_tx :: "nat \<Rightarrow> (OAuthTransaction \<Rightarrow> OAuthTransaction) \<Rightarrow> SessionManager \<Rightarrow> SessionManager option" where
  "set_tx a f sm =
     (case ActiveOAuthTx (store sm ! a) of
        None \<Rightarrow> None
      | Some tx \<Rightarrow> Some (set_session a (\<lambda>s. s\<lparr>ActiveOAuthTx := Some (f tx)\<rparr>) sm))"

definition new_tx :: "string \<Rightarrow> string \<Rightarrow> string \<Rightarrow> string list \<Rightarrow> PKCEChallenge \<Rightarrow> OAuthTransaction" where
  "new_tx resourceURL authEndpoint tokenEndpoint scopes pkce =
     \<lparr>ResourceURL = resourceURL, AuthEndpoint = authEndpoint, TokenEndpoint = tokenEndpoint,
      Scopes = scopes, PKCE = pkce, CodeVerifier = Verifier pkce, TxState = [], CallbackURL = [],
      AuthURL = [], Status = OAuthTxStatusWaitingCode, CompletionChan = make_chan 1\<rparr>"

definition flow_failed :: "goerr \<Rightarrow> goerr + string" where
  "flow_failed e = Inl (Errorf [Lit ''OAuth flow failed: '', Wrap e])"

definition url_ready :: "string \<Rightarrow> Event" where
  "url_ready authURL = \<lparr>EventType = ''oauth_url_ready'', EventAuthURL = authURL, Message = [], EventCode = []\<rparr>"

type_synonym outcome = "apc \<times> SessionManager \<times> TokenCache"

definition publish_step :: "TokenBroker \<Rightarrow> env \<Rightarrow> nat \<Rightarrow> string \<Rightarrow> string \<Rightarrow> PKCEChallenge \<Rightarrow>
    SessionManager \<Rightarrow> TokenCache \<Rightarrow> outcome list option" where
  "publish_step tb e a authURL tokenEndpoint pkce sm tokens =
     (case try_send (url_ready authURL) (EventWaiters (store sm ! a)) of
        None \<Rightarrow> None
      | Some (sent, ev) \<Rightarrow>
          (let send_branch =
             (if sent then [(AWait a tokenEndpoint pkce (Now e + waitTimeout tb),
                             set_session a (\<lambda>s. s\<lparr>EventWaiters := ev\<rparr>) sm, tokens)] else []);
               ctx_branch =
             (case CtxErr e of
                None \<Rightarrow> []
              | Some err \<Rightarrow>
                  [(ARelease a (flow_failed (Errorf [Lit ''context cancelled while publishing event: '', Wrap err])), sm, tokens)])
           in Some (if send_branch @ ctx_branch \<noteq> [] then send_branch @ ctx_branch
                    else [(ARelease a (flow_failed (Errorf [Lit ''no event waiter available''])), sm, tokens)])))"

text \<open>The context of the wait is derived from the request's: it is done when either is.\<close>

definition wait_step :: "env \<Rightarrow> nat \<Rightarrow> string \<Rightarrow> PKCEChallenge \<Rightarrow> gotime \<Rightarrow>
    SessionManager \<Rightarrow> TokenCache \<Rightarrow> outcome list option" where
  "wait_step e a tokenEndpoint pkce deadline sm tokens =
     (case ActiveOAuthTx (store sm ! a) of
        None \<Rightarrow> None
      | Some tx \<Rightarrow>
          (let failed = set_session a (\<lambda>s. s\<lparr>ActiveOAuthTx := Some (tx\<lparr>Status := OAuthTxStatusFailed\<rparr>)\<rparr>) sm in
           Some (
             (case try_recv (CompletionChan tx) of
                None \<Rightarrow> []
              | Some (completion, ch) \<Rightarrow>
                  (let sm' = set_session a (\<lambda>s. s\<lparr>ActiveOAuthTx := Some (tx\<lparr>CompletionChan := ch\<rparr>)\<rparr>) sm in
                   case CompletionError completion of
                     Some err \<Rightarrow>
                       [(ARelease a (flow_failed (Errorf [Lit ''OAuth completion failed: '', Wrap err])), sm', tokens)]
                   | None \<Rightarrow> [(AExchange a tokenEndpoint pkce (Code completion), sm', tokens)])) @
             (if deadline \<le> Now e \<or> CtxErr e \<noteq> None
              then [(ARelease a (flow_failed (Errorf [Wrap (Sentinel ErrOAuthTimeout)])), failed, tokens)] else []) @
             (if Done (store sm ! a)
              then [(ARelease a (flow_failed (Errorf [Wrap (Sentinel ErrSessionEnded)])), failed, tokens)] else []) @
             (case CtxErr e of
                None \<Rightarrow> []
              | Some err \<Rightarrow>
                  [(ARelease a (flow_failed (Errorf [Lit ''context cancelled: '', Wrap err])), failed, tokens)]))))"

fun acquire_step :: "TokenBroker \<Rightarrow> env \<Rightarrow> request \<Rightarrow> apc \<Rightarrow> SessionManager \<Rightarrow> TokenCache \<Rightarrow> outcome list option" where
  "acquire_step tb e rq AValidate sm tokens =
     (case ValidateSession (RKey rq) (RUser rq) sm of
        Some err \<Rightarrow> Some [(AEnd (Inl (Errorf [Lit ''session validation failed: '', Wrap err])), sm, tokens)]
      | None \<Rightarrow> Some [(ACache1, sm, tokens)])"
| "acquire_step tb e rq ACache1 sm tokens =
     (case GetToken (RKey rq) (RResource rq) (Now e) tokens of
        Some token \<Rightarrow> Some [(AEnd (Inr token), sm, tokens)]
      | None \<Rightarrow> Some [(AGetSession, sm, tokens)])"
| "acquire_step tb e rq AGetSession sm tokens =
     (case GetSession (RKey rq) sm of
        Inl err \<Rightarrow> Some [(AEnd (Inl (Errorf [Lit ''failed to get session: '', Wrap err])), sm, tokens)]
      | Inr a \<Rightarrow> Some [(AAcquire a, sm, tokens)])"
| "acquire_step tb e rq (AAcquire a) sm tokens =
     Some (map (\<lambda>(err, s).
         case err of
           Some err' \<Rightarrow> (AEnd (Inl (Errorf [Lit ''failed to acquire semaphore: '', Wrap err'])), sm, tokens)
         | None \<Rightarrow> (ACache2 a, set_session a (\<lambda>ss. ss\<lparr>AcquisitionSemaphore := s\<rparr>) sm, tokens))
       (Acquire (CtxErr e) (AcquisitionSemaphore (store sm ! a))))"
| "acquire_step tb e rq (ACache2 a) sm tokens =
     (case GetToken (RKey rq) (RResource rq) (Now e) tokens of
        Some token \<Rightarrow> Some [(ARelease a (Inr token), sm, tokens)]
      | None \<Rightarrow> Some [(ADiscover a, sm, tokens)])"
| "acquire_step tb e rq (ADiscover a) sm tokens =
     (case DiscoverEndpoints (discoverer tb) (Send e) (RResource rq) of
        Inl err \<Rightarrow>
          Some [(ARelease a (flow_failed (Errorf
                   [Wrap (Sentinel ErrOAuthUpstream), Lit '': failed to discover OAuth endpoints: '', Wrap err])), sm, tokens)]
      | Inr (authEndpoint, tokenEndpoint, scopes) \<Rightarrow>
          Some [(AGenerate a authEndpoint tokenEndpoint scopes, sm, tokens)])"
| "acquire_step tb e rq (AGenerate a authEndpoint tokenEndpoint scopes) sm tokens =
     (case GeneratePKCEChallenge (Rand e) of
        Inl err \<Rightarrow>
          Some [(ARelease a (flow_failed (Errorf [Lit ''failed to generate PKCE challenge: '', Wrap err])), sm, tokens)]
      | Inr pkce \<Rightarrow> Some [(AStore a authEndpoint tokenEndpoint scopes pkce, sm, tokens)])"
| "acquire_step tb e rq (AStore a authEndpoint tokenEndpoint scopes pkce) sm tokens =
     Some [(ABuild a authEndpoint tokenEndpoint scopes pkce,
            set_session a (\<lambda>s. s\<lparr>ActiveOAuthTx :=
              Some (new_tx (RResource rq) authEndpoint tokenEndpoint scopes pkce)\<rparr>) sm, tokens)]"
| "acquire_step tb e rq (ABuild a authEndpoint tokenEndpoint scopes pkce) sm tokens =
     (case BuildAuthorizationURL (oauthClient tb) (Rand e) authEndpoint (callbackURL tb)
             (SessionKey (store sm ! a)) scopes pkce of
        Inl err \<Rightarrow>
          map_option (\<lambda>sm'. [(ARelease a (flow_failed (Errorf [Lit ''failed to build authorization URL: '', Wrap err])), sm', tokens)])
            (set_tx a (\<lambda>tx. tx\<lparr>Status := OAuthTxStatusFailed\<rparr>) sm)
      | Inr (authURL, state) \<Rightarrow>
          map_option (\<lambda>sm'. [(APublish a authURL tokenEndpoint pkce, sm', tokens)])
            (set_tx a (\<lambda>tx. tx\<lparr>AuthURL := authURL, CallbackURL := callbackURL tb, TxState := state\<rparr>) sm))"
| "acquire_step tb e rq (APublish a authURL tokenEndpoint pkce) sm tokens =
     publish_step tb e a authURL tokenEndpoint pkce sm tokens"
| "acquire_step tb e rq (AWait a tokenEndpoint pkce deadline) sm tokens =
     wait_step e a tokenEndpoint pkce deadline sm tokens"
| "acquire_step tb e rq (AExchange a tokenEndpoint pkce code) sm tokens =
     (case ExchangeToken (oauthClient tb) (Send e) tokenEndpoint code (Verifier pkce) (callbackURL tb) of
        Inl err \<Rightarrow>
          map_option (\<lambda>sm'. [(ARelease a (flow_failed (Errorf
              [Wrap (Sentinel ErrOAuthUpstream), Lit '': token exchange failed: '', Wrap err])), sm', tokens)])
            (set_tx a (\<lambda>tx. tx\<lparr>Status := OAuthTxStatusFailed\<rparr>) sm)
      | Inr (token, expiresIn) \<Rightarrow>
          map_option (\<lambda>sm'. [(ASetToken a token, sm', tokens)])
            (set_tx a (\<lambda>tx. tx\<lparr>Status := OAuthTxStatusCompleted\<rparr>) sm))"
| "acquire_step tb e rq (ASetToken a token) sm tokens =
     Some [(ANotify a token, sm,
            snd (SetToken (SessionKey (store sm ! a)) (RResource rq) token (Now e) (Now e) tokens))]"
| "acquire_step tb e rq (ANotify a token) sm tokens =
     (case map_of (TokenWaiters (store sm ! a)) (RResource rq) of
        None \<Rightarrow> Some [(AClear a token, sm, tokens)]
      | Some waiters \<Rightarrow>
          map_option (\<lambda>cs. [(AClear a token,
              set_session a (\<lambda>s. s\<lparr>TokenWaiters := AList.delete (RResource rq) (TokenWaiters s)\<rparr>)
                (sm\<lparr>wchans := cs\<rparr>), tokens)])
            (notify_waiters \<lparr>Token = token, ResultError = None\<rparr> waiters (wchans sm)))"
| "acquire_step tb e rq (AClear a token) sm tokens =
     Some [(ARelease a (Inr token), set_session a (\<lambda>s. s\<lparr>ActiveOAuthTx := None\<rparr>) sm, tokens)]"
| "acquire_step tb e rq (ARelease a res) sm tokens =
     Some [(AEnd res, set_session a (\<lambda>s. s\<lparr>AcquisitionSemaphore := Release (AcquisitionSemaphore s)\<rparr>) sm, tokens)]"
| "acquire_step tb e rq (AEnd res) sm tokens = Some []"

section \<open>CompleteOAuth\<close>

datatype cpc =
    CValidate
  | CGet
  | CCheck nat
  | CSend nat
  | CEnd "goerr option"

record completion =
  CKey :: string
  CUser :: string
  CCode :: string
  CState :: string

fun complete_step :: "completion \<Rightarrow> cpc \<Rightarrow> SessionManager \<Rightarrow> (cpc \<times> SessionManager) option" where
  "complete_step cq CValidate sm =
     (case ValidateSession (CKey cq) (CUser cq) sm of
        Some err \<Rightarrow> Some (CEnd (Some (Errorf [Lit ''session validation failed: '', Wrap err])), sm)
      | None \<Rightarrow> Some (CGet, sm))"
| "complete_step cq CGet sm =
     (case GetSession (CKey cq) sm of
        Inl err \<Rightarrow> Some (CEnd (Some (Errorf [Lit ''session not found: '', Wrap err])), sm)
      | Inr a \<Rightarrow> Some (CCheck a, sm))"
| "complete_step cq (CCheck a) sm =
     (if ActiveOAuthTx (store sm ! a) = None
      then Some (CEnd (Some (Errorf [Lit ''no active OAuth transaction''])), sm)
      else Some (CSend a, sm))"
| "complete_step cq (CSend a) sm =
     (case ActiveOAuthTx (store sm ! a) of
        None \<Rightarrow> None
      | Some tx \<Rightarrow>
          (case try_send \<lparr>Code = CCode cq, State = CState cq, CompletionError = None\<rparr> (CompletionChan tx) of
             None \<Rightarrow> None
           | Some (sent, ch) \<Rightarrow>
               Some (CEnd (if sent then None else Some (Errorf [Lit ''no waiter for OAuth completion''])),
                     set_session a (\<lambda>s. s\<lparr>ActiveOAuthTx := Some (tx\<lparr>CompletionChan := ch\<rparr>)\<rparr>) sm)))"
| "complete_step cq (CEnd r) sm = Some (CEnd r, sm)"

section \<open>Interleaving\<close>

record sys =
  SM :: SessionManager
  Tokens :: TokenCache
  Acqs :: "(request \<times> apc) list"
  Comps :: "(completion \<times> cpc) list"

definition init_sys :: "duration \<Rightarrow> int \<Rightarrow> sys" where
  "init_sys timeout m = \<lparr>SM = NewSessionManager timeout m, Tokens = NewTokenCache, Acqs = [], Comps = []\<rparr>"

inductive broker_step :: "TokenBroker \<Rightarrow> sys \<Rightarrow> sys \<Rightarrow> bool" for tb where
  start_acquire: "broker_step tb s (s\<lparr>Acqs := Acqs s @ [(rq, AValidate)]\<rparr>)"
| acquire: "i < length (Acqs s) \<Longrightarrow> Acqs s ! i = (rq, pc) \<Longrightarrow>
     acquire_step tb e rq pc (SM s) (Tokens s) = Some outs \<Longrightarrow> (pc', sm', tokens') \<in> set outs \<Longrightarrow>
     broker_step tb s (s\<lparr>Acqs := (Acqs s)[i := (rq, pc')], SM := sm', Tokens := tokens'\<rparr>)"
| start_complete: "broker_step tb s (s\<lparr>Comps := Comps s @ [(cq, CValidate)]\<rparr>)"
| complete: "i < length (Comps s) \<Longrightarrow> Comps s ! i = (cq, pc) \<Longrightarrow>
     complete_step cq pc (SM s) = Some (pc', sm') \<Longrightarrow>
     broker_step tb s (s\<lparr>SM := sm', Comps := (Comps s)[i := (cq, pc')]\<rparr>)"
| manager: "sm_apply x (SM s) = Some sm' \<Longrightarrow> broker_step tb s (s\<lparr>SM := sm'\<rparr>)"
| poll: "a < length (store (SM s)) \<Longrightarrow> try_recv (EventWaiters (store (SM s) ! a)) = Some (ev, ch) \<Longrightarrow>
     broker_step tb s (s\<lparr>SM := set_session a (\<lambda>ss. ss\<lparr>EventWaiters := ch\<rparr>) (SM s)\<rparr>)"
| sweep: "broker_step tb s (s\<lparr>Tokens := snd (CleanupExpiredTokens now (Tokens s))\<rparr>)"

inductive reachable :: "TokenBroker \<Rightarrow> duration \<Rightarrow> int \<Rightarrow> sys \<Rightarrow> bool" for tb timeout m where
  init: "reachable tb timeout m (init_sys timeout m)"
| step: "reachable tb timeout m s \<Longrightarrow> broker_step tb s s' \<Longrightarrow> reachable tb timeout m s'"

section \<open>Invariants\<close>

text \<open>The session whose semaphore a goroutine holds, and the one whose transaction it runs.\<close>

fun holds :: "apc \<Rightarrow> nat option" where
  "holds (ACache2 a) = Some a"
| "holds (ADiscover a) = Some a"
| "holds (AGenerate a _ _ _) = Some a"
| "holds (AStore a _ _ _ _) = Some a"
| "holds (ABuild a _ _ _ _) = Some a"
| "holds (APublish a _ _ _) = Some a"
| "holds (AWait a _ _ _) = Some a"
| "holds (AExchange a _ _ _) = Some a"
| "holds (ASetToken a _) = Some a"
| "holds (ANotify a _) = Some a"
| "holds (AClear a _) = Some a"
| "holds (ARelease a _) = Some a"
| "holds _ = None"

fun in_tx :: "apc \<Rightarrow> nat option" where
  "in_tx (ABuild a _ _ _ _) = Some a"
| "in_tx (APublish a _ _ _) = Some a"
| "in_tx (AWait a _ _ _) = Some a"
| "in_tx (AExchange a _ _ _) = Some a"
| "in_tx (ASetToken a _) = Some a"
| "in_tx (ANotify a _) = Some a"
| "in_tx (AClear a _) = Some a"
| "in_tx _ = None"

fun addr :: "apc \<Rightarrow> nat option" where
  "addr (AAcquire a) = Some a"
| "addr pc = holds pc"

fun caddr :: "cpc \<Rightarrow> nat option" where
  "caddr (CCheck a) = Some a"
| "caddr (CSend a) = Some a"
| "caddr _ = None"

text \<open>
  What a goroutine inside a flow finds in its session: its own transaction and, once the
  authorization URL is built, a state that leads back to the session.
\<close>

fun ready :: "apc \<Rightarrow> bool" where
  "ready (ABuild _ _ _ _ _) = False"
| "ready pc = (in_tx pc \<noteq> None)"

definition tx_inv :: "request \<Rightarrow> apc \<Rightarrow> Session \<Rightarrow> bool" where
  "tx_inv rq pc s \<longleftrightarrow>
     (case ActiveOAuthTx s of
        None \<Rightarrow> False
      | Some tx \<Rightarrow> ResourceURL tx = RResource rq \<and>
          (ready pc \<longrightarrow> (\<exists>nonce. TxState tx = SessionKey s @ ''.'' @ nonce \<and> CHR ''.'' \<notin> set nonce)))"

lemma tx_inv_ready: "ready pc = ready pc' \<Longrightarrow> tx_inv rq pc s = tx_inv rq pc' s"
  by (simp add: tx_inv_def split: option.split)

lemma tx_inv_cong:
  "ActiveOAuthTx t = ActiveOAuthTx s \<Longrightarrow> SessionKey t = SessionKey s \<Longrightarrow> tx_inv rq pc t = tx_inv rq pc s"
  by (simp add: tx_inv_def split: option.split)

lemma tx_inv_frame [simp]:
  "tx_inv rq pc (s\<lparr>EventWaiters := ev\<rparr>) = tx_inv rq pc s"
  "tx_inv rq pc (s\<lparr>AcquisitionSemaphore := c\<rparr>) = tx_inv rq pc s"
  by (simp_all add: tx_inv_def split: option.split)

lemma in_tx_holds: "in_tx pc = Some a \<Longrightarrow> holds pc = Some a"
  by (cases pc) simp_all

lemma holds_addr: "holds pc = Some a \<Longrightarrow> addr pc = Some a"
  by (cases pc) simp_all

definition chan_open :: "'a chan \<Rightarrow> bool" where
  "chan_open c \<longleftrightarrow> \<not> closed c \<and> cap c = 1"

definition tx_open :: "Session \<Rightarrow> bool" where
  "tx_open s \<longleftrightarrow> (case ActiveOAuthTx s of None \<Rightarrow> True | Some tx \<Rightarrow> chan_open (CompletionChan tx))"

text \<open>
  What the manager's operations leave alone: existing objects keep their identity, semaphore
  and transaction, and new objects start with a free semaphore and no transaction.
\<close>

definition same_core :: "Session \<Rightarrow> Session \<Rightarrow> bool" where
  "same_core s t \<longleftrightarrow> SessionKey t = SessionKey s \<and> UserID t = UserID s \<and>
     AcquisitionSemaphore t = AcquisitionSemaphore s \<and> ActiveOAuthTx t = ActiveOAuthTx s"

definition session_frame :: "SessionManager \<Rightarrow> SessionManager \<Rightarrow> bool" where
  "session_frame sm sm' \<longleftrightarrow> length (store sm) \<le> length (store sm') \<and>
     (\<forall>a < length (store sm). same_core (store sm ! a) (store sm' ! a)) \<and>
     (\<forall>a. length (store sm) \<le> a \<and> a < length (store sm') \<longrightarrow>
        holders (AcquisitionSemaphore (store sm' ! a)) = 0 \<and> ActiveOAuthTx (store sm' ! a) = None)"

lemma session_frame_refl [simp]: "session_frame sm sm"
  by (auto simp: session_frame_def same_core_def)

lemma session_frame_trans:
  assumes "session_frame s t" "session_frame t u"
  shows "session_frame s u"
  unfolding session_frame_def
proof (intro conjI allI impI)
  show "length (store s) \<le> length (store u)"
    using assms by (simp add: session_frame_def)
  show "same_core (store s ! a) (store u ! a)" if "a < length (store s)" for a
    using assms that by (auto simp: session_frame_def same_core_def)
  fix a assume a: "length (store s) \<le> a \<and> a < length (store u)"
  show "holders (AcquisitionSemaphore (store u ! a)) = 0" "ActiveOAuthTx (store u ! a) = None"
    using assms a by (cases "a < length (store t)"; auto simp: session_frame_def same_core_def)+
qed

lemma session_frame_store: "store sm' = store sm \<Longrightarrow> session_frame sm sm'"
  by (auto simp: session_frame_def same_core_def)

lemma session_frame_update:
  assumes "store sm' = (store sm)[a := t]" "a < length (store sm) \<Longrightarrow> same_core (store sm ! a) t"
  shows "session_frame sm sm'"
proof -
  have "same_core (store sm ! b) ((store sm)[a := t] ! b)" if "b < length (store sm)" for b
    using assms(2) that by (cases "b = a") (simp_all add: same_core_def)
  then show ?thesis by (auto simp: session_frame_def assms(1))
qed

lemma session_frame_cleanup:
  assumes "cleanupSessionLocked k a reason sm = Some sm'"
  shows "session_frame sm sm'"
proof -
  obtain d ev where "store sm' = (store sm)[a := (store sm ! a)\<lparr>Done := d, EventWaiters := ev\<rparr>]"
    using assms by (auto simp: cleanupSessionLocked_def Let_def split: Option.bind_splits if_splits)
  then show ?thesis by (rule session_frame_update) (simp add: same_core_def)
qed

lemma session_frame_cleanup_list:
  "cleanup_list l reason sm = Some sm' \<Longrightarrow> session_frame sm sm'"
proof (induction l arbitrary: sm)
  case (Cons ka rest)
  obtain k a where ka: "ka = (k, a)" by (cases ka)
  obtain sm1 where c: "cleanupSessionLocked k a reason sm = Some sm1" and r: "cleanup_list rest reason sm1 = Some sm'"
    using Cons.prems by (auto simp: ka split: Option.bind_splits)
  show ?case
    using session_frame_trans [OF session_frame_cleanup [OF c] Cons.IH [OF r]] .
qed simp

lemma session_frame_expire: "ExpireSession k sm = Some sm' \<Longrightarrow> session_frame sm sm'"
  by (auto simp: ExpireSession_def intro: session_frame_cleanup split: option.splits)

lemma session_frame_apply: "sm_apply x sm = Some sm' \<Longrightarrow> session_frame sm sm'"
proof (cases x)
  case (Create k u r now)
  assume "sm_apply x sm = Some sm'"
  then have c: "sm' = snd (CreateSession k u r now sm)" by (simp add: Create)
  show ?thesis
  proof (cases rule: CreateSession_cases [of k u r now sm])
    case full
    then show ?thesis by (simp add: c)
  next
    case (ok sm'')
    then show ?thesis
      by (auto simp: c session_frame_def same_core_def nth_append new_session_def sem_defs)
  qed
next
  case (End k)
  assume "sm_apply x sm = Some sm'"
  then show ?thesis
    by (auto simp: End EndSession_def intro: session_frame_cleanup split: option.splits)
next
  case (Reset k now)
  assume "sm_apply x sm = Some sm'"
  then have "sm' = ResetSessionTimer k now sm" by (simp add: Reset)
  then show ?thesis
    by (auto simp: ResetSessionTimer_def Let_def same_core_def session_frame_store intro!: session_frame_update split: option.splits)
next
  case (Start k now)
  assume "sm_apply x sm = Some sm'"
  then have "store sm' = store sm" by (auto simp: Start StartSessionTimer_def Let_def split: option.splits)
  then show ?thesis by (rule session_frame_store)
next
  case (Fire t now)
  assume "sm_apply x sm = Some sm'"
  then have "store sm' = store sm"
    by (auto simp: Fire fire_timer_def split: option.splits if_splits TimerState.splits)
  then show ?thesis by (rule session_frame_store)
next
  case (Run t)
  assume a: "sm_apply x sm = Some sm'"
  show ?thesis
  proof (cases "timer_fired t sm")
    case True
    then have "ExpireSession (TimerKey (timerStore sm ! t))
        (sm\<lparr>timerStore := (timerStore sm)[t := (timerStore sm ! t)\<lparr>TState := Ran\<rparr>]\<rparr>) = Some sm'"
      using a by (simp add: Run run_timer_def)
    from session_frame_expire [OF this] show ?thesis
      by (simp add: session_frame_def)
  next
    case False
    then show ?thesis using a by (simp add: Run)
  qed
next
  case Down
  assume "sm_apply x sm = Some sm'"
  then obtain ts where "cleanup_list (sessions sm) ''shutdown'' (sm\<lparr>shutdownChan := True, timerStore := ts, timers := []\<rparr>) = Some sm'"
    by (auto simp: Down Shutdown_def Let_def split: if_splits)
  from session_frame_cleanup_list [OF this] show ?thesis
    by (simp add: session_frame_def)
qed

definition count_held :: "(request \<times> apc) list \<Rightarrow> nat \<Rightarrow> nat" where
  "count_held acqs a = length (filter (\<lambda>(rq, pc). holds pc = Some a) acqs)"

text \<open>
  The invariant of the whole system: the session maps are consistent, a goroutine's session
  object carries the key of its request, the holders of a semaphore are the goroutines between
  acquisition and release, and a goroutine inside a flow finds its transaction.
\<close>

definition broker_inv :: "sys \<Rightarrow> bool" where
  "broker_inv s \<longleftrightarrow> sm_wf (SM s) \<and>
     (\<forall>(rq, pc) \<in> set (Acqs s). \<forall>a. addr pc = Some a \<longrightarrow>
        a < length (store (SM s)) \<and> SessionKey (store (SM s) ! a) = RKey rq) \<and>
     (\<forall>(cq, pc) \<in> set (Comps s). \<forall>a. caddr pc = Some a \<longrightarrow> a < length (store (SM s))) \<and>
     (\<forall>a < length (store (SM s)).
        holders (AcquisitionSemaphore (store (SM s) ! a)) = count_held (Acqs s) a \<and>
        tx_open (store (SM s) ! a)) \<and>
     (\<forall>(rq, pc) \<in> set (Acqs s). \<forall>a. in_tx pc = Some a \<longrightarrow> tx_inv rq pc (store (SM s) ! a))"

text \<open>The effect of one step of one goroutine.\<close>

definition local_ok :: "request \<Rightarrow> apc \<Rightarrow> SessionManager \<Rightarrow> apc \<Rightarrow> SessionManager \<Rightarrow> bool" where
  "local_ok rq pc sm pc' sm' \<longleftrightarrow>
     sm_wf sm' \<and> length (store sm') = length (store sm) \<and> sessions sm' = sessions sm \<and>
     userSessions sm' = userSessions sm \<and> maxSessionsPerUser sm' = maxSessionsPerUser sm \<and>
     (\<forall>b < length (store sm).
        SessionKey (store sm' ! b) = SessionKey (store sm ! b) \<and>
        UserID (store sm' ! b) = UserID (store sm ! b) \<and>
        tx_open (store sm' ! b) \<and>
        (holds pc \<noteq> Some b \<longrightarrow> ActiveOAuthTx (store sm' ! b) = ActiveOAuthTx (store sm ! b)) \<and>
        holders (AcquisitionSemaphore (store sm' ! b)) + (if holds pc = Some b then 1 else 0) =
        holders (AcquisitionSemaphore (store sm ! b)) + (if holds pc' = Some b then 1 else 0)) \<and>
     (\<forall>b. addr pc' = Some b \<longrightarrow> b < length (store sm) \<and> SessionKey (store sm ! b) = RKey rq) \<and>
     (\<forall>b. in_tx pc' = Some b \<longrightarrow> tx_inv rq pc' (store sm' ! b))"

text \<open>What a step may rely on.\<close>

definition local_pre :: "request \<Rightarrow> apc \<Rightarrow> SessionManager \<Rightarrow> bool" where
  "local_pre rq pc sm \<longleftrightarrow>
     sm_wf sm \<and>
     (\<forall>b. addr pc = Some b \<longrightarrow> b < length (store sm) \<and> SessionKey (store sm ! b) = RKey rq) \<and>
     (\<forall>b < length (store sm). tx_open (store sm ! b)) \<and>
     (\<forall>b. holds pc = Some b \<longrightarrow> 1 \<le> holders (AcquisitionSemaphore (store sm ! b))) \<and>
     (\<forall>b. in_tx pc = Some b \<longrightarrow> tx_inv rq pc (store sm ! b))"

lemma set_session_store [simp]:
  "length (store (set_session a f sm)) = length (store sm)"
  "sessions (set_session a f sm) = sessions sm"
  "userSessions (set_session a f sm) = userSessions sm"
  "maxSessionsPerUser (set_session a f sm) = maxSessionsPerUser sm"
  "b < length (store sm) \<Longrightarrow>
     store (set_session a f sm) ! b = (if b = a then f (store sm ! a) else store sm ! b)"
  by (simp_all add: set_session_def nth_list_update)

lemma set_session_wf:
  assumes "sm_wf sm" "a < length (store sm)" "session_ok (f (store sm ! a))"
    and "SessionKey (f (store sm ! a)) = SessionKey (store sm ! a)" "Done (f (store sm ! a)) = Done (store sm ! a)"
  shows "sm_wf (set_session a f sm)"
proof -
  have "\<forall>s \<in> set (store (set_session a f sm)). session_ok s"
    using assms(1,3) set_update_subset_insert [of "store sm" a "f (store sm ! a)"]
    by (auto simp: set_session_def sm_wf_def)
  with assms show ?thesis
    by (auto simp: sm_wf_def set_session_def nth_list_update)
qed

lemma store_ok: "sm_wf sm \<Longrightarrow> a < length (store sm) \<Longrightarrow> session_ok (store sm ! a)"
  by (simp add: sm_wf_def)

lemma local_same:
  assumes "local_pre rq pc sm" "holds pc' = holds pc"
    and "\<And>b. addr pc' = Some b \<Longrightarrow> b < length (store sm) \<and> SessionKey (store sm ! b) = RKey rq"
    and "\<And>b. in_tx pc' = Some b \<Longrightarrow> tx_inv rq pc' (store sm ! b)"
  shows "local_ok rq pc sm pc' sm"
  using assms by (auto simp: local_ok_def local_pre_def)

lemma local_events:
  assumes "local_pre rq pc sm" "holds pc = Some a" "holds pc' = Some a"
    and "in_tx pc' = Some a \<Longrightarrow> tx_inv rq pc' (store sm ! a)" and "cap ev = 1" "\<not> closed ev" "length (buf ev) \<le> 1"
  shows "local_ok rq pc sm pc' (set_session a (\<lambda>s. s\<lparr>EventWaiters := ev\<rparr>) sm)"
proof -
  have wf: "sm_wf sm" and a: "a < length (store sm)" "SessionKey (store sm ! a) = RKey rq"
    using assms(1) holds_addr [OF assms(2)] by (auto simp: local_pre_def)
  have "sm_wf (set_session a (\<lambda>s. s\<lparr>EventWaiters := ev\<rparr>) sm)"
    using set_session_wf [OF wf a(1)] store_ok [OF wf a(1)] assms(5-7) by (simp add: session_ok_def)
  moreover have "in_tx pc' = None \<or> in_tx pc' = Some a"
    using in_tx_holds [of pc'] assms(3) by (cases "in_tx pc'") simp_all
  ultimately show ?thesis
    using assms a holds_addr [OF assms(3)]
    by (elim disjE) (auto simp: local_ok_def local_pre_def tx_open_def)
qed

lemma local_tx:
  assumes "local_pre rq pc sm" "holds pc = Some a" "holds pc' = Some a"
    and "in_tx pc' = Some a \<Longrightarrow> tx_inv rq pc' ((store sm ! a)\<lparr>ActiveOAuthTx := t\<rparr>)"
    and "\<And>tx. t = Some tx \<Longrightarrow> chan_open (CompletionChan tx)"
  shows "local_ok rq pc sm pc' (set_session a (\<lambda>s. s\<lparr>ActiveOAuthTx := t\<rparr>) sm)"
proof -
  have wf: "sm_wf sm" and a: "a < length (store sm)" "SessionKey (store sm ! a) = RKey rq"
    using assms(1) holds_addr [OF assms(2)] by (auto simp: local_pre_def)
  have "sm_wf (set_session a (\<lambda>s. s\<lparr>ActiveOAuthTx := t\<rparr>) sm)"
    using set_session_wf [OF wf a(1)] store_ok [OF wf a(1)] by (simp add: session_ok_def)
  moreover have "in_tx pc' = None \<or> in_tx pc' = Some a"
    using in_tx_holds [of pc'] assms(3) by (cases "in_tx pc'") simp_all
  ultimately show ?thesis
    using assms a holds_addr [OF assms(3)]
    by (elim disjE) (auto simp: local_ok_def local_pre_def tx_open_def split: option.split)
qed

lemma local_release:
  assumes "local_pre rq (ARelease a r) sm"
  shows "local_ok rq (ARelease a r) sm (AEnd r)
    (set_session a (\<lambda>s. s\<lparr>AcquisitionSemaphore := Release (AcquisitionSemaphore s)\<rparr>) sm)"
proof -
  have wf: "sm_wf sm" and a: "a < length (store sm)" "1 \<le> holders (AcquisitionSemaphore (store sm ! a))"
    using assms by (auto simp: local_pre_def)
  let ?f = "\<lambda>s. s\<lparr>AcquisitionSemaphore := Release (AcquisitionSemaphore s)\<rparr>"
  have "session_ok (?f (store sm ! a))"
    using store_ok [OF wf a(1)] by (simp add: session_ok_def sem_wf_def)
  then have "sm_wf (set_session a ?f sm)"
    using set_session_wf [OF wf a(1)] by simp
  with assms a show ?thesis
    by (auto simp: local_ok_def local_pre_def tx_open_def)
qed

lemma local_acquired:
  assumes "local_pre rq (AAcquire a) sm" "(None, t) \<in> set (Acquire c (AcquisitionSemaphore (store sm ! a)))"
  shows "local_ok rq (AAcquire a) sm (ACache2 a) (set_session a (\<lambda>s. s\<lparr>AcquisitionSemaphore := t\<rparr>) sm)"
proof -
  have wf: "sm_wf sm" and a: "a < length (store sm)"
    using assms by (auto simp: local_pre_def)
  note h = Acquire_holders [OF assms(2)]
  have "session_ok ((store sm ! a)\<lparr>AcquisitionSemaphore := t\<rparr>)"
    using store_ok [OF wf a] h by (simp add: session_ok_def sem_wf_def)
  then have "sm_wf (set_session a (\<lambda>s. s\<lparr>AcquisitionSemaphore := t\<rparr>) sm)"
    using set_session_wf [OF wf a] by simp
  with assms a h show ?thesis
    by (auto simp: local_ok_def local_pre_def tx_open_def)
qed

lemma set_tx_Some:
  assumes "set_tx a f sm = Some sm'"
  obtains tx where "ActiveOAuthTx (store sm ! a) = Some tx"
    "sm' = set_session a (\<lambda>s. s\<lparr>ActiveOAuthTx := Some (f tx)\<rparr>) sm"
  using assms by (auto simp: set_tx_def split: option.splits)

lemma local_set_tx:
  assumes pre: "local_pre rq pc sm" "holds pc = Some a" "holds pc' = Some a"
    and set: "set_tx a f sm = Some sm'" and f: "\<And>tx. CompletionChan (f tx) = CompletionChan tx"
    and inv: "\<And>tx. ActiveOAuthTx (store sm ! a) = Some tx \<Longrightarrow> in_tx pc' = Some a \<Longrightarrow>
      tx_inv rq pc' ((store sm ! a)\<lparr>ActiveOAuthTx := Some (f tx)\<rparr>)"
  shows "local_ok rq pc sm pc' sm'"
proof (rule set_tx_Some [OF set])
  fix tx
  assume tx: "ActiveOAuthTx (store sm ! a) = Some tx"
    and sm': "sm' = set_session a (\<lambda>s. s\<lparr>ActiveOAuthTx := Some (f tx)\<rparr>) sm"
  have "tx_open (store sm ! a)"
    using pre(1) holds_addr [OF pre(2)] by (simp add: local_pre_def)
  then have "chan_open (CompletionChan (f tx))"
    using tx f by (simp add: tx_open_def)
  then show ?thesis unfolding sm' using inv [OF tx] by (intro local_tx [OF pre]) simp_all
qed

lemma local_publish:
  assumes pre: "local_pre rq (APublish a authURL tep pkce) sm"
    and out: "publish_step tb e a authURL tep pkce sm tokens = Some outs" "(pc', sm', tokens') \<in> set outs"
  shows "local_ok rq (APublish a authURL tep pkce) sm pc' sm'"
proof -
  have a: "a < length (store sm)" and ok: "session_ok (store sm ! a)"
    using pre store_ok by (auto simp: local_pre_def)
  obtain sent ev where s: "try_send (url_ready authURL) (EventWaiters (store sm ! a)) = Some (sent, ev)"
    using out(1) by (auto simp: publish_step_def split: option.splits)
  consider (send) "sent" "pc' = AWait a tep pkce (Now e + waitTimeout tb)" "sm' = set_session a (\<lambda>s. s\<lparr>EventWaiters := ev\<rparr>) sm"
    | (fail) r where "pc' = ARelease a r" "sm' = sm"
    using out s by (auto simp: publish_step_def Let_def split: if_splits option.splits)
  then show ?thesis
  proof cases
    case send
    have "cap ev = 1" "\<not> closed ev" "length (buf ev) \<le> 1"
      using s ok send(1) by (auto simp: try_send_def session_ok_def split: if_splits)
    then show ?thesis unfolding send(2,3)
      using pre by (intro local_events [OF pre]) (auto simp: local_pre_def tx_inv_def split: option.splits)
  next
    case fail
    then show ?thesis
      unfolding fail(2) using pre by (intro local_same [OF pre]) (auto simp: local_pre_def)
  qed
qed

lemma local_wait:
  assumes pre: "local_pre rq (AWait a tep pkce d) sm"
    and out: "wait_step e a tep pkce d sm tokens = Some outs" "(pc', sm', tokens') \<in> set outs"
  shows "local_ok rq (AWait a tep pkce d) sm pc' sm'"
proof -
  obtain tx where tx: "ActiveOAuthTx (store sm ! a) = Some tx"
    using out(1) by (auto simp: wait_step_def split: option.splits)
  have "chan_open (CompletionChan tx)"
    using pre tx by (auto simp: local_pre_def tx_open_def)
  moreover obtain tx' where "sm' = set_session a (\<lambda>s. s\<lparr>ActiveOAuthTx := Some tx'\<rparr>) sm"
    "chan_open (CompletionChan tx') = chan_open (CompletionChan tx)" "holds pc' = Some a"
    "TxState tx' = TxState tx" "ResourceURL tx' = ResourceURL tx"
    using out tx
    by (auto simp: wait_step_def Let_def try_recv_def chan_open_def split: option.splits list.splits if_splits)
  moreover have "tx_inv rq (AWait a tep pkce d) (store sm ! a)"
    using pre by (simp add: local_pre_def)
  ultimately show ?thesis using tx by (auto intro!: local_tx [OF pre] simp: tx_inv_def)
qed

lemma acquire_step_local:
  assumes pre: "local_pre rq pc sm"
    and out: "acquire_step tb e rq pc sm tokens = Some outs" "(pc', sm', tokens') \<in> set outs"
  shows "local_ok rq pc sm pc' sm'"
proof (cases pc)
  case AValidate
  then show ?thesis using out by (auto intro!: local_same [OF pre [unfolded AValidate]] split: option.splits)
next
  case ACache1
  then show ?thesis using out by (auto intro!: local_same [OF pre [unfolded ACache1]] split: option.splits)
next
  case AGetSession
  have "sm_wf sm" using pre by (simp add: local_pre_def)
  then show ?thesis
    using AGetSession out
    by (auto intro!: local_same [OF pre [unfolded AGetSession]] simp: GetSession_def sm_wf_live split: option.splits)
next
  case (AAcquire a)
  from out[unfolded AAcquire] obtain err t where t: "(err, t) \<in> set (Acquire (CtxErr e) (AcquisitionSemaphore (store sm ! a)))"
    and o: "(pc', sm', tokens') = (case err of
           Some err' \<Rightarrow> (AEnd (Inl (Errorf [Lit ''failed to acquire semaphore: '', Wrap err'])), sm, tokens)
         | None \<Rightarrow> (ACache2 a, set_session a (\<lambda>ss. ss\<lparr>AcquisitionSemaphore := t\<rparr>) sm, tokens))"
    by auto
  show ?thesis
  proof (cases err)
    case None
    then show ?thesis using o t local_acquired [OF pre [unfolded AAcquire]] by (auto simp: AAcquire)
  next
    case (Some x)
    then show ?thesis using o AAcquire by (auto intro!: local_same [OF pre [unfolded AAcquire]])
  qed
next
  case (ACache2 a)
  then show ?thesis using out pre [unfolded ACache2] by (auto intro!: local_same [OF pre [unfolded ACache2]] simp: local_pre_def split: option.splits)
next
  case (ADiscover a)
  then show ?thesis using out pre [unfolded ADiscover] by (auto intro!: local_same [OF pre [unfolded ADiscover]] simp: local_pre_def split: sum.splits)
next
  case (AGenerate a x y z)
  then show ?thesis using out pre [unfolded AGenerate] by (auto intro!: local_same [OF pre [unfolded AGenerate]] simp: local_pre_def split: sum.splits)
next
  case (AStore a x y z p)
  then show ?thesis
    using out by (auto intro!: local_tx [OF pre [unfolded AStore]] simp: new_tx_def make_chan_def chan_open_def tx_inv_def)
next
  case (ABuild a x y z p)
  have tx: "tx_inv rq (ABuild a x y z p) (store sm ! a)"
    using pre by (simp add: ABuild local_pre_def)
  show ?thesis
  proof (cases "BuildAuthorizationURL (oauthClient tb) (Rand e) x (callbackURL tb) (SessionKey (store sm ! a)) z p")
    case (Inl err)
    then show ?thesis using ABuild out by (auto intro!: local_set_tx [OF pre [unfolded ABuild]])
  next
    case (Inr r)
    obtain authURL state where r: "r = (authURL, state)" by (cases r)
    obtain nonce where n: "state = SessionKey (store sm ! a) @ ''.'' @ nonce" "CHR ''.'' \<notin> set nonce"
      using BuildAuthorizationURL_state [OF Inr [unfolded r]] .
    then show ?thesis
      using ABuild out Inr tx
      by (auto intro!: local_set_tx [OF pre [unfolded ABuild]] simp: r tx_inv_def)
  qed
next
  case (APublish a x y p)
  then show ?thesis using out local_publish [OF pre [unfolded APublish]] by simp
next
  case (AWait a x p d)
  then show ?thesis using out local_wait [OF pre [unfolded AWait]] by simp
next
  case (AExchange a x p c)
  have "tx_inv rq (AExchange a x p c) (store sm ! a)"
    using pre by (simp add: AExchange local_pre_def)
  then show ?thesis
    using AExchange out
    by (auto intro!: local_set_tx [OF pre [unfolded AExchange]] simp: tx_inv_def split: sum.splits)
next
  case (ASetToken a t)
  then show ?thesis
    using out pre [unfolded ASetToken]
    by (auto intro!: local_same [OF pre [unfolded ASetToken]] simp: local_pre_def
        tx_inv_ready [of "ASetToken a t" "ANotify a t"])
next
  case (ANotify a t)
  have "TokenWaiters (store sm ! a) = []"
    using pre store_ok [of sm a] by (simp add: local_pre_def ANotify session_ok_def)
  then show ?thesis
    using ANotify out pre [unfolded ANotify]
    by (auto intro!: local_same [OF pre [unfolded ANotify]] simp: local_pre_def
        tx_inv_ready [of "ANotify a t" "AClear a t"])
next
  case (AClear a t)
  then show ?thesis using out by (auto intro!: local_tx [OF pre [unfolded AClear]])
next
  case (ARelease a r)
  then show ?thesis using out local_release [OF pre [unfolded ARelease]] by auto
next
  case (AEnd r)
  then show ?thesis using out by simp
qed

lemma length_filter_update:
  "i < length xs \<Longrightarrow> length (filter P (xs[i := y])) + (if P (xs ! i) then 1 else 0) =
     length (filter P xs) + (if P y then 1 else 0)"
proof (induction xs arbitrary: i)
  case (Cons x xs)
  show ?case
  proof (cases i)
    case 0
    then show ?thesis by simp
  next
    case (Suc j)
    with Cons.prems have "j < length xs" by simp
    from Cons.IH [OF this] Suc show ?thesis by simp
  qed
qed simp

lemma count_held_update:
  "i < length acqs \<Longrightarrow> acqs ! i = (rq, pc) \<Longrightarrow>
     count_held (acqs[i := (rq, pc')]) a + (if holds pc = Some a then 1 else 0) =
     count_held acqs a + (if holds pc' = Some a then 1 else 0)"
  using length_filter_update [of i acqs "\<lambda>(rq, pc). holds pc = Some a" "(rq, pc')"] by (simp add: count_held_def)

lemma count_held_ge:
  assumes "i < length acqs" "acqs ! i = (rq, pc)" "holds pc = Some a"
  shows "1 \<le> count_held acqs a"
proof -
  have "(rq, pc) \<in> set (filter (\<lambda>(rq, pc). holds pc = Some a) acqs)"
    using assms nth_mem [of i acqs] by auto
  then have "filter (\<lambda>(rq, pc). holds pc = Some a) acqs \<noteq> []" by force
  then show ?thesis by (cases "filter (\<lambda>(rq, pc). holds pc = Some a) acqs") (auto simp: count_held_def)
qed

lemma length_filter_ge2:
  assumes "i < j" "j < length xs" "P (xs ! i)" "P (xs ! j)"
  shows "2 \<le> length (filter P xs)"
proof -
  have "card {i, j} \<le> card {k. k < length xs \<and> P (xs ! k)}"
    using assms by (intro card_mono) auto
  with assms(1) show ?thesis by (simp add: length_filter_conv_card)
qed

lemma count_held_two:
  assumes "i < j" "j < length acqs" "holds (snd (acqs ! i)) = Some a" "holds (snd (acqs ! j)) = Some a"
  shows "2 \<le> count_held acqs a"
  unfolding count_held_def using assms
  by (intro length_filter_ge2 [of i j]) (auto simp: split_beta)

lemma inv_local_pre:
  assumes "broker_inv s" "i < length (Acqs s)" "Acqs s ! i = (rq, pc)"
  shows "local_pre rq pc (SM s)"
proof -
  have mem: "(rq, pc) \<in> set (Acqs s)" using assms(2,3) nth_mem by force
  have "1 \<le> holders (AcquisitionSemaphore (store (SM s) ! b))" if "holds pc = Some b" for b
    using assms(1) mem holds_addr [OF that] count_held_ge [OF assms(2,3) that] by (auto simp: broker_inv_def)
  with assms(1) mem show ?thesis by (auto simp: local_pre_def broker_inv_def)
qed

lemma inv_mutex:
  assumes "broker_inv s" "i < length (Acqs s)" "j < length (Acqs s)"
    and "holds (snd (Acqs s ! i)) = Some a" "holds (snd (Acqs s ! j)) = Some a"
  shows "i = j"
proof (rule ccontr)
  assume ne: "i \<noteq> j"
  have "2 \<le> count_held (Acqs s) a"
    using ne assms(2-5) count_held_two [of i j] count_held_two [of j i] by (cases "i < j") auto
  moreover have "a < length (store (SM s))"
    using inv_local_pre [OF assms(1,2) surjective_pairing] holds_addr [OF assms(4)]
    by (simp add: local_pre_def)
  moreover have "session_ok (store (SM s) ! a)"
    using assms(1) calculation(2) store_ok by (simp add: broker_inv_def)
  ultimately show False
    using assms(1) by (auto simp: broker_inv_def session_ok_def sem_wf_def)
qed

lemma Acqs_nth: "(rq, pc) \<in> set xs \<longleftrightarrow> (\<exists>i < length xs. xs ! i = (rq, pc))"
  by (auto simp: in_set_conv_nth)

lemma inv_acquire:
  assumes inv: "broker_inv s" and i: "i < length (Acqs s)" "Acqs s ! i = (rq, pc)"
    and out: "acquire_step tb e rq pc (SM s) (Tokens s) = Some outs" "(pc', sm', tokens') \<in> set outs"
  shows "broker_inv (s\<lparr>Acqs := (Acqs s)[i := (rq, pc')], SM := sm', Tokens := tokens'\<rparr>)"
proof -
  have lo: "local_ok rq pc (SM s) pc' sm'"
    by (rule acquire_step_local [OF inv_local_pre [OF inv i] out])
  then have len: "length (store sm') = length (store (SM s))" and wf: "sm_wf sm'"
    by (simp_all add: local_ok_def)
  have sem: "holders (AcquisitionSemaphore (store sm' ! a)) = count_held ((Acqs s)[i := (rq, pc')]) a \<and> tx_open (store sm' ! a)"
    if "a < length (store sm')" for a
    using lo inv that count_held_update [OF i, of pc' a] by (auto simp: local_ok_def broker_inv_def)
  have other: "(rq2, pc2) \<in> set (Acqs s) \<and> (in_tx pc2 = Some a \<longrightarrow> holds pc \<noteq> Some a) \<or> (rq2, pc2) = (rq, pc')"
    if in2: "(rq2, pc2) \<in> set ((Acqs s)[i := (rq, pc')])" for rq2 pc2 a
  proof -
    obtain j where j: "j < length (Acqs s)" "(Acqs s)[i := (rq, pc')] ! j = (rq2, pc2)"
      using in2 by (auto simp: in_set_conv_nth)
    show ?thesis
    proof (cases "j = i")
      case True
      then show ?thesis using i j by simp
    next
      case False
      then have j2: "Acqs s ! j = (rq2, pc2)" using j by simp
      then have "in_tx pc2 = Some a \<Longrightarrow> holds pc \<noteq> Some a"
        using inv_mutex [OF inv i(1) j(1), of a] False i(2) in_tx_holds by auto
      moreover have "(rq2, pc2) \<in> set (Acqs s)" using nth_mem [OF j(1)] j2 by simp
      ultimately show ?thesis by blast
    qed
  qed
  have "a < length (store sm') \<and> SessionKey (store sm' ! a) = RKey rq2"
    if "(rq2, pc2) \<in> set ((Acqs s)[i := (rq, pc')])" "addr pc2 = Some a" for rq2 pc2 a
    using other [OF that(1), of a]
  proof
    assume "(rq2, pc2) \<in> set (Acqs s) \<and> (in_tx pc2 = Some a \<longrightarrow> holds pc \<noteq> Some a)"
    then have "a < length (store (SM s))" "SessionKey (store (SM s) ! a) = RKey rq2"
      using inv that(2) by (auto simp: broker_inv_def)
    then show ?thesis using lo by (simp add: local_ok_def)
  next
    assume "(rq2, pc2) = (rq, pc')"
    then show ?thesis using that(2) lo by (simp add: local_ok_def)
  qed
  moreover have "tx_inv rq2 pc2 (store sm' ! a)"
    if "(rq2, pc2) \<in> set ((Acqs s)[i := (rq, pc')])" "in_tx pc2 = Some a" for rq2 pc2 a
    using other [OF that(1), of a]
  proof
    assume o: "(rq2, pc2) \<in> set (Acqs s) \<and> (in_tx pc2 = Some a \<longrightarrow> holds pc \<noteq> Some a)"
    then have "a < length (store (SM s))" "tx_inv rq2 pc2 (store (SM s) ! a)"
      using inv that(2) holds_addr [OF in_tx_holds [OF that(2)]] by (auto simp: broker_inv_def)
    moreover have "ActiveOAuthTx (store sm' ! a) = ActiveOAuthTx (store (SM s) ! a)"
      "SessionKey (store sm' ! a) = SessionKey (store (SM s) ! a)"
      using o that(2) lo calculation(1) by (simp_all add: local_ok_def)
    ultimately show ?thesis using tx_inv_cong by blast
  next
    assume "(rq2, pc2) = (rq, pc')"
    then show ?thesis using that(2) lo by (simp add: local_ok_def)
  qed
  ultimately show ?thesis
    using inv wf sem len by (auto simp: broker_inv_def)
qed

lemma inv_frame:
  assumes inv: "broker_inv s" and wf: "sm_wf sm'" and f: "session_frame (SM s) sm'"
  shows "broker_inv (s\<lparr>SM := sm'\<rparr>)"
proof -
  have old: "SessionKey (store sm' ! a) = SessionKey (store (SM s) ! a)"
    "ActiveOAuthTx (store sm' ! a) = ActiveOAuthTx (store (SM s) ! a)"
    "AcquisitionSemaphore (store sm' ! a) = AcquisitionSemaphore (store (SM s) ! a)"
    "a < length (store sm')" if "a < length (store (SM s))" for a
    using f that by (simp_all add: session_frame_def same_core_def)
  have addr: "a < length (store (SM s))" if "(rq, pc) \<in> set (Acqs s)" "addr pc = Some a" for rq pc a
    using inv that by (auto simp: broker_inv_def)
  have fresh: "count_held (Acqs s) a = 0" if "length (store (SM s)) \<le> a" for a
  proof -
    have "holds pc \<noteq> Some a" if "(rq, pc) \<in> set (Acqs s)" for rq pc
      using addr [OF that, of a] holds_addr [of pc a] \<open>length (store (SM s)) \<le> a\<close> by auto
    then have "filter (\<lambda>(rq, pc). holds pc = Some a) (Acqs s) = []"
      by (auto simp: filter_empty_conv)
    then show ?thesis by (simp add: count_held_def)
  qed
  have "holders (AcquisitionSemaphore (store sm' ! a)) = count_held (Acqs s) a \<and> tx_open (store sm' ! a)"
    if "a < length (store sm')" for a
  proof (cases "a < length (store (SM s))")
    case True
    then show ?thesis using inv old [OF True] by (simp add: broker_inv_def tx_open_def)
  next
    case False
    then show ?thesis using f that fresh [of a] by (simp add: session_frame_def tx_open_def)
  qed
  moreover have "\<forall>(rq, pc) \<in> set (Acqs s). \<forall>a. addr pc = Some a \<longrightarrow>
      a < length (store sm') \<and> SessionKey (store sm' ! a) = RKey rq"
    using inv old by (auto simp: broker_inv_def)
  moreover have "tx_inv rq pc (store sm' ! a)"
    if "(rq, pc) \<in> set (Acqs s)" "in_tx pc = Some a" for rq pc a
  proof -
    have "a < length (store (SM s))"
      by (rule addr [OF that(1) holds_addr [OF in_tx_holds [OF that(2)]]])
    moreover have "tx_inv rq pc (store (SM s) ! a)"
      using inv that unfolding broker_inv_def by blast
    ultimately show ?thesis using tx_inv_cong [OF old(2,1)] by blast
  qed
  moreover have "\<forall>(cq, pc) \<in> set (Comps s). \<forall>a. caddr pc = Some a \<longrightarrow> a < length (store sm')"
    using inv old by (auto simp: broker_inv_def)
  ultimately show ?thesis using wf unfolding broker_inv_def by auto
qed

lemma inv_set_tx:
  assumes inv: "broker_inv s" and a: "a < length (store (SM s))"
    and tx: "ActiveOAuthTx (store (SM s) ! a) = Some tx"
    and tx': "chan_open (CompletionChan tx')" "TxState tx' = TxState tx" "ResourceURL tx' = ResourceURL tx"
  shows "broker_inv (s\<lparr>SM := set_session a (\<lambda>ss. ss\<lparr>ActiveOAuthTx := Some tx'\<rparr>) (SM s)\<rparr>)"
proof -
  let ?sm = "set_session a (\<lambda>ss. ss\<lparr>ActiveOAuthTx := Some tx'\<rparr>) (SM s)"
  have wf: "sm_wf (SM s)" using inv by (simp add: broker_inv_def)
  have "sm_wf ?sm"
    using set_session_wf [OF wf a] store_ok [OF wf a] by (simp add: session_ok_def)
  moreover have "tx_inv rq pc (store ?sm ! b)"
    if "(rq, pc) \<in> set (Acqs s)" "in_tx pc = Some b" for rq pc b
  proof -
    have "b < length (store (SM s))" "tx_inv rq pc (store (SM s) ! b)"
      using inv that holds_addr [OF in_tx_holds [OF that(2)]] unfolding broker_inv_def by blast+
    then show ?thesis using tx tx' by (auto simp: tx_inv_def)
  qed
  moreover have "holders (AcquisitionSemaphore (store ?sm ! b)) = count_held (Acqs s) b \<and> tx_open (store ?sm ! b)"
    if "b < length (store (SM s))" for b
    using inv that tx'(1) by (auto simp: broker_inv_def tx_open_def)
  moreover have "b < length (store ?sm) \<and> SessionKey (store ?sm ! b) = RKey rq"
    if "(rq, pc) \<in> set (Acqs s)" "addr pc = Some b" for rq pc b
    using inv that by (auto simp: broker_inv_def)
  ultimately show ?thesis using inv unfolding broker_inv_def by auto
qed

lemma set_session_quota: "quota_ok (set_session a f sm) = quota_ok sm"
  by (simp add: quota_ok_def user_keys_def)

lemma complete_step_cases:
  assumes "complete_step cq pc sm = Some (pc', sm')"
  obtains (same) "sm' = sm" "\<forall>a. caddr pc' = Some a \<longrightarrow> caddr pc = Some a \<or> map_of (sessions sm) (CKey cq) = Some a"
    | (send) a tx ch where "pc = CSend a" "caddr pc' = None" "ActiveOAuthTx (store sm ! a) = Some tx"
        "sm' = set_session a (\<lambda>s. s\<lparr>ActiveOAuthTx := Some (tx\<lparr>CompletionChan := ch\<rparr>)\<rparr>) sm"
        "chan_open ch = chan_open (CompletionChan tx)"
proof (cases pc)
  case CValidate
  then show thesis using assms that(1) by (auto split: option.splits)
next
  case CGet
  then show thesis using assms that(1) by (auto simp: GetSession_def split: option.splits)
next
  case (CCheck a)
  then show thesis using assms that(1) by (auto split: if_splits)
next
  case (CSend a)
  with assms obtain tx sent ch where tx: "ActiveOAuthTx (store sm ! a) = Some tx"
    and ch: "try_send \<lparr>Code = CCode cq, State = CState cq, CompletionError = None\<rparr> (CompletionChan tx) = Some (sent, ch)"
    and out: "caddr pc' = None" "sm' = set_session a (\<lambda>s. s\<lparr>ActiveOAuthTx := Some (tx\<lparr>CompletionChan := ch\<rparr>)\<rparr>) sm"
    by (auto split: option.splits)
  have "chan_open ch = chan_open (CompletionChan tx)"
    using ch by (auto simp: try_send_def chan_open_def split: if_splits)
  then show thesis by (rule that(2) [OF CSend out(1) tx out(2)])
next
  case (CEnd r)
  then show thesis using assms that(1) by auto
qed

lemma inv_Comps:
  assumes "broker_inv s" "\<And>cq pc a. (cq, pc) \<in> set cs \<Longrightarrow> caddr pc = Some a \<Longrightarrow> a < length (store (SM s))"
  shows "broker_inv (s\<lparr>Comps := cs\<rparr>)"
  using assms unfolding broker_inv_def by auto

lemma inv_complete:
  assumes inv: "broker_inv s" "quota_ok (SM s)" and i: "i < length (Comps s)" "Comps s ! i = (cq, pc)"
    and c: "complete_step cq pc (SM s) = Some (pc', sm')"
  shows "broker_inv (s\<lparr>SM := sm', Comps := (Comps s)[i := (cq, pc')]\<rparr>) \<and> quota_ok sm'"
proof -
  have old: "a < length (store (SM s))" if "(cq2, pc2) \<in> set (Comps s)" "caddr pc2 = Some a" for cq2 pc2 a
    using inv(1) that unfolding broker_inv_def by blast
  have mem: "(cq, pc) \<in> set (Comps s)" using nth_mem [OF i(1)] i(2) by simp
  have upd: "x = (cq, pc') \<or> x \<in> set (Comps s)" if "x \<in> set ((Comps s)[i := (cq, pc')])" for x
    using that set_update_subset_insert [of "Comps s" i "(cq, pc')"] by blast
  from c show ?thesis
  proof (cases rule: complete_step_cases)
    case same
    have "broker_inv (s\<lparr>Comps := (Comps s)[i := (cq, pc')]\<rparr>)"
    proof (rule inv_Comps [OF inv(1)])
      fix cq2 pc2 a assume in2: "(cq2, pc2) \<in> set ((Comps s)[i := (cq, pc')])" and ad: "caddr pc2 = Some a"
      from upd [OF in2] show "a < length (store (SM s))"
      proof
        assume "(cq2, pc2) = (cq, pc')"
        then show ?thesis
          using same(2) ad old [OF mem] inv(1) sm_wf_live(1) unfolding broker_inv_def by blast
      qed (use old ad in blast)
    qed
    then show ?thesis using inv(2) same(1) by simp
  next
    case (send a tx ch)
    have a: "a < length (store (SM s))" using old [OF mem] send(1) by simp
    have "tx_open (store (SM s) ! a)" using inv(1) a by (simp add: broker_inv_def)
    then have "chan_open ch" using send(3,5) by (simp add: tx_open_def)
    then have *: "broker_inv (s\<lparr>SM := sm'\<rparr>)"
      unfolding send(4) by (intro inv_set_tx [OF inv(1) a send(3)]) simp_all
    have "broker_inv (s\<lparr>SM := sm'\<rparr>\<lparr>Comps := (Comps s)[i := (cq, pc')]\<rparr>)"
    proof (rule inv_Comps [OF *])
      fix cq2 pc2 b assume in2: "(cq2, pc2) \<in> set ((Comps s)[i := (cq, pc')])" and ad: "caddr pc2 = Some b"
      from upd [OF in2] show "b < length (store (SM (s\<lparr>SM := sm'\<rparr>)))"
        using ad old send(2,4) by auto
    qed
    then show ?thesis using inv(2) by (simp add: send(4) set_session_quota)
  qed
qed

lemma inv_poll:
  assumes inv: "broker_inv s" and a: "a < length (store (SM s))"
    and r: "try_recv (EventWaiters (store (SM s) ! a)) = Some (ev, ch)"
  shows "broker_inv (s\<lparr>SM := set_session a (\<lambda>ss. ss\<lparr>EventWaiters := ch\<rparr>) (SM s)\<rparr>)"
proof (rule inv_frame [OF inv])
  have wf: "sm_wf (SM s)" using inv by (simp add: broker_inv_def)
  have "cap ch = 1 \<and> \<not> closed ch \<and> length (buf ch) \<le> 1"
    using store_ok [OF wf a] r by (auto simp: session_ok_def try_recv_def split: list.splits)
  then show "sm_wf (set_session a (\<lambda>ss. ss\<lparr>EventWaiters := ch\<rparr>) (SM s))"
    using set_session_wf [OF wf a] store_ok [OF wf a] by (simp add: session_ok_def)
  show "session_frame (SM s) (set_session a (\<lambda>ss. ss\<lparr>EventWaiters := ch\<rparr>) (SM s))"
    by (rule session_frame_update [of _ _ a "(store (SM s) ! a)\<lparr>EventWaiters := ch\<rparr>"])
       (simp_all add: set_session_def same_core_def)
qed

lemma inv_step:
  assumes "broker_step tb s s'" "broker_inv s" "quota_ok (SM s)"
  shows "broker_inv s' \<and> quota_ok (SM s')"
  using assms
proof (induction rule: broker_step.induct)
  case (start_acquire s rq)
  then show ?case by (auto simp: broker_inv_def count_held_def)
next
  case (acquire i s rq pc e outs pc' sm' tokens')
  have "local_ok rq pc (SM s) pc' sm'"
    by (rule acquire_step_local [OF inv_local_pre [OF acquire.prems(1) acquire.hyps(1,2)] acquire.hyps(3,4)])
  then have "quota_ok sm'"
    using acquire.prems(2) by (simp add: local_ok_def quota_ok_def user_keys_def)
  then show ?case using inv_acquire [OF acquire.prems(1) acquire.hyps] by simp
next
  case (start_complete s cq)
  then show ?case by (auto simp: broker_inv_def)
next
  case (complete i s cq pc pc' sm')
  then show ?case using inv_complete by simp
next
  case (manager x s sm')
  have wf: "sm_wf (SM s)" using manager.prems by (simp add: broker_inv_def)
  have "sm_wf sm'" "quota_ok sm'"
    using sm_run_wf [of "SM s" "[x]" sm'] wf manager by simp_all
  then show ?case
    using inv_frame [OF manager.prems(1) _ session_frame_apply [OF manager.hyps]] by simp
next
  case (poll a s ev ch)
  then show ?case using inv_poll by (simp add: set_session_quota)
next
  case (sweep s now)
  then show ?case by (auto simp: broker_inv_def)
qed

lemma reachable_inv: "reachable tb timeout m s \<Longrightarrow> broker_inv s \<and> quota_ok (SM s)"
proof (induction rule: reachable.induct)
  case init
  then show ?case
    by (simp add: init_sys_def broker_inv_def) (simp add: NewSessionManager_def)
next
  case (step s s')
  then show ?case using inv_step by blast
qed

end
