(* ===== verification/TB_Flow.thy ===== *)
theory TB_Flow
  imports TB_Broker
begin

text \<open>
  Properties of concurrent token acquisition, over the step relation of \<open>TB_Broker\<close>: mutual
  exclusion and absence of panics, bounded work and progress of every request, delivery of
  the callback to the flow that waits for it, separation of the cached tokens, and three
  schedules in which the code does not do what it means to.
\<close>

section \<open>Schedules\<close>

text \<open>An executable scheduler: a list of events picks who moves and which outcome it takes.\<close>

datatype sys_ev =
    EvAcquire request
  | EvStep nat env nat
  | EvComplete completion
  | EvCStep nat
  | EvManager sm_op
  | EvPoll nat
  | EvSweep gotime

definition acquire_ev :: "TokenBroker \<Rightarrow> nat \<Rightarrow> env \<Rightarrow> nat \<Rightarrow> sys \<Rightarrow> sys option" where
  "acquire_ev tb i e n s =
     (if i < length (Acqs s) then
        (case acquire_step tb e (fst (Acqs s ! i)) (snd (Acqs s ! i)) (SM s) (Tokens s) of
           None \<Rightarrow> None
         | Some outs \<Rightarrow>
             if n < length outs then
               (case outs ! n of (pc', sm', tokens') \<Rightarrow>
                  Some (s\<lparr>Acqs := (Acqs s)[i := (fst (Acqs s ! i), pc')], SM := sm', Tokens := tokens'\<rparr>))
             else None)
      else None)"

fun sys_apply :: "TokenBroker \<Rightarrow> sys_ev \<Rightarrow> sys \<Rightarrow> sys option" where
  "sys_apply tb (EvAcquire rq) s = Some (s\<lparr>Acqs := Acqs s @ [(rq, AValidate)]\<rparr>)"
| "sys_apply tb (EvStep i e n) s = acquire_ev tb i e n s"
| "sys_apply tb (EvComplete cq) s = Some (s\<lparr>Comps := Comps s @ [(cq, CValidate)]\<rparr>)"
| "sys_apply tb (EvCStep i) s =
     (if i < length (Comps s) then
        (case complete_step (fst (Comps s ! i)) (snd (Comps s ! i)) (SM s) of
           None \<Rightarrow> None
         | Some (pc', sm') \<Rightarrow> Some (s\<lparr>SM := sm', Comps := (Comps s)[i := (fst (Comps s ! i), pc')]\<rparr>))
      else None)"
| "sys_apply tb (EvManager x) s = map_option (\<lambda>sm'. s\<lparr>SM := sm'\<rparr>) (sm_apply x (SM s))"
| "sys_apply tb (EvPoll a) s =
     (if a < length (store (SM s)) then
        (case try_recv (EventWaiters (store (SM s) ! a)) of
           None \<Rightarrow> None
         | Some (ev, ch) \<Rightarrow> Some (s\<lparr>SM := set_session a (\<lambda>ss. ss\<lparr>EventWaiters := ch\<rparr>) (SM s)\<rparr>))
      else None)"
| "sys_apply tb (EvSweep now) s = Some (s\<lparr>Tokens := snd (CleanupExpiredTokens now (Tokens s))\<rparr>)"

fun sys_run :: "TokenBroker \<Rightarrow> sys_ev list \<Rightarrow> sys \<Rightarrow> sys option" where
  "sys_run tb [] s = Some s"
| "sys_run tb (x # xs) s = do { s' \<leftarrow> sys_apply tb x s; sys_run tb xs s' }"

lemma acquire_ev_step: "acquire_ev tb i e n s = Some s' \<Longrightarrow> broker_step tb s s'"
proof -
  assume a: "acquire_ev tb i e n s = Some s'"
  obtain rq pc where p: "Acqs s ! i = (rq, pc)" by fastforce
  from a p obtain outs where i: "i < length (Acqs s)" and o: "acquire_step tb e rq pc (SM s) (Tokens s) = Some outs"
    and n: "n < length outs" by (auto simp: acquire_ev_def split: if_splits option.splits)
  obtain pc' sm' tokens' where out: "outs ! n = (pc', sm', tokens')" by (metis prod_cases3)
  have "(pc', sm', tokens') \<in> set outs" using nth_mem [OF n] out by simp
  from broker_step.acquire [OF i p o this] show ?thesis
    using a p i o n out by (simp add: acquire_ev_def)
qed

lemma sys_apply_step: "sys_apply tb x s = Some s' \<Longrightarrow> broker_step tb s s'"
proof (cases x)
  case (EvCStep i)
  assume a: "sys_apply tb x s = Some s'"
  obtain cq pc where p: "Comps s ! i = (cq, pc)" by fastforce
  from a p obtain pc' sm' where "i < length (Comps s)" "complete_step cq pc (SM s) = Some (pc', sm')"
    "s' = s\<lparr>SM := sm', Comps := (Comps s)[i := (cq, pc')]\<rparr>"
    by (auto simp: EvCStep split: if_splits option.splits)
  then show ?thesis using broker_step.complete [OF _ p] by simp
qed (auto intro: broker_step.intros acquire_ev_step split: if_splits option.splits)

lemma sys_run_reachable:
  "sys_run tb xs s = Some s' \<Longrightarrow> reachable tb timeout m s \<Longrightarrow> reachable tb timeout m s'"
proof (induction xs arbitrary: s)
  case (Cons x xs)
  then obtain s1 where "sys_apply tb x s = Some s1" "sys_run tb xs s1 = Some s'"
    by (auto split: Option.bind_splits)
  with Cons show ?case by (blast intro: reachable.step sys_apply_step)
qed simp

lemma sys_run_append:
  "sys_run tb (xs @ ys) s = Option.bind (sys_run tb xs s) (sys_run tb ys)"
  by (induction xs arbitrary: s) (auto split: Option.bind_splits)

text \<open>
  A small deployment for the schedules below: one resource server with configured endpoints,
  and a provider that answers every exchange with an opaque token.
\<close>

definition demo_tb :: TokenBroker where
  "demo_tb = \<lparr>oauthClient = \<lparr>ClientID = ''id'', ClientSecret = ''sec''\<rparr>,
     discoverer = \<lparr>AuthorizationEndpoint = ''https://as/a'', DTokenEndpoint = ''https://as/t'',
       ScopesSupported = [], ResourceScopes = [], ResourceConfigs = []\<rparr>,
     callbackURL = ''https://cb'', waitTimeout = 60\<rparr>"

definition demo_env :: "gotime \<Rightarrow> env" where
  "demo_env now = \<lparr>Now = now, CtxErr = None, Rand = Inr ''seed'',
     Send = (\<lambda>_. Inr \<lparr>StatusCode = 200, RespBody = ''{\"access_token\":\"tok\"}'', RespReadErr = None\<rparr>)\<rparr>"

definition demo_rq :: "string \<Rightarrow> request" where
  "demo_rq u = \<lparr>RKey = ''k'', RUser = u, RResource = ''r''\<rparr>"

definition demo_cq :: "string \<Rightarrow> completion" where
  "demo_cq u = \<lparr>CKey = ''k'', CUser = u, CCode = ''code'', CState = ''k.n''\<rparr>"

definition demo_pkce :: PKCEChallenge where
  "demo_pkce = \<lparr>Verifier = b64_encode ''seed'', Challenge = b64_encode (Sum256 (b64_encode ''seed'')), Method = ''S256''\<rparr>"

definition demo_url :: string where
  "demo_url = (case BuildAuthorizationURL \<lparr>ClientID = ''id'', ClientSecret = ''sec''\<rparr> (Inr ''seed'')
       ''https://as/a'' ''https://cb'' ''k'' [] demo_pkce of Inr (u, _) \<Rightarrow> u | Inl _ \<Rightarrow> [])"

lemma demo_pkce: "GeneratePKCEChallenge (Inr ''seed'') = Inr demo_pkce"
  by (simp add: demo_pkce_def GeneratePKCEChallenge_def Let_def)

lemma demo_build:
  "BuildAuthorizationURL \<lparr>ClientID = ''id'', ClientSecret = ''sec''\<rparr> (Inr ''seed'')
     ''https://as/a'' ''https://cb'' ''k'' [] demo_pkce = Inr (demo_url, ''k.c2VlZA'')"
  by (simp add: demo_url_def BuildAuthorizationURL_def GenerateState_def url_eval b64_char_def b64_alphabet_def)

lemma demo_exchange:
  "ExchangeToken \<lparr>ClientID = ''id'', ClientSecret = ''sec''\<rparr> (Send (demo_env 0)) ''https://as/t'' ''code''
     verifier ''https://cb'' = Inr (''tok'', 0)"
proof -
  have "json_unmarshal token_fields ''{\"access_token\":\"tok\"}'' \<lparr>RespAccessToken = [], ExpiresIn = 0, TokenType = []\<rparr> =
      Some \<lparr>RespAccessToken = ''tok'', ExpiresIn = 0, TokenType = []\<rparr>"
    by code_simp
  then show ?thesis
    by (simp add: ExchangeToken_def exchange_request_def NewRequest_def demo_env_def url_eval)
qed

lemmas demo_eval = acquire_ev_def init_sys_def demo_tb_def demo_rq_def demo_cq_def
  sm_eval ValidateSession_def GetSession_def NewTokenCache_def GetToken_def set_session_def set_tx_def
  DiscoverEndpoints_def discover_global_def resolve_scopes_def publish_step_def wait_step_def new_tx_def
  url_ready_def NewSemaphore_def make_chan_def try_recv_def Acquire_def Release_def demo_pkce demo_build demo_exchange

lemma demo_env_sel [simp]: "Now (demo_env t) = t" "CtxErr (demo_env t) = None" "Rand (demo_env t) = Inr ''seed''"
  by (simp_all add: demo_env_def)

definition demo_start :: "sys_ev list" where
  "demo_start = EvManager (Create ''k'' ''u'' '''' 0) # EvAcquire (demo_rq ''u'') #
     replicate 10 (EvStep 0 (demo_env 0) 0)"

definition demo_finish :: "sys_ev list" where
  "demo_finish = EvComplete (demo_cq ''u'') # replicate 4 (EvCStep 0) @ replicate 6 (EvStep 0 (demo_env 0) 0)"

lemma demo_waiting:
  "\<exists>s. sys_run demo_tb demo_start (init_sys 60 5) = Some s \<and>
     Acqs s = [(demo_rq ''u'', AWait 0 ''https://as/t'' demo_pkce 60)] \<and>
     map_of (sessions (SM s)) ''k'' = Some 0 \<and>
     (\<exists>tx. ActiveOAuthTx (store (SM s) ! 0) = Some tx \<and> buf (CompletionChan tx) = [])"
  by (simp add: demo_eval demo_start_def numeral_eq_Suc)

lemma demo_done:
  "\<exists>s. sys_run demo_tb (demo_start @ demo_finish) (init_sys 60 5) = Some s \<and>
     Acqs s = [(demo_rq ''u'', AEnd (Inr ''tok''))] \<and> owner (SM s) ''k'' = Some ''u'' \<and>
     map_of (userSessions (SM s)) ''v'' = None \<and> GetToken ''k'' ''r'' 0 (Tokens s) = Some ''tok''"
  by (simp add: demo_eval demo_start_def demo_finish_def numeral_eq_Suc SetToken_def session_tokens_def
      ParseJWTExpiry_def IsTokenExpired_def time_sub_def long_lived_def Minute_def Hour_def Second_def)

lemma demo_blocked:
  "\<exists>s. sys_run demo_tb demo_start (init_sys 60 5) = Some s \<and>
     Acqs s = [(demo_rq ''u'', AWait 0 ''https://as/t'' demo_pkce 60)] \<and>
     acquire_step demo_tb (demo_env 0) (demo_rq ''u'') (AWait 0 ''https://as/t'' demo_pkce 60) (SM s) (Tokens s) = Some []"
  by (simp add: demo_eval demo_start_def numeral_eq_Suc)

lemma demo_reachable: "sys_run demo_tb xs (init_sys 60 5) = Some s \<Longrightarrow> reachable demo_tb 60 5 s"
  by (rule sys_run_reachable [OF _ reachable.init])

section \<open>Safety\<close>

lemma local_pre_tx: "local_pre rq pc sm \<Longrightarrow> in_tx pc = Some a \<Longrightarrow> ActiveOAuthTx (store sm ! a) \<noteq> None"
  by (auto simp: local_pre_def tx_inv_def split: option.splits)

lemma inv_no_panic:
  assumes "local_pre rq pc sm"
  shows "acquire_step tb e rq pc sm tokens \<noteq> None"
proof (cases pc)
  case (ABuild a x y z p)
  then have "ActiveOAuthTx (store sm ! a) \<noteq> None"
    using local_pre_tx [OF assms, of a] by simp
  then show ?thesis using ABuild by (auto simp: set_tx_def split: sum.splits option.splits)
next
  case (APublish a x y p)
  then have "\<not> closed (EventWaiters (store sm ! a))"
    using assms store_ok [of sm a] by (simp add: local_pre_def session_ok_def)
  then show ?thesis using APublish by (auto simp: publish_step_def try_send_def Let_def)
next
  case (AWait a x p d)
  then have "ActiveOAuthTx (store sm ! a) \<noteq> None"
    using local_pre_tx [OF assms, of a] by simp
  then show ?thesis using AWait by (auto simp: wait_step_def Let_def)
next
  case (AExchange a x p c)
  then have "ActiveOAuthTx (store sm ! a) \<noteq> None"
    using local_pre_tx [OF assms, of a] by simp
  then show ?thesis using AExchange by (auto simp: set_tx_def split: sum.splits option.splits)
next
  case (ANotify a t)
  then have "TokenWaiters (store sm ! a) = []"
    using assms store_ok [of sm a] by (simp add: local_pre_def session_ok_def)
  then show ?thesis using ANotify by simp
qed (auto split: option.splits sum.splits)

text \<open>
  C3.  Whatever the interleaving of requests, callbacks, polls, timers and session ends: two
  acquisitions never are inside the critical section of the same session object (so a session
  has at most one OAuth flow at a time), and no step of an acquisition ever panics, neither on
  a nil transaction nor on a closed channel.
\<close>

theorem acquisition_safe:
  assumes "reachable tb timeout m s" "i < length (Acqs s)" "Acqs s ! i = (rq, pc)"
  shows "acquire_step tb e rq pc (SM s) (Tokens s) \<noteq> None \<and>
    (\<forall>j a. j < length (Acqs s) \<and> holds pc = Some a \<and> holds (snd (Acqs s ! j)) = Some a \<longrightarrow> j = i)"
proof -
  have inv: "broker_inv s" using reachable_inv [OF assms(1)] by simp
  show ?thesis
    using inv_no_panic [OF inv_local_pre [OF inv assms(2,3)]] inv_mutex [OF inv _ assms(2)] assms(3) by auto
qed

theorem acquisition_safe_witness:
  "\<exists>s e. reachable demo_tb 60 5 s \<and> Acqs s = [(demo_rq ''u'', AWait 0 ''https://as/t'' demo_pkce 60)] \<and>
     acquire_step demo_tb e (demo_rq ''u'') (AWait 0 ''https://as/t'' demo_pkce 60) (SM s) (Tokens s) \<noteq> None"
proof -
  obtain s where s: "sys_run demo_tb demo_start (init_sys 60 5) = Some s"
    "Acqs s = [(demo_rq ''u'', AWait 0 ''https://as/t'' demo_pkce 60)]"
    using demo_waiting by blast
  from acquisition_safe [OF demo_reachable [OF s(1)], of 0] s demo_reachable [OF s(1)] show ?thesis by auto
qed

section \<open>Bounded work and progress\<close>

fun rank :: "apc \<Rightarrow> nat" where
  "rank AValidate = 16"
| "rank ACache1 = 15"
| "rank AGetSession = 14"
| "rank (AAcquire _) = 13"
| "rank (ACache2 _) = 12"
| "rank (ADiscover _) = 11"
| "rank (AGenerate _ _ _ _) = 10"
| "rank (AStore _ _ _ _ _) = 9"
| "rank (ABuild _ _ _ _ _) = 8"
| "rank (APublish _ _ _ _) = 7"
| "rank (AWait _ _ _ _) = 6"
| "rank (AExchange _ _ _ _) = 5"
| "rank (ASetToken _ _) = 4"
| "rank (ANotify _ _) = 3"
| "rank (AClear _ _) = 2"
| "rank (ARelease _ _) = 1"
| "rank (AEnd _) = 0"

lemma rank_decreases:
  assumes "acquire_step tb e rq pc sm tokens = Some outs" "(pc', sm', tokens') \<in> set outs"
  shows "rank pc' < rank pc"
proof (cases pc)
  case (APublish a x y p)
  then show ?thesis using assms
    by (auto simp: publish_step_def Let_def split: option.splits if_splits)
next
  case (AWait a x p d)
  then show ?thesis using assms
    by (auto simp: wait_step_def Let_def split: option.splits if_splits)
qed (use assms in \<open>auto split: option.splits sum.splits\<close>)

text \<open>One step of a request in some environment, whatever the rest of the system did in between.\<close>

definition own_step :: "TokenBroker \<Rightarrow> request \<Rightarrow> apc \<Rightarrow> apc \<Rightarrow> bool" where
  "own_step tb rq pc pc' \<longleftrightarrow>
     (\<exists>e sm tokens outs sm' tokens'. acquire_step tb e rq pc sm tokens = Some outs \<and> (pc', sm', tokens') \<in> set outs)"



text \<open>
  C12.  A request that has not returned can always take a step, except while another request
  holds the session's semaphore, or while its own flow waits for the user: then its deadline
  lies ahead, its session is alive and its context is not cancelled.
\<close>

theorem acquire_progress:
  assumes "reachable tb timeout m s" "i < length (Acqs s)" "Acqs s ! i = (rq, pc)"
    and "acquire_step tb e rq pc (SM s) (Tokens s) = Some []"
  shows "(\<exists>res. pc = AEnd res) \<or>
    (\<exists>a j. pc = AAcquire a \<and> j < length (Acqs s) \<and> j \<noteq> i \<and> holds (snd (Acqs s ! j)) = Some a \<and> CtxErr e = None) \<or>
    (\<exists>a tep pkce d. pc = AWait a tep pkce d \<and> Now e < d \<and> \<not> Done (store (SM s) ! a) \<and> CtxErr e = None)"
proof -
  have inv: "broker_inv s" using reachable_inv [OF assms(1)] by simp
  note pre = inv_local_pre [OF inv assms(2,3)]
  consider (e) res where "pc = AEnd res" | (acq) a where "pc = AAcquire a"
    | (wait) a tep pkce d where "pc = AWait a tep pkce d"
    using assms(4)
    by (cases pc) (auto simp: publish_step_def set_tx_def Let_def split: option.splits sum.splits if_splits)
  then show ?thesis
  proof cases
    case acq
    then have a: "a < length (store (SM s))" using pre by (simp add: local_pre_def)
    then have ok: "session_ok (store (SM s) ! a)" using pre store_ok by (simp add: local_pre_def)
    have "Acquire (CtxErr e) (AcquisitionSemaphore (store (SM s) ! a)) = []"
      using assms(4) acq by simp
    then have b: "CtxErr e = None" "\<not> holders (AcquisitionSemaphore (store (SM s) ! a)) < 1"
      using ok by (auto simp: Acquire_def holders_def session_ok_def split: if_splits option.splits)
    then have "count_held (Acqs s) a \<noteq> 0" using inv a by (simp add: broker_inv_def)
    then obtain x where x: "x \<in> set (Acqs s)" "holds (snd x) = Some a"
      by (auto simp: count_held_def filter_empty_conv)
    then obtain j where j: "j < length (Acqs s)" "Acqs s ! j = x" by (auto simp: in_set_conv_nth)
    have "j \<noteq> i" using j x assms(3) acq by auto
    with acq b j x show ?thesis by blast
  next
    case wait
    then have "Now e < d \<and> \<not> Done (store (SM s) ! a) \<and> CtxErr e = None"
      using assms(4) by (auto simp: wait_step_def Let_def split: option.splits if_splits)
    with wait show ?thesis by blast
  qed blast
qed

theorem acquire_progress_witness:
  "\<exists>s. reachable demo_tb 60 5 s \<and> Acqs s = [(demo_rq ''u'', AWait 0 ''https://as/t'' demo_pkce 60)] \<and>
     \<not> Done (store (SM s) ! 0)"
proof -
  obtain s where s: "sys_run demo_tb demo_start (init_sys 60 5) = Some s"
    "Acqs s = [(demo_rq ''u'', AWait 0 ''https://as/t'' demo_pkce 60)]"
    and b: "acquire_step demo_tb (demo_env 0) (demo_rq ''u'') (AWait 0 ''https://as/t'' demo_pkce 60) (SM s) (Tokens s) = Some []"
    using demo_blocked by blast
  from acquire_progress [OF demo_reachable [OF s(1)], of 0, OF _ _ b] s demo_reachable [OF s(1)] show ?thesis
    by auto
qed

section \<open>The callback reaches its flow\<close>

fun complete_run :: "completion \<Rightarrow> nat \<Rightarrow> cpc \<Rightarrow> SessionManager \<Rightarrow> (cpc \<times> SessionManager) option" where
  "complete_run cq 0 pc sm = Some (pc, sm)"
| "complete_run cq (Suc n) pc sm = do { (pc', sm') \<leftarrow> complete_step cq pc sm; complete_run cq n pc' sm' }"



section \<open>Separation of cached tokens\<close>

lemma acquire_tokens:
  assumes "acquire_step tb e rq pc sm tokens = Some outs" "(pc', sm', tokens') \<in> set outs"
  shows "tokens' = tokens \<or> (\<exists>a tok. pc = ASetToken a tok \<and>
    tokens' = snd (SetToken (SessionKey (store sm ! a)) (RResource rq) tok (Now e) (Now e) tokens))"
proof (cases pc)
  case (APublish a x y p)
  then show ?thesis using assms
    by (auto simp: publish_step_def Let_def split: option.splits if_splits)
next
  case (AWait a x p d)
  then show ?thesis using assms
    by (auto simp: wait_step_def Let_def split: option.splits if_splits)
qed (use assms in \<open>auto split: option.splits sum.splits\<close>)

lemma step_cache_wf:
  assumes "broker_step tb s s'" "cache_wf (Tokens s)"
  shows "cache_wf (Tokens s')"
  using assms
proof (induction rule: broker_step.induct)
  case (acquire i s rq pc e outs pc' sm' tokens')
  then show ?case
    using acquire_tokens [OF acquire.hyps(3,4)] SetToken_wf [OF acquire.prems surjective_pairing] by auto
next
  case (sweep s now)
  then show ?case using Cleanup_wf by simp
qed simp_all

lemma reachable_cache_wf: "reachable tb timeout m s \<Longrightarrow> cache_wf (Tokens s)"
  by (induction rule: reachable.induct) (auto simp: init_sys_def intro: step_cache_wf)

text \<open>
  C10.  Tokens do not cross sessions or resources through the cache: a token that a step makes
  available under a session key and a resource URL was either available there before, or is
  being stored by a request for exactly that session key and resource.
\<close>

theorem cache_written_by_owner:
  assumes "reachable tb timeout m s" "broker_step tb s s'" "GetToken k r t (Tokens s') = Some tok"
  shows "GetToken k r t (Tokens s) = Some tok \<or>
    (\<exists>i rq a. i < length (Acqs s) \<and> Acqs s ! i = (rq, ASetToken a tok) \<and> RKey rq = k \<and> RResource rq = r)"
  using assms(2)
proof (cases rule: broker_step.cases)
  case (acquire i rq pc e outs pc' sm' tokens')
  have inv: "broker_inv s" using reachable_inv [OF assms(1)] by simp
  from acquire_tokens [OF acquire(4,5)] show ?thesis
  proof
    assume "tokens' = Tokens s"
    then show ?thesis using assms(3) acquire(1) by simp
  next
    assume "\<exists>a tok. pc = ASetToken a tok \<and>
      tokens' = snd (SetToken (SessionKey (store (SM s) ! a)) (RResource rq) tok (Now e) (Now e) (Tokens s))"
    then obtain a tok' where pc: "pc = ASetToken a tok'"
      and tk: "tokens' = snd (SetToken (SessionKey (store (SM s) ! a)) (RResource rq) tok' (Now e) (Now e) (Tokens s))"
      by blast
    have key: "SessionKey (store (SM s) ! a) = RKey rq"
      using inv_local_pre [OF inv acquire(2,3)] pc by (simp add: local_pre_def)
    have "cache_apply (OpSetToken (RKey rq) (RResource rq) tok' (Now e) (Now e)) (Tokens s) = Tokens s'"
      using acquire(1) tk key by simp
    then have "GetToken k r t (Tokens s') = (if RKey rq = k \<and> RResource rq = r
        then usable t (Some (tok', token_expiry tok' (Now e))) else GetToken k r t (Tokens s))"
      using tcache.get_set [OF reachable_cache_wf [OF assms(1)], of k r t "RKey rq" "RResource rq" tok' "Now e" "Now e"]
      by simp
    then show ?thesis
      using assms(3) acquire(2,3) pc by (auto simp: usable_def split: if_splits)
  qed
next
  case (sweep now)
  then show ?thesis
    using assms(3) Cleanup_get_Some [OF reachable_cache_wf [OF assms(1)]] by simp
qed (use assms(3) in simp_all)

theorem cache_written_by_owner_witness:
  "\<exists>s. reachable demo_tb 60 5 s \<and> (GetToken ''k'' ''r'' 0 (Tokens s) = Some ''tok'' \<or>
     (\<exists>i rq a. i < length (Acqs s) \<and> Acqs s ! i = (rq, ASetToken a ''tok'') \<and> RKey rq = ''k'' \<and> RResource rq = ''r''))"
proof -
  obtain s where s: "sys_run demo_tb (demo_start @ demo_finish) (init_sys 60 5) = Some s"
    "GetToken ''k'' ''r'' 0 (Tokens s) = Some ''tok''"
    using demo_done by blast
  have r: "reachable demo_tb 60 5 s" by (rule demo_reachable [OF s(1)])
  have st: "broker_step demo_tb s (s\<lparr>Comps := Comps s @ [(demo_cq ''u'', CValidate)]\<rparr>)"
    by (rule broker_step.start_complete)
  have g: "GetToken ''k'' ''r'' 0 (Tokens (s\<lparr>Comps := Comps s @ [(demo_cq ''u'', CValidate)]\<rparr>)) = Some ''tok''"
    using s(2) by simp
  from cache_written_by_owner [OF r st g] r show ?thesis by blast
qed

section \<open>Three schedules\<close>

text \<open>
  C34.  A cached token outlives the session it was obtained for.  Take any reachable state in
  which a token is cached for a session of one user.  End that session, let another user, who
  holds no session yet, create one under the same key and ask for the resource: the two checks of
  that request, and no OAuth flow, answer it with the cached token.
\<close>

theorem cached_token_outlives_session:
  fixes e :: env
  assumes "reachable tb timeout m s" "GetToken k r (Now e) (Tokens s) = Some tok"
    and "owner (SM s) k = Some u1" "u1 \<noteq> u2" "map_of (userSessions (SM s)) u2 = None"
  shows "\<exists>s'. sys_run tb [EvManager (End k), EvManager (Create k u2 url 0), EvAcquire \<lparr>RKey = k, RUser = u2, RResource = r\<rparr>,
        EvStep (length (Acqs s)) e 0, EvStep (length (Acqs s)) e 0] s = Some s' \<and>
    Tokens s' = Tokens s \<and> owner (SM s') k = Some u2 \<and>
    Acqs s' = Acqs s @ [(\<lparr>RKey = k, RUser = u2, RResource = r\<rparr>, AEnd (Inr tok))]"
proof -
  have wf: "sm_wf (SM s)" using reachable_inv [OF assms(1)] by (simp add: broker_inv_def)
  obtain a where a: "map_of (sessions (SM s)) k = Some a" and u: "UserID (store (SM s) ! a) = u1"
    using assms(3) by (auto simp: owner_def)
  obtain err sm1 where e1: "EndSession k (SM s) = Some (err, sm1)" using EndSession_total [OF wf] by blast
  have us1: "map_of (userSessions sm1) u2 = None"
    using e1 a u assms(4,5)
    by (auto simp: EndSession_def cleanupSessionLocked_def drop_user_key_def Let_def gomap_simps
        split: option.splits Option.bind_splits if_splits)
  obtain sm2 where c: "CreateSession k u2 url 0 sm1 = (None, sm2)" and o: "owner sm2 k = Some u2"
    using us1 by (auto simp: CreateSession_def owner_def gomap_simps)
  have v: "ValidateSession k u2 sm2 = None" using o by (simp add: ValidateSession_owner)
  show ?thesis using e1 c v o assms(2) by (simp add: acquire_ev_def nth_append)
qed

theorem cached_token_outlives_session_witness:
  "\<exists>s (s' :: sys). reachable demo_tb 60 5 s \<and> owner (SM s) ''k'' = Some ''u'' \<and> owner (SM s') ''k'' = Some ''v'' \<and>
     Acqs s' = Acqs s @ [(\<lparr>RKey = ''k'', RUser = ''v'', RResource = ''r''\<rparr>, AEnd (Inr ''tok''))]"
proof -
  obtain s where s: "sys_run demo_tb (demo_start @ demo_finish) (init_sys 60 5) = Some s"
    "GetToken ''k'' ''r'' (Now (demo_env 0)) (Tokens s) = Some ''tok''" "owner (SM s) ''k'' = Some ''u''"
    "map_of (userSessions (SM s)) ''v'' = None"
    using demo_done by auto
  have "''u'' \<noteq> ''v''" by simp
  from cached_token_outlives_session [OF demo_reachable [OF s(1)] s(2,3) this s(4), of "[]"]
  obtain s' :: sys where "owner (SM s') ''k'' = Some ''v''"
    "Acqs s' = Acqs s @ [(\<lparr>RKey = ''k'', RUser = ''v'', RResource = ''r''\<rparr>, AEnd (Inr ''tok''))]" by blast
  then show ?thesis using demo_reachable [OF s(1)] s(3) by blast
qed

text \<open>
   An authorization URL that nobody fetched makes the next flow of the session fail.  The
  channel holds one event and is never drained when a flow gives up, so while an earlier
  event is unread, publishing fails at once with \<^verbatim>\<open>no event waiter available\<close>, which wraps
  none of the errors the API layer treats as retryable.
\<close>

theorem unread_event_fails_flow:
  assumes "reachable tb timeout m s" "i < length (Acqs s)" "Acqs s ! i = (rq, APublish a url tep pkce)"
    and "buf (EventWaiters (store (SM s) ! a)) \<noteq> []" "CtxErr e = None"
  shows "\<exists>err. acquire_step tb e rq (APublish a url tep pkce) (SM s) (Tokens s) =
      Some [(ARelease a (Inl err), SM s, Tokens s)] \<and>
    \<not> errors_is err ErrSessionEnded \<and> \<not> errors_is err ErrSessionExpired \<and>
    \<not> errors_is err ErrOAuthTimeout \<and> \<not> errors_is err ErrOAuthUpstream"
proof -
  have "session_ok (store (SM s) ! a)"
    using inv_local_pre [OF _ assms(2,3)] reachable_inv [OF assms(1)] store_ok by (auto simp: local_pre_def)
  then have "\<not> length (buf (EventWaiters (store (SM s) ! a))) < cap (EventWaiters (store (SM s) ! a))"
    "\<not> closed (EventWaiters (store (SM s) ! a))"
    using assms(4) by (auto simp: session_ok_def)
  then show ?thesis
    using assms(5) by (simp add: publish_step_def try_send_def Let_def flow_failed_def)
qed

definition demo_retry :: "sys_ev list" where
  "demo_retry = replicate 2 (EvStep 0 (demo_env 60) 0) @ EvAcquire (demo_rq ''u'') # replicate 9 (EvStep 1 (demo_env 61) 0)"

lemma demo_stale:
  "\<exists>s. sys_run demo_tb (demo_start @ demo_retry) (init_sys 60 5) = Some s \<and>
     Acqs s = [(demo_rq ''u'', AEnd (flow_failed (Errorf [Wrap (Sentinel ErrOAuthTimeout)]))),
               (demo_rq ''u'', APublish 0 demo_url ''https://as/t'' demo_pkce)] \<and>
     buf (EventWaiters (store (SM s) ! 0)) \<noteq> []"
  by (simp add: demo_eval demo_start_def demo_retry_def numeral_eq_Suc)

theorem unread_event_fails_flow_witness:
  "\<exists>s err. reachable demo_tb 60 5 s \<and>
     fst (Acqs s ! 0) = demo_rq ''u'' \<and> snd (Acqs s ! 0) = AEnd (flow_failed (Errorf [Wrap (Sentinel ErrOAuthTimeout)])) \<and>
     acquire_step demo_tb (demo_env 62) (demo_rq ''u'') (APublish 0 demo_url ''https://as/t'' demo_pkce) (SM s) (Tokens s) =
       Some [(ARelease 0 (Inl err), SM s, Tokens s)]"
proof -
  obtain s where s: "sys_run demo_tb (demo_start @ demo_retry) (init_sys 60 5) = Some s"
    "Acqs s = [(demo_rq ''u'', AEnd (flow_failed (Errorf [Wrap (Sentinel ErrOAuthTimeout)]))),
               (demo_rq ''u'', APublish 0 demo_url ''https://as/t'' demo_pkce)]"
    "buf (EventWaiters (store (SM s) ! 0)) \<noteq> []"
    using demo_stale by blast
  have r: "reachable demo_tb 60 5 s" by (rule demo_reachable [OF s(1)])
  have a: "1 < length (Acqs s)" "Acqs s ! 1 = (demo_rq ''u'', APublish 0 demo_url ''https://as/t'' demo_pkce)"
    "fst (Acqs s ! 0) = demo_rq ''u''" "snd (Acqs s ! 0) = AEnd (flow_failed (Errorf [Wrap (Sentinel ErrOAuthTimeout)]))"
    using s(2) by simp_all
  from unread_event_fails_flow [OF r a(1,2) s(3), of "demo_env 62"] r a(3,4) show ?thesis
    by (metis demo_env_sel(2))
qed

text \<open>
  C35.  A repeated callback can crash its handler.  \<^verbatim>\<open>CompleteOAuth\<close> checks that a transaction
  exists and reads the pointer again to send on its channel; if the flow it belongs to
  clears the transaction in between, the second read is nil and the handler panics.
\<close>

theorem completion_races_with_flow:
  assumes "reachable tb timeout m s" "j < length (Acqs s)" "Acqs s ! j = (rq, AClear a tok)"
  shows "\<exists>sm'. acquire_step tb e rq (AClear a tok) (SM s) (Tokens s) = Some [(ARelease a (Inr tok), sm', Tokens s)] \<and>
    complete_step cq (CSend a) (SM s) \<noteq> None \<and> complete_step cq (CSend a) sm' = None"
proof -
  have inv: "broker_inv s" using reachable_inv [OF assms(1)] by simp
  note pre = inv_local_pre [OF inv assms(2,3)]
  have a: "a < length (store (SM s))" and op: "tx_open (store (SM s) ! a)"
    using pre by (auto simp: local_pre_def)
  obtain tx where "ActiveOAuthTx (store (SM s) ! a) = Some tx"
    using local_pre_tx [OF pre, of a] by auto
  moreover have "\<not> closed (CompletionChan tx)"
    using op calculation by (simp add: tx_open_def chan_open_def)
  ultimately show ?thesis using a by (simp add: try_send_def)
qed

definition demo_twice :: "sys_ev list" where
  "demo_twice = EvComplete (demo_cq ''u'') # EvComplete (demo_cq ''u'') # replicate 4 (EvCStep 0) @
     replicate 3 (EvCStep 1) @ replicate 4 (EvStep 0 (demo_env 0) 0)"

lemma demo_double_callback:
  "\<exists>s. sys_run demo_tb (demo_start @ demo_twice) (init_sys 60 5) = Some s \<and>
     Acqs s = [(demo_rq ''u'', AClear 0 ''tok'')] \<and> Comps s = [(demo_cq ''u'', CEnd None), (demo_cq ''u'', CSend 0)]"
  by (simp add: demo_eval demo_start_def demo_twice_def numeral_eq_Suc SetToken_def session_tokens_def
      ParseJWTExpiry_def)

theorem completion_races_with_flow_witness:
  "\<exists>s sm'. reachable demo_tb 60 5 s \<and> Comps s = [(demo_cq ''u'', CEnd None), (demo_cq ''u'', CSend 0)] \<and>
     acquire_step demo_tb (demo_env 0) (demo_rq ''u'') (AClear 0 ''tok'') (SM s) (Tokens s) =
       Some [(ARelease 0 (Inr ''tok''), sm', Tokens s)] \<and>
     complete_step (demo_cq ''u'') (CSend 0) sm' = None"
proof -
  obtain s where s: "sys_run demo_tb (demo_start @ demo_twice) (init_sys 60 5) = Some s"
    "Acqs s = [(demo_rq ''u'', AClear 0 ''tok'')]" "Comps s = [(demo_cq ''u'', CEnd None), (demo_cq ''u'', CSend 0)]"
    using demo_double_callback by blast
  have r: "reachable demo_tb 60 5 s" by (rule demo_reachable [OF s(1)])
  have a: "0 < length (Acqs s)" "Acqs s ! 0 = (demo_rq ''u'', AClear 0 ''tok'')"
    using s(2) by simp_all
  from completion_races_with_flow [OF r a, of "demo_env 0" "demo_cq ''u''"] r s(3) show ?thesis by blast
qed

end
