(* ===== verification/TB_Auth.thy ===== *)
theory TB_Auth
  imports Go_Encoding
begin

text \<open>
  Reading the caller's identity from the \<^verbatim>\<open>Authorization\<close> header
  (\<^verbatim>\<open>token-broker/internal/auth/jwt.go\<close>).  The texts of the base64 and JSON errors are reduced
  to their kind; the API layer only logs them.
\<close>

section \<open>Claims\<close>

type_synonym Audience = "string list"

text \<open>
  \<^verbatim>\<open>Audience.UnmarshalJSON\<close> on the value of the claim: a string first, where \<^verbatim>\<open>null\<close> decodes to
  the empty string, then a list of strings.
\<close>

definition Audience_UnmarshalJSON :: "json \<Rightarrow> Audience option" where
  "Audience_UnmarshalJSON j =
     (case j of
        JStr single \<Rightarrow> Some [single]
      | JNull \<Rightarrow> Some [[]]
      | JArr js \<Rightarrow> str_list js
      | _ \<Rightarrow> None)"

fun Audience_Contains :: "string \<Rightarrow> Audience \<Rightarrow> bool" where
  "Audience_Contains v [] = False"
| "Audience_Contains v (a # as) = (if a = v then True else Audience_Contains v as)"

definition Audience_String :: "Audience \<Rightarrow> string" where
  "Audience_String a = (if length a > 0 then a ! 0 else [])"

record JWTClaims =
  Sub :: string
  Jti :: string
  SessionUID :: string
  Iss :: string
  Aud :: Audience
  Exp :: int
  Iat :: int

definition zero_claims :: JWTClaims where
  "zero_claims = \<lparr>Sub = [], Jti = [], SessionUID = [], Iss = [], Aud = [], Exp = 0, Iat = 0\<rparr>"

definition claims_fields :: "JWTClaims field list" where
  "claims_fields =
     [str_field ''sub'' (\<lambda>v c. c\<lparr>Sub := v\<rparr>),
      str_field ''jti'' (\<lambda>v c. c\<lparr>Jti := v\<rparr>),
      str_field ''session_uid'' (\<lambda>v c. c\<lparr>SessionUID := v\<rparr>),
      str_field ''iss'' (\<lambda>v c. c\<lparr>Iss := v\<rparr>),
      (''aud'', \<lambda>j c. map_option (\<lambda>a. c\<lparr>Aud := a\<rparr>) (Audience_UnmarshalJSON j)),
      int_field ''exp'' (\<lambda>i c. c\<lparr>Exp := i\<rparr>),
      int_field ''iat'' (\<lambda>i c. c\<lparr>Iat := i\<rparr>)]"

definition GetSessionKey :: "JWTClaims \<Rightarrow> string" where
  "GetSessionKey c = (if SessionUID c \<noteq> [] then SessionUID c else Jti c)"

section \<open>Parsing\<close>

definition ParseJWTWithoutValidation :: "string \<Rightarrow> goerr + JWTClaims" where
  "ParseJWTWithoutValidation token =
     (let parts = split (CHR ''.'') token in
      if length parts \<noteq> 3 then
        Inl (Errorf [Lit ''invalid JWT format: expected 3 parts, got '', Lit (nat_str (length parts))])
      else
        case b64_decode (parts ! 1) of
          None \<Rightarrow> Inl (Errorf [Lit ''failed to decode JWT payload: '', Wrap (Sentinel ''illegal base64 data'')])
        | Some payload \<Rightarrow>
            (case json_unmarshal claims_fields payload zero_claims of
               None \<Rightarrow> Inl (Errorf [Lit ''failed to parse JWT claims: '', Wrap (Sentinel ''json error'')])
             | Some claims \<Rightarrow>
                 if Sub claims = [] then Inl (Errorf [Lit ''missing required claim: sub (user ID)''])
                 else if SessionUID claims = [] \<and> Jti claims = [] then
                   Inl (Errorf [Lit ''missing required claim: session_uid or jti (session key)''])
                 else Inr claims))"

definition ExtractBearerToken :: "string \<Rightarrow> goerr + string" where
  "ExtractBearerToken authHeader =
     (if authHeader = [] then Inl (Errorf [Lit ''missing Authorization header''])
      else
        (let prefix = ''Bearer '' in
         if \<not> has_prefix authHeader prefix then
           Inl (Errorf [Lit ''invalid Authorization header format: expected '',
                        Lit (CHR 0x27 # ''Bearer <token>'' @ [CHR 0x27])])
         else
           (let token = trim_prefix authHeader prefix in
            if token = [] then Inl (Errorf [Lit ''empty token in Authorization header'']) else Inr token)))"

section \<open>Laws\<close>

lemma Audience_Contains_iff: "Audience_Contains v a \<longleftrightarrow> v \<in> set a"
  by (induction a) auto

lemma ParseJWT_identity:
  "ParseJWTWithoutValidation token = Inr claims \<Longrightarrow> Sub claims \<noteq> [] \<and> GetSessionKey claims \<noteq> []"
  by (auto simp: ParseJWTWithoutValidation_def GetSessionKey_def Let_def split: option.splits if_splits)

lemma bearer_iff: "ExtractBearerToken h = Inr t \<longleftrightarrow> h = ''Bearer '' @ t \<and> t \<noteq> []"
proof
  assume a: "ExtractBearerToken h = Inr t"
  then have "has_prefix h ''Bearer ''" and t: "t = trim_prefix h ''Bearer ''" "t \<noteq> []"
    by (auto simp: ExtractBearerToken_def Let_def split: if_splits)
  from prefix_recombine [OF this(1)] t show "h = ''Bearer '' @ t \<and> t \<noteq> []"
    by (simp only: simp_thms)
next
  assume "h = ''Bearer '' @ t \<and> t \<noteq> []"
  then have h: "h = ''Bearer '' @ t" and t: "t \<noteq> []" by auto
  show "ExtractBearerToken h = Inr t"
    using t by (simp add: ExtractBearerToken_def h Let_def has_prefix_def trim_prefix_def)
qed

section \<open>Properties\<close>

text \<open>
   What the broker believes about a caller is exactly the claims part of the token: for a
  compact token with claims \<open>c\<close> the answer depends on \<open>c\<close> alone, not on the header or the
  signature, every byte length of \<open>c\<close> is decoded, and identities without a user or without a
  session key are refused.
\<close>

theorem identity_is_claims:
  assumes "CHR ''.'' \<notin> set h" "CHR ''.'' \<notin> set s"
  shows "case json_unmarshal claims_fields c zero_claims of
      None \<Rightarrow> \<exists>e. ParseJWTWithoutValidation (h @ ''.'' @ b64_encode c @ ''.'' @ s) = Inl e
    | Some claims \<Rightarrow>
        if Sub claims \<noteq> [] \<and> GetSessionKey claims \<noteq> []
        then ParseJWTWithoutValidation (h @ ''.'' @ b64_encode c @ ''.'' @ s) = Inr claims
        else \<exists>e. ParseJWTWithoutValidation (h @ ''.'' @ b64_encode c @ ''.'' @ s) = Inl e"
proof -
  have "split (CHR ''.'') (h @ ''.'' @ b64_encode c @ ''.'' @ s) = [h, b64_encode c, s]"
    using assms b64_encode_no_dot by (simp add: split_append split_no_sep)
  then show ?thesis
    unfolding ParseJWTWithoutValidation_def Let_def
    by (simp add: b64_decode_encode GetSessionKey_def split: option.split)
qed

theorem identity_is_claims_witness:
  "ParseJWTWithoutValidation
     (''none'' @ ''.'' @ b64_encode ''{\"sub\":\"eve\",\"jti\":\"s1\"}'' @ ''.'' @ ''forged'') =
   Inr (zero_claims\<lparr>Sub := ''eve'', Jti := ''s1''\<rparr>)"
proof -
  have "json_unmarshal claims_fields ''{\"sub\":\"eve\",\"jti\":\"s1\"}'' zero_claims =
      Some (zero_claims\<lparr>Sub := ''eve'', Jti := ''s1''\<rparr>)"
    by code_simp
  then show ?thesis
    using identity_is_claims [of "''none''" "''forged''" "''{\"sub\":\"eve\",\"jti\":\"s1\"}''"]
    by (simp add: GetSessionKey_def zero_claims_def del: b64_encode.simps append_Cons)
qed

text \<open>
   The bearer token of a header is read exactly: a token is returned if and only if the
  header is the literal prefix followed by that non-empty token.
\<close>

theorem bearer_roundtrip:
  "(ExtractBearerToken h = Inr t) = (h = ''Bearer '' @ t \<and> t \<noteq> [])"
  by (rule bearer_iff)

end
