(* ===== verification/TB_Api.thy ===== *)
theory TB_Api
  imports TB_Flow TB_Auth
begin

text \<open>
  The HTTP handlers of the broker (\<^verbatim>\<open>token-broker/internal/api/handlers.go\<close>).  A response is the
  value handed to the response writer: a status with a JSON value, a text or nothing, or the
  target of \<^verbatim>\<open>http.Redirect\<close>.  The signature verifier is a third-party interface, the argument
  \<open>verify\<close>.  A handler that calls the broker is split at the call: what it does before,
  the call itself (the state machines of \<open>TB_Broker\<close>), and what it makes of the result.
\<close>

section \<open>Requests and responses\<close>

datatype body =
    ErrorResponse string string
  | BackendErrorResponse string string
  | TokenBody string
  | EventBody Event
  | TextBody string
  | NoBody

datatype response =
    Reply int body
  | Redirect string
  | Silent

record http_request =
  HHeader :: "string \<Rightarrow> string"
  HBody :: string
  HQuery :: string

record VClaims =
  Subject :: string
  Extra :: "(string, json) gomap"

record Handler =
  allowedRedirectHosts :: "string list"
  jwtVerifier :: "(string \<Rightarrow> string list \<Rightarrow> goerr + VClaims) option"
  jwtAudiences :: "string list"

definition NewHandler :: "string list \<Rightarrow> Handler" where
  "NewHandler hosts = \<lparr>allowedRedirectHosts = hosts, jwtVerifier = None, jwtAudiences = []\<rparr>"

definition WithJWTVerifier :: "(string \<Rightarrow> string list \<Rightarrow> goerr + VClaims) \<Rightarrow> string list \<Rightarrow> Handler \<Rightarrow> Handler" where
  "WithJWTVerifier verify audiences h = h\<lparr>jwtVerifier := Some verify, jwtAudiences := audiences\<rparr>"

definition writeError :: "int \<Rightarrow> string \<Rightarrow> string \<Rightarrow> response" where
  "writeError status code message = Reply status (ErrorResponse code message)"

definition writeBackendError :: "int \<Rightarrow> string \<Rightarrow> string \<Rightarrow> response" where
  "writeBackendError status code message = Reply status (BackendErrorResponse code message)"

text \<open>A checked type assertion \<^verbatim>\<open>v, _ := m[k].(string)\<close>.\<close>

definition extra_string :: "string \<Rightarrow> (string, json) gomap \<Rightarrow> string" where
  "extra_string k m = (case map_of m k of Some (JStr s) \<Rightarrow> s | _ \<Rightarrow> [])"

section \<open>Authentication\<close>

definition parseAndValidateJWT ::
  "Handler \<Rightarrow> (int \<Rightarrow> string \<Rightarrow> string \<Rightarrow> response) \<Rightarrow> http_request \<Rightarrow> response + string \<times> string" where
  "parseAndValidateJWT h errWriter r =
     (case ExtractBearerToken (HHeader r ''Authorization'') of
        Inl e \<Rightarrow> Inl (errWriter 401 ''invalid_token'' ''Missing or invalid Authorization header'')
      | Inr tokenStr \<Rightarrow>
          (case jwtVerifier h of
             Some verify \<Rightarrow>
               (case verify tokenStr (jwtAudiences h) of
                  Inl e \<Rightarrow> Inl (errWriter 401 ''invalid_token'' (''JWT validation failed: '' @ Error e))
                | Inr claims \<Rightarrow>
                    (let uid = extra_string ''session_uid'' (Extra claims);
                         sk = (if uid = [] then extra_string ''jti'' (Extra claims) else uid)
                     in if Subject claims = [] \<or> sk = []
                        then Inl (errWriter 401 ''invalid_token'' ''JWT missing required sub or session_uid/jti claims'')
                        else Inr (Subject claims, sk)))
           | None \<Rightarrow>
               (case ParseJWTWithoutValidation tokenStr of
                  Inl e \<Rightarrow> Inl (errWriter 401 ''invalid_token'' (''Invalid JWT: '' @ Error e))
                | Inr legacyClaims \<Rightarrow> Inr (Sub legacyClaims, GetSessionKey legacyClaims))))"

section \<open>POST /sessions\<close>

text \<open>
  \<^verbatim>\<open>json.Decoder.Decode\<close> into a struct reads one value and ignores what follows it: the
  shortest prefix that is a value decides.
\<close>

fun first_value :: "string \<Rightarrow> string \<Rightarrow> json option" where
  "first_value pre rest =
     (case json_parse pre of
        Some j \<Rightarrow> Some j
      | None \<Rightarrow> (case rest of [] \<Rightarrow> None | c # cs \<Rightarrow> first_value (pre @ [c]) cs))"

definition decode_create_request :: "string \<Rightarrow> string option" where
  "decode_create_request body =
     Option.bind (first_value [] body)
       (\<lambda>j. unmarshal_struct [str_field ''backend_session_redirect_url'' (\<lambda>v _. v)] j [])"

text \<open>\<^verbatim>\<open>URL.Hostname\<close>: the host without its port and without brackets.\<close>

definition Hostname :: "URL \<Rightarrow> string" where
  "Hostname u =
     (let host = (case last_index (CHR '':'') (Host u) of
                    None \<Rightarrow> Host u
                  | Some i \<Rightarrow> if valid_optional_port (drop i (Host u)) then take i (Host u) else Host u)
      in if has_prefix host ''['' \<and> has_suffix host '']'' then butlast (tl host) else host)"

fun allowed_host :: "string \<Rightarrow> string list \<Rightarrow> bool" where
  "allowed_host host [] = False"
| "allowed_host host (allowed # hs) = (if allowed = host then True else allowed_host host hs)"

definition isAllowedRedirectHost :: "Handler \<Rightarrow> string \<Rightarrow> bool" where
  "isAllowedRedirectHost h host = allowed_host host (allowedRedirectHosts h)"

definition redirect_permitted :: "Handler \<Rightarrow> string \<Rightarrow> bool" where
  "redirect_permitted h redirectURL =
     (if redirectURL \<noteq> [] \<and> length (allowedRedirectHosts h) > 0 then
        (case url_Parse redirectURL of Inl e \<Rightarrow> False | Inr parsed \<Rightarrow> isAllowedRedirectHost h (Hostname parsed))
      else True)"

definition HandleCreateSession ::
  "Handler \<Rightarrow> http_request \<Rightarrow> gotime \<Rightarrow> SessionManager \<Rightarrow> response \<times> SessionManager" where
  "HandleCreateSession h r now sm =
     (case parseAndValidateJWT h writeBackendError r of
        Inl resp \<Rightarrow> (resp, sm)
      | Inr (userID, sessionKey) \<Rightarrow>
          (case decode_create_request (HBody r) of
             None \<Rightarrow> (writeBackendError 400 ''invalid_request'' ''Invalid request body'', sm)
           | Some redirectURL \<Rightarrow>
               if \<not> redirect_permitted h redirectURL then
                 (writeBackendError 400 ''invalid_request'' ''backend_session_redirect_url host is not permitted'', sm)
               else
                 (case CreateSession sessionKey userID redirectURL now sm of
                    (Some err, sm') \<Rightarrow>
                      (if Error err = ''max sessions per user exceeded''
                       then writeBackendError 429 ''too_many_sessions'' (Error err)
                       else writeBackendError 500 ''internal_error'' ''Failed to create session'', sm')
                  | (None, sm') \<Rightarrow> (Reply 201 NoBody, sm'))))"

section \<open>POST /sessions/token\<close>

definition get_token_request :: "Handler \<Rightarrow> http_request \<Rightarrow> SessionManager \<Rightarrow> response + request" where
  "get_token_request h r sm =
     (case parseAndValidateJWT h writeError r of
        Inl resp \<Rightarrow> Inl resp
      | Inr (userID, sessionKey) \<Rightarrow>
          (let resourceURL = HHeader r ''X-Server-Url'' in
           if resourceURL = [] then Inl (writeError 400 ''invalid_request'' ''Missing X-Server-Url header'')
           else if ValidateSession sessionKey userID sm \<noteq> None then
             Inl (writeError 401 ''unauthorized'' ''Invalid session or user mismatch'')
           else Inr \<lparr>RKey = sessionKey, RUser = userID, RResource = resourceURL\<rparr>))"

definition get_token_response :: "goerr + string \<Rightarrow> response" where
  "get_token_response res =
     (case res of
        Inl err \<Rightarrow>
          if errors_is err ErrOAuthTimeout then
            writeError 408 ''timeout'' ''OAuth flow did not complete in time''
          else if errors_is err ErrSessionEnded \<or> errors_is err ErrSessionExpired then
            writeError 401 ''session_expired'' ''Session ended or expired''
          else if errors_is err ErrOAuthUpstream then
            writeError 502 ''oauth_upstream'' ''Upstream OAuth provider error''
          else writeError 500 ''internal_error'' ''Failed to obtain token''
      | Inr accessToken \<Rightarrow> Reply 200 (TokenBody accessToken))"

section \<open>POST /sessions/broker-events\<close>

text \<open>
  The program points of \<^verbatim>\<open>handleEventLongPoll\<close>.  The timer is started when the handler returns,
  whatever the select chose; a client that went away gets no response.
\<close>

datatype epc =
    EValidate
  | EReset
  | EGetSession
  | ESelect nat
  | EStartTimer response
  | EEnd response

definition expired_event :: Event where
  "expired_event = \<lparr>EventType = ''error'', EventAuthURL = [], Message = ''Session expired'', EventCode = ''session_expired''\<rparr>"

fun events_step :: "string \<Rightarrow> string \<Rightarrow> gotime \<Rightarrow> bool \<Rightarrow> epc \<Rightarrow> SessionManager \<Rightarrow> (epc \<times> SessionManager) list" where
  "events_step sessionKey userID now ctxDone EValidate sm =
     (if ValidateSession sessionKey userID sm \<noteq> None
      then [(EEnd (writeBackendError 401 ''unauthorized'' ''Invalid session or user mismatch''), sm)]
      else [(EReset, sm)])"
| "events_step sessionKey userID now ctxDone EReset sm = [(EGetSession, ResetSessionTimer sessionKey now sm)]"
| "events_step sessionKey userID now ctxDone EGetSession sm =
     (case GetSession sessionKey sm of
        Inl err \<Rightarrow> [(EEnd (writeBackendError 401 ''session_not_found'' ''Session not found''), sm)]
      | Inr a \<Rightarrow> [(ESelect a, sm)])"
| "events_step sessionKey userID now ctxDone (ESelect a) sm =
     (case try_recv (EventWaiters (store sm ! a)) of
        None \<Rightarrow> []
      | Some (event, ch) \<Rightarrow>
          [(EStartTimer (Reply 200 (EventBody event)), set_session a (\<lambda>s. s\<lparr>EventWaiters := ch\<rparr>) sm)]) @
     (if Done (store sm ! a) then [(EStartTimer (Reply 200 (EventBody expired_event)), sm)] else []) @
     (if ctxDone then [(EStartTimer Silent, sm)] else [])"
| "events_step sessionKey userID now ctxDone (EStartTimer resp) sm = [(EEnd resp, StartSessionTimer sessionKey now sm)]"
| "events_step sessionKey userID now ctxDone (EEnd resp) sm = []"

definition HandleEvents :: "Handler \<Rightarrow> http_request \<Rightarrow> response + string \<times> string \<times> epc" where
  "HandleEvents h r =
     (case parseAndValidateJWT h writeBackendError r of
        Inl resp \<Rightarrow> Inl resp
      | Inr (userID, sessionKey) \<Rightarrow> Inr (sessionKey, userID, EValidate))"

section \<open>GET /oauth/callback\<close>

definition addQueryParams :: "string \<Rightarrow> (string \<times> string) list \<Rightarrow> string" where
  "addQueryParams baseURL params =
     (case url_Parse baseURL of
        Inl e \<Rightarrow> baseURL
      | Inr u \<Rightarrow>
          (let q = fold (\<lambda>(key, value). values_Set key value) params (ParseQuery (RawQuery u))
           in url_String (u\<lparr>RawQuery := Encode q\<rparr>)))"

definition callback_error :: "string \<Rightarrow> string \<Rightarrow> string \<Rightarrow> SessionManager \<Rightarrow> response" where
  "callback_error errorParam errorDescription state sm =
     (let fallback = Reply 400 (TextBody (''OAuth error: '' @ errorParam @ '' - '' @ errorDescription)) in
      if state \<noteq> [] then
        (case GetSessionByState state sm of
           Inr a \<Rightarrow>
             if BackendSessionRedirectURL (store sm ! a) \<noteq> [] then
               Redirect (addQueryParams (BackendSessionRedirectURL (store sm ! a))
                 [(''oauth_status'', ''error''), (''error'', errorParam), (''error_description'', errorDescription)])
             else fallback
         | Inl e \<Rightarrow> fallback)
      else fallback)"

text \<open>
  Up to the call of \<^verbatim>\<open>CompleteOAuth\<close>: an early response, or the session object found and the
  arguments of the call.
\<close>

definition HandleOAuthCallback :: "http_request \<Rightarrow> SessionManager \<Rightarrow> response + nat \<times> completion" where
  "HandleOAuthCallback r sm =
     (let query = ParseQuery (HQuery r);
          code = values_Get ''code'' query;
          state = values_Get ''state'' query;
          errorParam = values_Get ''error'' query;
          errorDescription = values_Get ''error_description'' query
      in if errorParam \<noteq> [] then Inl (callback_error errorParam errorDescription state sm)
         else if code = [] \<or> state = [] then Inl (Reply 400 (TextBody ''Missing code or state parameter''))
         else
           (case GetSessionByState state sm of
              Inl e \<Rightarrow> Inl (Reply 400 (TextBody ''Invalid or expired OAuth session''))
            | Inr a \<Rightarrow> Inr (a, \<lparr>CKey = SessionKey (store sm ! a), CUser = UserID (store sm ! a),
                               CCode = code, CState = state\<rparr>)))"

definition callback_response :: "nat \<Rightarrow> goerr option \<Rightarrow> SessionManager \<Rightarrow> response" where
  "callback_response a err sm =
     (let redirect = BackendSessionRedirectURL (store sm ! a) in
      case err of
        Some e \<Rightarrow>
          if redirect \<noteq> [] then
            Redirect (addQueryParams redirect
              [(''oauth_status'', ''error''), (''error'', ''token_exchange_failed''),
               (''error_description'', ''Failed to exchange authorization code for access token'')])
          else Reply 500 (TextBody ''Failed to complete OAuth flow'')
      | None \<Rightarrow>
          if redirect = [] then Reply 200 (TextBody ''OAuth authorization successful. You may close this window.'')
          else Redirect (addQueryParams redirect [(''oauth_status'', ''success'')]))"

section \<open>POST /sessions/end\<close>

text \<open>The check and the end are two calls of the store; without interference they compose.\<close>

definition end_session_request :: "Handler \<Rightarrow> http_request \<Rightarrow> SessionManager \<Rightarrow> response + string" where
  "end_session_request h r sm =
     (case parseAndValidateJWT h writeBackendError r of
        Inl resp \<Rightarrow> Inl resp
      | Inr (userID, sessionKey) \<Rightarrow>
          if ValidateSession sessionKey userID sm \<noteq> None then
            Inl (writeBackendError 401 ''unauthorized'' ''Invalid session or user mismatch'')
          else Inr sessionKey)"

definition end_session_call :: "string \<Rightarrow> SessionManager \<Rightarrow> (response \<times> SessionManager) option" where
  "end_session_call sessionKey sm =
     (case EndSession sessionKey sm of
        None \<Rightarrow> None
      | Some (Some err, sm') \<Rightarrow>
          Some (writeBackendError 500 ''internal_error'' ''Failed to end session'', sm')
      | Some (None, sm') \<Rightarrow> Some (Reply 200 NoBody, sm'))"

definition HandleEndSession :: "Handler \<Rightarrow> http_request \<Rightarrow> SessionManager \<Rightarrow> (response \<times> SessionManager) option" where
  "HandleEndSession h r sm =
     (case end_session_request h r sm of
        Inl resp \<Rightarrow> Some (resp, sm)
      | Inr sessionKey \<Rightarrow> end_session_call sessionKey sm)"

section \<open>Laws\<close>

lemma allowed_host_iff: "allowed_host host hs \<longleftrightarrow> host \<in> set hs"
  by (induction hs) auto

lemma authenticated:
  "parseAndValidateJWT h w r = Inr (u, k) \<Longrightarrow> u \<noteq> [] \<and> k \<noteq> []"
  using ParseJWT_identity
  by (auto simp: parseAndValidateJWT_def Let_def split: sum.splits option.splits if_splits)

lemma values_Set_other: "j \<noteq> k \<Longrightarrow> map_of (values_Set k v vs) j = map_of vs j"
  by (simp add: values_Set_def gomap_simps)

lemma values_Set_same: "map_of (values_Set k v vs) k = Some [v]"
  by (simp add: values_Set_def gomap_simps)

lemma fold_values_Set_other:
  "j \<notin> fst ` set params \<Longrightarrow> map_of (fold (\<lambda>(k, v). values_Set k v) params vs) j = map_of vs j"
  by (induction params arbitrary: vs) (auto simp: values_Set_other)

lemma fold_values_Set_get:
  "distinct (map fst params) \<Longrightarrow> (k, v) \<in> set params \<Longrightarrow>
     map_of (fold (\<lambda>(k, v). values_Set k v) params vs) k = Some [v]"
proof (induction params arbitrary: vs)
  case (Cons p params)
  obtain j w where p: "p = (j, w)" by (cases p)
  show ?case
  proof (cases "(k, v) = (j, w)")
    case True
    then have "k \<notin> fst ` set params" using Cons.prems p by auto
    then show ?thesis using True by (simp add: p fold_values_Set_other values_Set_same)
  next
    case False
    then show ?thesis using Cons p by auto
  qed
qed simp

lemma fold_values_Set_wf:
  "gm_wf vs \<and> list_all (\<lambda>(k, l). l \<noteq> []) vs \<Longrightarrow>
     gm_wf (fold (\<lambda>(k, v). values_Set k v) params vs) \<and>
     list_all (\<lambda>(k, l). l \<noteq> []) (fold (\<lambda>(k, v). values_Set k v) params vs)"
  by (induction params arbitrary: vs) (auto simp: values_Set_wf)

lemma values_add_wf:
  assumes "gm_wf vs \<and> list_all (\<lambda>(k, l). l \<noteq> []) vs"
  shows "gm_wf (values_add k v vs) \<and> list_all (\<lambda>(k, l). l \<noteq> []) (values_add k v vs)"
proof -
  have "list_all (\<lambda>(k, l). l \<noteq> []) (AList.update k (w @ [v]) vs)" for w
    using conjunct2 [OF assms] by (induction vs) auto
  then show ?thesis using assms by (simp add: values_add_def gm_wf_update)
qed

lemma ParseQuery_wf: "gm_wf (ParseQuery q) \<and> list_all (\<lambda>(k, l). l \<noteq> []) (ParseQuery q)"
proof -
  have "gm_wf (fold (\<lambda>p vs. case query_pair p of None \<Rightarrow> vs | Some (k, v) \<Rightarrow> values_add k v vs) ps vs) \<and>
      list_all (\<lambda>(k, l). l \<noteq> []) (fold (\<lambda>p vs. case query_pair p of None \<Rightarrow> vs | Some (k, v) \<Rightarrow> values_add k v vs) ps vs)"
    if "gm_wf vs \<and> list_all (\<lambda>(k, l). l \<noteq> []) vs" for ps vs
    using that by (induction ps arbitrary: vs) (auto simp: values_add_wf split: option.split)
  from this [of "[]"] show ?thesis by (simp add: ParseQuery_def gm_wf_def)
qed

section \<open>Properties\<close>


definition demo_handler :: Handler where
  "demo_handler = \<lparr>allowedRedirectHosts = [''app''],
     jwtVerifier = Some (\<lambda>t auds. Inr \<lparr>Subject = t, Extra = [(''jti'', JStr ''k'')]\<rparr>), jwtAudiences = []\<rparr>"

definition demo_request :: http_request where
  "demo_request = \<lparr>HHeader = (\<lambda>n. if n = ''Authorization'' then ''Bearer u'' else if n = ''X-Server-Url'' then ''r'' else []),
     HBody = ''{\"backend_session_redirect_url\":\"http://app/?p=1\"}'', HQuery = []\<rparr>"

lemma demo_auth: "parseAndValidateJWT demo_handler w demo_request = Inr (''u'', ''k'')"
proof -
  have "ExtractBearerToken ''Bearer u'' = Inr ''u''" by code_simp
  then show ?thesis
    by (simp add: parseAndValidateJWT_def demo_handler_def demo_request_def extra_string_def)
qed

lemma demo_body: "decode_create_request (HBody demo_request) = Some ''http://app/?p=1''"
  by code_simp

lemma demo_permitted: "redirect_permitted demo_handler ''http://app/?p=1''"
  by (simp add: redirect_permitted_def isAllowedRedirectHost_def Hostname_def url_eval demo_handler_def)

lemma demo_created:
  "\<exists>sm'. HandleCreateSession demo_handler demo_request 0 (NewSessionManager 60 5) = (Reply 201 NoBody, sm') \<and>
     map_of (sessions sm') ''k'' = Some 0 \<and> BackendSessionRedirectURL (store sm' ! 0) = ''http://app/?p=1'' \<and>
     owner sm' ''k'' = Some ''u'' \<and> sm_wf sm'"
proof -
  obtain sm' where c: "CreateSession ''k'' ''u'' ''http://app/?p=1'' 0 (NewSessionManager 60 5) = (None, sm')"
    by (simp add: CreateSession_def NewSessionManager_def Let_def)
  have "sm_wf sm'" using CreateSession_wf [OF _ c] by simp
  moreover have "map_of (sessions sm') ''k'' = Some 0 \<and> BackendSessionRedirectURL (store sm' ! 0) = ''http://app/?p=1'' \<and>
      owner sm' ''k'' = Some ''u''"
    using c by (auto simp: CreateSession_def NewSessionManager_def Let_def owner_def gomap_simps)
  ultimately show ?thesis
    by (simp add: HandleCreateSession_def demo_auth demo_body demo_permitted c)
qed




text \<open>
   A session that ends between the handler's check and the broker's own check is reported
  as a server error: the broker's error wraps \<^verbatim>\<open>session not found\<close>, which the handler does not
  map, so the same request that is refused with 401 when it comes a moment later is
  answered 500.
\<close>

theorem lost_session_is_500:
  assumes "sm_wf sm" "get_token_request h r sm = Inr rq" "EndSession (RKey rq) sm = Some (err, sm')"
  shows "(\<exists>e'. acquire_step tb e rq AValidate sm' tokens = Some [(AEnd (Inl e'), sm', tokens)] \<and>
      get_token_response (Inl e') = Reply 500 (ErrorResponse ''internal_error'' ''Failed to obtain token'')) \<and>
    get_token_request h r sm' = Inl (Reply 401 (ErrorResponse ''unauthorized'' ''Invalid session or user mismatch''))"
proof -
  have "owner sm' (RKey rq) = None"
    using EndSession_effect [OF assms(1,3)] by auto
  then have gone: "map_of (sessions sm') (RKey rq) = None" by (auto simp: owner_def)
  show ?thesis
    using assms(2) gone
    by (auto simp: get_token_request_def get_token_response_def ValidateSession_def writeError_def Let_def
        split: sum.splits if_splits)
qed

theorem lost_session_is_500_witness:
  "\<exists>sm' e'. acquire_step demo_tb (demo_env 0) \<lparr>RKey = ''k'', RUser = ''u'', RResource = ''r''\<rparr> AValidate sm' [] =
       Some [(AEnd (Inl e'), sm', [])] \<and>
     get_token_response (Inl e') = Reply 500 (ErrorResponse ''internal_error'' ''Failed to obtain token'')"
proof -
  obtain sm where s: "sm_wf sm" "owner sm ''k'' = Some ''u''" using demo_created by blast
  obtain err sm1 where e: "EndSession ''k'' sm = Some (err, sm1)" using EndSession_total [OF s(1)] by blast
  have "get_token_request demo_handler demo_request sm = Inr \<lparr>RKey = ''k'', RUser = ''u'', RResource = ''r''\<rparr>"
    using s(2) ValidateSession_owner [of "''k''" "''u''" sm] by (simp add: get_token_request_def demo_auth) (simp add: demo_request_def)
  from lost_session_is_500 [OF s(1) this, of err sm1 demo_tb "demo_env 0" "[]"] e show ?thesis by auto
qed

end
