(* ===== verification/Go_Strings.thy ===== *)
theory Go_Strings
  imports Go_Encoding
begin

text \<open>
  Further functions of Go's standard library that the sources call: white space in the
  package \<^verbatim>\<open>strings\<close>, integers read by \<^verbatim>\<open>fmt.Sscanf\<close> and \<^verbatim>\<open>strconv\<close>, and durations.  Strings
  are byte sequences, so a white-space character beyond ASCII is its UTF-8 sequence.
\<close>

section \<open>White space\<close>

text \<open>How many bytes of white space (\<^verbatim>\<open>unicode.IsSpace\<close>) the string starts with: one character.\<close>

definition ascii_space :: "char \<Rightarrow> bool" where
  "ascii_space c \<longleftrightarrow> c \<in> {CHR '' '', CHR 0x09, CHR 0x0A, CHR 0x0B, CHR 0x0C, CHR 0x0D}"

definition wide_space :: "nat list \<Rightarrow> bool" where
  "wide_space bs \<longleftrightarrow>
     bs = [225, 154, 128] \<or> bs = [226, 129, 159] \<or> bs = [227, 128, 128] \<or>
     (\<exists>b \<in> set [128..<139] \<union> {168, 169, 175}. bs = [226, 128, b])"

definition space_len :: "string \<Rightarrow> nat" where
  "space_len s =
     (case s of
        [] \<Rightarrow> 0
      | c # cs \<Rightarrow>
          if ascii_space c then 1
          else if take 2 s = [CHR 0xC2, CHR 0x85] \<or> take 2 s = [CHR 0xC2, CHR 0xA0] then 2
          else if wide_space (map of_char (take 3 s)) then 3
          else 0)"

definition space_len_end :: "string \<Rightarrow> nat" where
  "space_len_end r =
     (case r of
        [] \<Rightarrow> 0
      | c # cs \<Rightarrow>
          if ascii_space c then 1
          else if take 2 r = [CHR 0x85, CHR 0xC2] \<or> take 2 r = [CHR 0xA0, CHR 0xC2] then 2
          else if wide_space (map of_char (rev (take 3 r))) then 3
          else 0)"

function drop_space :: "(string \<Rightarrow> nat) \<Rightarrow> string \<Rightarrow> string" where
  "drop_space len s = (if len s = 0 \<or> s = [] then s else drop_space len (drop (len s) s))"
  by auto
termination
  by (relation "measure (length \<circ> snd)") auto

declare drop_space.simps [simp del]

text \<open>\<^verbatim>\<open>strings.TrimSpace\<close>.\<close>

definition trim_space :: "string \<Rightarrow> string" where
  "trim_space s = rev (drop_space space_len_end (rev (drop_space space_len s)))"

text \<open>\<^verbatim>\<open>strings.Fields\<close>.\<close>

fun until_space :: "string \<Rightarrow> string \<times> string" where
  "until_space [] = ([], [])"
| "until_space (c # cs) =
     (if space_len (c # cs) > 0 then ([], c # cs)
      else (let (w, rest) = until_space cs in (c # w, rest)))"

lemma until_space_length: "length (snd (until_space s)) \<le> length s"
  by (induction s) (auto simp: case_prod_beta)

lemma drop_space_length: "length (drop_space len s) \<le> length s"
proof (induction len s rule: drop_space.induct)
  case (1 len s)
  then show ?case by (subst drop_space.simps) (auto intro: order_trans)
qed

lemma drop_space_done: "len (drop_space len s) = 0 \<or> drop_space len s = []"
proof (induction len s rule: drop_space.induct)
  case (1 len s)
  then show ?case by (cases "len s = 0 \<or> s = []") (simp_all add: drop_space.simps [of len s])
qed

function str_fields :: "string \<Rightarrow> string list" where
  "str_fields s =
     (case drop_space space_len s of
        [] \<Rightarrow> []
      | c # cs \<Rightarrow> (let (w, rest) = until_space (c # cs) in w # str_fields rest))"
  by auto
termination
proof (relation "measure length")
  fix s c cs w rest and x :: "string \<times> string"
  assume d: "drop_space space_len s = c # cs" and x: "x = until_space (c # cs)" "(w, rest) = x"
  have "space_len (c # cs) = 0" using drop_space_done [of space_len s] d by simp
  then have "rest = snd (until_space cs)" using x by (auto simp: case_prod_beta prod_eq_iff)
  then have "length rest \<le> length cs" using until_space_length by simp
  then show "(rest, s) \<in> measure length" using drop_space_length [of space_len s] d by simp
qed simp

declare str_fields.simps [simp del]

lemma space_len_end_Cons:
  "ascii_space c \<Longrightarrow> space_len (c # cs) = 1" "ascii_space c \<Longrightarrow> space_len_end (c # cs) = 1"
  by (simp_all add: space_len_def space_len_end_def)

text \<open>The comma-separated lists of the environment: trimmed, empty entries dropped.\<close>

definition split_trim :: "char \<Rightarrow> string \<Rightarrow> string list" where
  "split_trim c s = filter (\<lambda>t. t \<noteq> []) (map trim_space (split c s))"

section \<open>Integers\<close>

text \<open>
  The verb \<open>%d\<close> of \<^verbatim>\<open>fmt.Sscanf\<close>: leading white space (a newline is an error), a sign, then
  as many digits as follow; the rest of the input is not looked at.
\<close>

function skip_space :: "string \<Rightarrow> string option" where
  "skip_space s =
     (if s = [] then Some []
      else if take 2 s = [CHR 0x0D, CHR 0x0A] then skip_space (drop 2 s)
      else if hd s = CHR 0x0A then None
      else if space_len s = 0 then Some s
      else skip_space (drop (space_len s) s))"
  by auto
termination
  by (relation "measure length") auto

declare skip_space.simps [simp del]

definition scan_sign :: "string \<Rightarrow> bool \<times> string" where
  "scan_sign s =
     (case s of
        c # cs \<Rightarrow> if c = CHR ''-'' then (True, cs) else if c = CHR ''+'' then (False, cs) else (False, s)
      | [] \<Rightarrow> (False, []))"

definition int64_of :: "bool \<Rightarrow> string \<Rightarrow> int option" where
  "int64_of neg ds =
     (case parse_nat ds of
        None \<Rightarrow> None
      | Some n \<Rightarrow>
          (let i = (if neg then - n else n) in
           if - (2 ^ 63) \<le> i \<and> i < 2 ^ 63 then Some i else None))"

definition sscanf_d :: "string \<Rightarrow> int option" where
  "sscanf_d s =
     (case skip_space s of
        None \<Rightarrow> None
      | Some s' \<Rightarrow> (let (neg, ds) = scan_sign s' in int64_of neg (takeWhile is_digit ds)))"

text \<open>\<^verbatim>\<open>strconv.Atoi\<close>: the whole string, with an optional sign.\<close>

definition atoi :: "string \<Rightarrow> int option" where
  "atoi s = (let (neg, ds) = scan_sign s in int64_of neg ds)"

text \<open>Addition of Go's 64-bit integers wraps around.\<close>

definition wrap64 :: "int \<Rightarrow> int" where
  "wrap64 i = (i + 2 ^ 63) mod 2 ^ 64 - 2 ^ 63"

definition in64 :: "int \<Rightarrow> bool" where
  "in64 i \<longleftrightarrow> - (2 ^ 63) \<le> i \<and> i < 2 ^ 63"

lemma wrap64_id: "in64 i \<Longrightarrow> wrap64 i = i"
  by (simp add: wrap64_def in64_def)

lemma sscanf_d_range: "sscanf_d s = Some i \<Longrightarrow> in64 i"
  by (auto simp: sscanf_d_def int64_of_def in64_def Let_def split: option.splits if_splits prod.splits)

section \<open>Durations\<close>

text \<open>
  \<^verbatim>\<open>time.ParseDuration\<close>: a sign, then decimal numbers, each with an optional fraction and a
  unit.  Integer arithmetic is checked against overflow; the fraction is multiplied in
  double precision, hence the rounding of a quotient to 53 bits, to nearest and to even.
\<close>

function bit_length :: "int \<Rightarrow> nat" where
  "bit_length n = (if n \<le> 0 then 0 else Suc (bit_length (n div 2)))"
  by auto
termination
  by (relation "measure nat") auto

declare bit_length.simps [simp del]

definition round_half_even :: "int \<Rightarrow> int \<Rightarrow> int" where
  "round_half_even a b =
     (let q = a div b; r = a mod b in
      if 2 * r < b \<or> (2 * r = b \<and> even q) then q else q + 1)"

text \<open>A positive double is a mantissa and an exponent; \<open>round_ratio a b\<close> is the double nearest to \<open>a / b\<close>.\<close>

definition round_ratio :: "int \<Rightarrow> int \<Rightarrow> int \<times> int" where
  "round_ratio a b =
     (let e = int (bit_length a) - int (bit_length b) - 53;
          scaled = (\<lambda>e. if e \<ge> 0 then round_half_even a (b * 2 ^ nat e) else round_half_even (a * 2 ^ nat (- e)) b);
          e' = (if scaled e < 2 ^ 53 then e else e + 1)
      in (scaled e', e'))"

definition mul_trunc :: "int \<times> int \<Rightarrow> int \<times> int \<Rightarrow> int" where
  "mul_trunc x y =
     (let e = snd x + snd y;
          (m, e') = (if e \<ge> 0 then round_ratio (fst x * fst y * 2 ^ nat e) 1
                     else round_ratio (fst x * fst y) (2 ^ nat (- e)))
      in if e' \<ge> 0 then m * 2 ^ nat e' else m div 2 ^ nat (- e'))"

definition unit_map :: "(string \<times> int) list" where
  "unit_map = [(''ns'', 1), (''us'', 1000), ([CHR 0xC2, CHR 0xB5, CHR ''s''], 1000),
     ([CHR 0xCE, CHR 0xBC, CHR ''s''], 1000), (''ms'', 1000000), (''s'', 1000000000),
     (''m'', 60 * 1000000000), (''h'', 3600 * 1000000000)]"

definition digit_val :: "char \<Rightarrow> int" where
  "digit_val c = int (of_char c) - 48"

text \<open>\<^verbatim>\<open>leadingInt\<close> fails beyond 2 to the 63; \<^verbatim>\<open>leadingFraction\<close> ignores the digits that no longer fit.\<close>

fun leading_int :: "int \<Rightarrow> string \<Rightarrow> (int \<times> string) option" where
  "leading_int x [] = Some (x, [])"
| "leading_int x (c # cs) =
     (if \<not> is_digit c then Some (x, c # cs)
      else if x > 2 ^ 63 div 10 then None
      else if x * 10 + digit_val c > 2 ^ 63 then None
      else leading_int (x * 10 + digit_val c) cs)"

fun leading_fraction :: "bool \<Rightarrow> int \<Rightarrow> int \<Rightarrow> string \<Rightarrow> int \<times> int \<times> string" where
  "leading_fraction overflow x scale [] = (x, scale, [])"
| "leading_fraction overflow x scale (c # cs) =
     (if \<not> is_digit c then (x, scale, c # cs)
      else if overflow then leading_fraction True x scale cs
      else if x > (2 ^ 63 - 1) div 10 then leading_fraction True x scale cs
      else if x * 10 + digit_val c > 2 ^ 63 then leading_fraction True x scale cs
      else leading_fraction False (x * 10 + digit_val c) (scale * 10) cs)"

definition unit_char :: "char \<Rightarrow> bool" where
  "unit_char c \<longleftrightarrow> c \<noteq> CHR ''.'' \<and> \<not> is_digit c"

definition duration_term :: "string \<Rightarrow> (int \<times> string) option" where
  "duration_term s =
     (if \<not> (hd s = CHR ''.'' \<or> is_digit (hd s)) then None
      else case leading_int 0 s of
        None \<Rightarrow> None
      | Some (v, s1) \<Rightarrow>
          (let pre = (length s1 \<noteq> length s);
               (f, scale, s2) =
                 (if s1 \<noteq> [] \<and> hd s1 = CHR ''.'' then leading_fraction False 0 1 (tl s1) else (0, 1, s1));
               post = (s1 \<noteq> [] \<and> hd s1 = CHR ''.'' \<and> length s2 \<noteq> length (tl s1));
               u = takeWhile unit_char s2;
               rest = dropWhile unit_char s2
           in if \<not> pre \<and> \<not> post then None
              else if u = [] then None
              else case map_of unit_map u of
                None \<Rightarrow> None
              | Some unit \<Rightarrow>
                  if v > 2 ^ 63 div unit then None
                  else
                    (let v' = v * unit + (if f > 0 then mul_trunc (round_ratio f 1) (round_ratio unit scale) else 0)
                     in if v' > 2 ^ 63 then None else Some (v', rest))))"

text \<open>Every term of the loop consumes input, so the length of the string bounds the iterations.\<close>

fun duration_terms :: "nat \<Rightarrow> int \<Rightarrow> string \<Rightarrow> int option" where
  "duration_terms n d [] = Some d"
| "duration_terms 0 d (c # cs) = None"
| "duration_terms (Suc n) d (c # cs) =
     (case duration_term (c # cs) of
        None \<Rightarrow> None
      | Some (v, rest) \<Rightarrow> if d + v > 2 ^ 63 then None else duration_terms n (d + v) rest)"

definition ParseDuration :: "string \<Rightarrow> int option" where
  "ParseDuration s =
     (let (neg, s') = scan_sign s in
      if s' = ''0'' then Some 0
      else if s' = [] then None
      else case duration_terms (length s') 0 s' of
        None \<Rightarrow> None
      | Some d \<Rightarrow> if neg then Some (- d) else if d > 2 ^ 63 - 1 then None else Some d)"

lemma leading_int_length: "leading_int x s = Some (v, s') \<Longrightarrow> length s' \<le> length s"
  by (induction x s rule: leading_int.induct) (auto split: if_splits)

lemma leading_fraction_length: "length (snd (snd (leading_fraction ov x scale s))) \<le> length s"
proof (induction s arbitrary: ov x scale)
  case (Cons c cs)
  show ?case
    using Cons.IH [of True x scale] Cons.IH [of False "x * 10 + digit_val c" "scale * 10"] by auto
qed simp

lemma duration_term_consumes:
  assumes "duration_term s = Some (v, rest)"
  shows "length rest < length s"
proof -
  obtain v1 s1 where i: "leading_int 0 s = Some (v1, s1)"
    using assms by (auto simp: duration_term_def split: if_splits option.splits)
  let ?s2 = "snd (snd (if s1 \<noteq> [] \<and> hd s1 = CHR ''.'' then leading_fraction False 0 1 (tl s1) else (0, 1, s1)))"
  have le: "length ?s2 \<le> length s"
    using leading_int_length [OF i] leading_fraction_length [of False 0 1 "tl s1"] by auto
  have ne: "takeWhile unit_char ?s2 \<noteq> []" and r: "rest = dropWhile unit_char ?s2"
    using assms i by (auto simp: duration_term_def Let_def case_prod_beta split: if_splits option.splits)
  have "length ?s2 = length (takeWhile unit_char ?s2) + length (dropWhile unit_char ?s2)"
    by (metis length_append takeWhile_dropWhile_id)
  then show ?thesis using le ne r by (cases "takeWhile unit_char ?s2") auto
qed

lemma duration_terms_fuel:
  "length s \<le> n \<Longrightarrow> length s \<le> m \<Longrightarrow> duration_terms n d s = duration_terms m d s"
proof (induction n arbitrary: m d s)
  case 0
  then show ?case by (cases m) simp_all
next
  case (Suc n)
  show ?case
  proof (cases s)
    case (Cons c cs)
    then obtain m' where m: "m = Suc m'" using Suc.prems by (cases m) auto
    have "duration_terms n (d + v) rest = duration_terms m' (d + v) rest"
      if "duration_term (c # cs) = Some (v, rest)" for v rest
      using Suc.IH [of rest m'] Suc.prems duration_term_consumes [OF that] by (simp add: Cons m)
    then show ?thesis by (auto simp: Cons m split: option.splits)
  qed simp
qed

lemma round_half_even_nonneg: "0 \<le> a \<Longrightarrow> 0 < b \<Longrightarrow> 0 \<le> round_half_even a b"
  using pos_imp_zdiv_nonneg_iff [of b a] by (simp add: round_half_even_def Let_def)

lemma round_ratio_nonneg: "0 \<le> a \<Longrightarrow> 0 < b \<Longrightarrow> 0 \<le> fst (round_ratio a b)"
  by (simp add: round_ratio_def Let_def round_half_even_nonneg)

lemma mul_trunc_nonneg: "0 \<le> fst x \<Longrightarrow> 0 \<le> fst y \<Longrightarrow> 0 \<le> mul_trunc x y"
  using round_ratio_nonneg [of "fst x * fst y * 2 ^ nat (snd x + snd y)" 1]
    round_ratio_nonneg [of "fst x * fst y" "2 ^ nat (- (snd x + snd y))"]
  by (auto simp: mul_trunc_def Let_def pos_imp_zdiv_nonneg_iff split: prod.split)

lemma digit_val_nonneg: "is_digit c \<Longrightarrow> 0 \<le> digit_val c"
  by (simp add: digit_val_def is_digit_def)

lemma leading_int_nonneg: "leading_int x s = Some (v, s') \<Longrightarrow> 0 \<le> x \<Longrightarrow> 0 \<le> v"
  by (induction x s rule: leading_int.induct) (auto simp: digit_val_nonneg split: if_splits)

lemma leading_fraction_scale: "0 < scale \<Longrightarrow> 0 < fst (snd (leading_fraction ov x scale s))"
proof (induction s arbitrary: ov x scale)
  case (Cons c cs)
  show ?case
    using Cons.IH [of scale True x] Cons.IH [of "scale * 10" False "x * 10 + digit_val c"] Cons.prems by auto
qed simp

lemma unit_map_pos: "map_of unit_map u = Some n \<Longrightarrow> 0 < n"
  by (auto simp: unit_map_def split: if_splits)

lemma duration_term_nonneg:
  assumes "duration_term s = Some (d, rest)"
  shows "0 \<le> d"
proof -
  obtain v s1 where i: "leading_int 0 s = Some (v, s1)"
    using assms by (auto simp: duration_term_def split: if_splits option.splits)
  let ?r = "if s1 \<noteq> [] \<and> hd s1 = CHR ''.'' then leading_fraction False 0 1 (tl s1) else (0, 1, s1)"
  obtain n where u: "0 < n" and
    d: "d = v * n + (if fst ?r > 0 then mul_trunc (round_ratio (fst ?r) 1) (round_ratio n (fst (snd ?r))) else 0)"
    using assms i by (auto simp: duration_term_def Let_def case_prod_beta split: if_splits option.splits dest!: unit_map_pos)
  have "0 < fst (snd ?r)" using leading_fraction_scale [of 1 False 0 "tl s1"] by simp
  then have "0 \<le> mul_trunc (round_ratio (fst ?r) 1) (round_ratio n (fst (snd ?r)))" if "fst ?r > 0"
    using that u by (intro mul_trunc_nonneg round_ratio_nonneg) simp_all
  then show ?thesis using d u leading_int_nonneg [OF i] by simp
qed

lemma duration_terms_range:
  "duration_terms n d s = Some r \<Longrightarrow> 0 \<le> d \<and> d \<le> 2 ^ 63 \<Longrightarrow> 0 \<le> r \<and> r \<le> 2 ^ 63"
proof (induction n d s rule: duration_terms.induct)
  case (3 n d c cs)
  then show ?case using duration_term_nonneg by (fastforce split: option.splits if_splits)
qed simp_all

lemma ParseDuration_range: "ParseDuration s = Some d \<Longrightarrow> in64 d"
  using duration_terms_range [of _ 0]
  by (fastforce simp: ParseDuration_def in64_def Let_def split: option.splits if_splits prod.splits)

end
