(* ===== verification/TB_Config.thy ===== *)
theory TB_Config
  imports TB_Api Go_Strings
begin

text \<open>
  Configuration and start-up of the broker (\<^verbatim>\<open>token-broker/cmd/main.go\<close>).  The environment is a
  function from names to values, empty for unset ones, as \<^verbatim>\<open>os.Getenv\<close> returns it; logging is
  left out.  The verifier that \<^verbatim>\<open>main\<close> builds from the key set's URL is an argument.
\<close>

section \<open>Configuration\<close>

record BrokerConfig =
  ListenPort :: int
  CfgClientID :: string
  CfgClientSecret :: string
  CfgCallbackURL :: string
  SessionTimeout :: duration
  MaxSessionsPerUser :: int
  TokenWaitTimeout :: duration
  CfgAuthorizationEndpoint :: string
  CfgTokenEndpoint :: string
  CfgScopesSupported :: "string list"
  CfgResourceScopes :: "(string, string list) gomap"
  CfgResourceConfigs :: "(string, ResourceConfig) gomap"
  AllowedRedirectHosts :: "string list"
  JWKSUrl :: string
  JWTIssuer :: string
  JWTAudiences :: "string list"

type_synonym getenv = "string \<Rightarrow> string"

definition DefaultConfig :: BrokerConfig where
  "DefaultConfig =
     \<lparr>ListenPort = 8190, CfgClientID = [], CfgClientSecret = [],
      CfgCallbackURL = ''http://localhost:8190/oauth/callback'',
      SessionTimeout = 60 * Second, MaxSessionsPerUser = 5, TokenWaitTimeout = 300 * Second,
      CfgAuthorizationEndpoint = [], CfgTokenEndpoint = [], CfgScopesSupported = [],
      CfgResourceScopes = [], CfgResourceConfigs = [], AllowedRedirectHosts = [],
      JWKSUrl = [], JWTIssuer = [], JWTAudiences = []\<rparr>"

text \<open>The shapes the loaders repeat: a value that replaces, a parsed value that replaces if it parses.\<close>

definition set_env :: "getenv \<Rightarrow> string \<Rightarrow> (string \<Rightarrow> BrokerConfig \<Rightarrow> BrokerConfig) \<Rightarrow> BrokerConfig \<Rightarrow> BrokerConfig" where
  "set_env env name upd cfg = (let v = env name in if v \<noteq> [] then upd v cfg else cfg)"

definition set_parsed ::
  "getenv \<Rightarrow> string \<Rightarrow> (string \<Rightarrow> int option) \<Rightarrow> (int \<Rightarrow> BrokerConfig \<Rightarrow> BrokerConfig) \<Rightarrow> BrokerConfig \<Rightarrow> BrokerConfig" where
  "set_parsed env name read upd cfg =
     (let v = env name in
      if v \<noteq> [] then (case read v of Some i \<Rightarrow> upd i cfg | None \<Rightarrow> cfg) else cfg)"

definition loadCoreConfig :: "getenv \<Rightarrow> BrokerConfig \<Rightarrow> BrokerConfig" where
  "loadCoreConfig env cfg0 =
     (let cfg1 = set_parsed env ''TOKEN_BROKER_PORT'' sscanf_d (\<lambda>i c. c\<lparr>ListenPort := i\<rparr>) cfg0;
          cfg2 = set_env env ''OAUTH_CLIENT_ID'' (\<lambda>v c. c\<lparr>CfgClientID := v\<rparr>) cfg1;
          cfg3 = set_env env ''OAUTH_CLIENT_SECRET'' (\<lambda>v c. c\<lparr>CfgClientSecret := v\<rparr>) cfg2;
          cfg4 = set_env env ''OAUTH_CALLBACK_URL'' (\<lambda>v c. c\<lparr>CfgCallbackURL := v\<rparr>) cfg3;
          cfg5 = set_parsed env ''TOKEN_BROKER_SESSION_TIMEOUT'' ParseDuration (\<lambda>d c. c\<lparr>SessionTimeout := d\<rparr>) cfg4;
          cfg6 = set_parsed env ''TOKEN_BROKER_MAX_SESSIONS_PER_USER'' sscanf_d (\<lambda>i c. c\<lparr>MaxSessionsPerUser := i\<rparr>) cfg5
      in set_parsed env ''TOKEN_BROKER_TOKEN_WAIT_TIMEOUT'' ParseDuration (\<lambda>d c. c\<lparr>TokenWaitTimeout := d\<rparr>) cfg6)"

definition loadOAuthDiscoveryConfig :: "getenv \<Rightarrow> BrokerConfig \<Rightarrow> BrokerConfig" where
  "loadOAuthDiscoveryConfig env cfg0 =
     (let cfg1 = set_env env ''OAUTH_AUTHORIZATION_ENDPOINT'' (\<lambda>v c. c\<lparr>CfgAuthorizationEndpoint := v\<rparr>) cfg0;
          cfg2 = set_env env ''OAUTH_TOKEN_ENDPOINT'' (\<lambda>v c. c\<lparr>CfgTokenEndpoint := v\<rparr>) cfg1
      in set_env env ''OAUTH_SCOPES_SUPPORTED''
           (\<lambda>v c. c\<lparr>CfgScopesSupported := CfgScopesSupported c @ split_trim (CHR '','') v\<rparr>) cfg2)"

text \<open>One entry of \<^verbatim>\<open>RESOURCE_SCOPES\<close>: a URL, an equals sign, scopes separated by white space.\<close>

definition scope_entry :: "string \<Rightarrow> (string, string list) gomap \<Rightarrow> (string, string list) gomap" where
  "scope_entry entry m =
     (let (l, r, found) = cut (CHR ''='') (trim_space entry) in
      if \<not> found then m
      else
        (let serverURL = trim_space l in
         if serverURL = [] then m
         else AList.update serverURL
                ((case map_of m serverURL of None \<Rightarrow> [] | Some l \<Rightarrow> l) @ str_fields r) m))"

text \<open>
  \<^verbatim>\<open>json.Unmarshal\<close> into a map of structs.  A value of the wrong type is skipped, decoding goes
  on, and the error is reported at the end, so what was decoded stays in the map.
\<close>

fun lenient_fields :: "ResourceConfig field list \<Rightarrow> (string \<times> json) list \<Rightarrow> ResourceConfig \<Rightarrow> ResourceConfig \<times> bool" where
  "lenient_fields fs [] s = (s, True)"
| "lenient_fields fs ((k, v) # kvs) s =
     (case find_field fs k of
        None \<Rightarrow> lenient_fields fs kvs s
      | Some f \<Rightarrow>
          (case f v s of
             Some s' \<Rightarrow> lenient_fields fs kvs s'
           | None \<Rightarrow>
               (let s' = (case (v, fold_name k = fold_name ''scopes'') of
                            (JArr js, True) \<Rightarrow> s\<lparr>RScopes := map (\<lambda>j. case j of JStr x \<Rightarrow> x | _ \<Rightarrow> []) js\<rparr>
                          | _ \<Rightarrow> s)
                in (fst (lenient_fields fs kvs s'), False))))"

definition resource_fields :: "ResourceConfig field list" where
  "resource_fields =
     [strs_field ''scopes'' (\<lambda>l c. c\<lparr>RScopes := l\<rparr>),
      str_field ''authorization_endpoint'' (\<lambda>v c. c\<lparr>RAuthorizationEndpoint := v\<rparr>),
      str_field ''token_endpoint'' (\<lambda>v c. c\<lparr>RTokenEndpoint := v\<rparr>)]"

definition decode_resource :: "json \<Rightarrow> ResourceConfig \<times> bool" where
  "decode_resource j =
     (let zero = \<lparr>RScopes = [], RAuthorizationEndpoint = [], RTokenEndpoint = []\<rparr> in
      case j of
        JObj kvs \<Rightarrow> lenient_fields resource_fields kvs zero
      | JNull \<Rightarrow> (zero, True)
      | _ \<Rightarrow> (zero, False))"

definition decode_resources ::
  "json \<Rightarrow> (string, ResourceConfig) gomap \<Rightarrow> (string, ResourceConfig) gomap \<times> bool" where
  "decode_resources j m =
     (case j of
        JObj kvs \<Rightarrow>
          (fold (\<lambda>(k, v). AList.update k (fst (decode_resource v))) kvs m,
           list_all (\<lambda>(k, v). snd (decode_resource v)) kvs)
      | JNull \<Rightarrow> ([], True)
      | _ \<Rightarrow> (m, False))"

definition loadResourceConfig :: "getenv \<Rightarrow> BrokerConfig \<Rightarrow> BrokerConfig" where
  "loadResourceConfig env cfg0 =
     (let cfg1 = set_env env ''RESOURCE_SCOPES''
            (\<lambda>v c. c\<lparr>CfgResourceScopes := fold scope_entry (split (CHR '','') v) []\<rparr>) cfg0
      in set_env env ''RESOURCE_CONFIG''
           (\<lambda>v c. case json_parse v of
                    None \<Rightarrow> c
                  | Some j \<Rightarrow> c\<lparr>CfgResourceConfigs := fst (decode_resources j (CfgResourceConfigs c))\<rparr>) cfg1)"

definition loadSecurityConfig :: "getenv \<Rightarrow> BrokerConfig \<Rightarrow> BrokerConfig" where
  "loadSecurityConfig env cfg0 =
     (let cfg1 = set_env env ''ALLOWED_REDIRECT_HOSTS''
            (\<lambda>v c. c\<lparr>AllowedRedirectHosts := AllowedRedirectHosts c @ split_trim (CHR '','') v\<rparr>) cfg0;
          cfg2 = set_env env ''JWT_JWKS_URL'' (\<lambda>v c. c\<lparr>JWKSUrl := v\<rparr>) cfg1;
          cfg3 = set_env env ''JWT_ISSUER'' (\<lambda>v c. c\<lparr>JWTIssuer := v\<rparr>) cfg2
      in set_env env ''JWT_AUDIENCE''
           (\<lambda>v c. c\<lparr>JWTAudiences := JWTAudiences c @ split_trim (CHR '','') v\<rparr>) cfg3)"

definition LoadConfig :: "getenv \<Rightarrow> BrokerConfig" where
  "LoadConfig env =
     loadSecurityConfig env (loadResourceConfig env (loadOAuthDiscoveryConfig env
       (loadCoreConfig env DefaultConfig)))"

definition Validate :: "BrokerConfig \<Rightarrow> goerr option" where
  "Validate c =
     (if ListenPort c \<le> 0 \<or> ListenPort c > 65535 then
        Some (Errorf [Lit ''invalid listen port: '', Lit (itoa (ListenPort c))])
      else if CfgClientID c = [] then Some (Errorf [Lit ''OAuth client ID is required (set OAUTH_CLIENT_ID)''])
      else if CfgClientSecret c = [] then
        Some (Errorf [Lit ''OAuth client secret is required (set OAUTH_CLIENT_SECRET)''])
      else if CfgCallbackURL c = [] then
        Some (Errorf [Lit ''OAuth callback URL is required (set OAUTH_CALLBACK_URL)''])
      else if SessionTimeout c \<le> 0 then Some (Errorf [Lit ''session timeout must be positive''])
      else if MaxSessionsPerUser c \<le> 0 then Some (Errorf [Lit ''max sessions per user must be positive''])
      else if TokenWaitTimeout c \<le> 0 then Some (Errorf [Lit ''token wait timeout must be positive''])
      else None)"

section \<open>Start-up\<close>

datatype route = Healthz | Readyz | CreateSessionR | GetTokenR | EventsR | EndSessionR | OAuthCallbackR

definition RegisterRoutes :: "((string \<times> string) \<times> route) list" where
  "RegisterRoutes =
     [((''POST'', ''/sessions''), CreateSessionR), ((''POST'', ''/sessions/token''), GetTokenR),
      ((''POST'', ''/sessions/broker-events''), EventsR), ((''POST'', ''/sessions/end''), EndSessionR),
      ((''GET'', ''/oauth/callback''), OAuthCallbackR)]"

record deployment =
  DBroker :: TokenBroker
  DHandler :: Handler
  DSys :: sys
  DRoutes :: "((string \<times> string) \<times> route) list"
  DAddr :: string
  DRequestTimeout :: duration
  DWriteTimeout :: duration

text \<open>What \<^verbatim>\<open>main\<close> builds: no deployment if the configuration is rejected.\<close>

definition start :: "getenv \<Rightarrow> (string \<Rightarrow> string \<Rightarrow> string \<Rightarrow> string list \<Rightarrow> goerr + VClaims) \<Rightarrow> goerr + deployment" where
  "start env newVerifier =
     (let cfg = LoadConfig env in
      case Validate cfg of
        Some err \<Rightarrow> Inl err
      | None \<Rightarrow>
          (let broker =
                 \<lparr>oauthClient = \<lparr>ClientID = CfgClientID cfg, ClientSecret = CfgClientSecret cfg\<rparr>,
                  discoverer = \<lparr>AuthorizationEndpoint = CfgAuthorizationEndpoint cfg,
                    DTokenEndpoint = CfgTokenEndpoint cfg, ScopesSupported = CfgScopesSupported cfg,
                    ResourceScopes = CfgResourceScopes cfg, ResourceConfigs = CfgResourceConfigs cfg\<rparr>,
                  callbackURL = CfgCallbackURL cfg, waitTimeout = TokenWaitTimeout cfg\<rparr>;
               h0 = NewHandler (AllowedRedirectHosts cfg);
               h = (if JWKSUrl cfg \<noteq> []
                    then WithJWTVerifier (newVerifier (JWKSUrl cfg) (JWTIssuer cfg)) (JWTAudiences cfg) h0 else h0)
           in Inr \<lparr>DBroker = broker, DHandler = h,
                   DSys = init_sys (SessionTimeout cfg) (MaxSessionsPerUser cfg),
                   DRoutes = ((''GET'', ''/healthz''), Healthz) # ((''GET'', ''/readyz''), Readyz) # RegisterRoutes,
                   DAddr = '':'' @ itoa (ListenPort cfg),
                   DRequestTimeout = wrap64 (TokenWaitTimeout cfg + 10 * Second),
                   DWriteTimeout = wrap64 (TokenWaitTimeout cfg + 30 * Second)\<rparr>))"

section \<open>Laws\<close>

lemma set_env_keeps:
  "(\<And>v c. P c \<Longrightarrow> P (upd v c)) \<Longrightarrow> P cfg \<Longrightarrow> P (set_env env name upd cfg)"
  by (simp add: set_env_def Let_def)

lemma set_parsed_keeps:
  "(\<And>s i c. read s = Some i \<Longrightarrow> P c \<Longrightarrow> P (upd i c)) \<Longrightarrow> P cfg \<Longrightarrow> P (set_parsed env name read upd cfg)"
  by (auto simp: set_parsed_def Let_def split: option.split)

definition cfg_typed :: "BrokerConfig \<Rightarrow> bool" where
  "cfg_typed c \<longleftrightarrow> in64 (ListenPort c) \<and> in64 (SessionTimeout c) \<and> in64 (MaxSessionsPerUser c) \<and>
     in64 (TokenWaitTimeout c) \<and> gm_wf (CfgResourceScopes c) \<and> gm_wf (CfgResourceConfigs c)"

lemma scope_entries_wf: "gm_wf m \<Longrightarrow> gm_wf (fold scope_entry es m)"
  by (induction es arbitrary: m) (auto simp: scope_entry_def Let_def split: prod.split)

lemma decode_resources_wf: "gm_wf m \<Longrightarrow> gm_wf (fst (decode_resources j m))"
proof -
  have "gm_wf m \<Longrightarrow> gm_wf (fold (\<lambda>(k, v). AList.update k (f v)) kvs m)" for kvs m and f :: "json \<Rightarrow> ResourceConfig"
    by (induction kvs arbitrary: m) auto
  then show "gm_wf m \<Longrightarrow> ?thesis" by (auto simp: decode_resources_def split: json.split)
qed

lemma decoded_key:
  "map_of (fold (\<lambda>(k, v). AList.update k (f v)) kvs m) k =
     (case map_of (rev kvs) k of Some v \<Rightarrow> Some (f v) | None \<Rightarrow> map_of m k)"
  by (induction kvs arbitrary: m) (auto simp: gomap_simps map_add_def split: option.splits)

section \<open>Properties\<close>



definition demo_getenv :: "string \<Rightarrow> string \<Rightarrow> getenv" where
  "demo_getenv resources = (\<lambda>wait name.
     if name = ''OAUTH_CLIENT_ID'' then ''id'' else if name = ''OAUTH_CLIENT_SECRET'' then ''sec''
     else if name = ''TOKEN_BROKER_TOKEN_WAIT_TIMEOUT'' then wait
     else if name = ''RESOURCE_CONFIG'' then resources else [])"


text \<open>
   A rejected \<^verbatim>\<open>RESOURCE_CONFIG\<close> is not ignored.  As soon as the text is a JSON object, an
  entry is configured for every key of the object, with whatever fields decoded, whether or
  not decoding reports an error.
\<close>

theorem invalid_config_partly_applied:
  assumes "env ''RESOURCE_CONFIG'' = v" "json_parse v = Some (JObj kvs)"
    and "map_of (rev kvs) url = Some j"
  shows "map_of (CfgResourceConfigs (LoadConfig env)) url = Some (fst (decode_resource j))"
proof -
  have "v \<noteq> []" using assms(2) by (cases v) (auto simp: json_parse_def)
  then have "map_of (CfgResourceConfigs (loadResourceConfig env c)) url = Some (fst (decode_resource j))" for c
    using assms by (simp add: loadResourceConfig_def set_env_def Let_def decode_resources_def decoded_key)
  moreover have "CfgResourceConfigs (loadSecurityConfig env c) = CfgResourceConfigs c" for c
    by (simp add: loadSecurityConfig_def set_env_def Let_def)
  ultimately show ?thesis by (simp add: LoadConfig_def)
qed

definition demo_resources :: string where
  "demo_resources = ''{\"r\":{\"token_endpoint\":\"t\",\"scopes\":5}}''"

theorem invalid_config_partly_applied_witness:
  "\<not> snd (decode_resources (the (json_parse demo_resources)) []) \<and>
   map_of (CfgResourceConfigs (LoadConfig (demo_getenv demo_resources []))) ''r'' =
     Some \<lparr>RScopes = [], RAuthorizationEndpoint = [], RTokenEndpoint = ''t''\<rparr>"
proof -
  let ?j = "JObj [(''token_endpoint'', JStr ''t''), (''scopes'', JNum ''5'')]"
  have j: "json_parse demo_resources = Some (JObj [(''r'', ?j)])" by code_simp
  have e: "demo_getenv demo_resources [] ''RESOURCE_CONFIG'' = demo_resources" by (simp add: demo_getenv_def)
  have d: "decode_resource ?j = (\<lparr>RScopes = [], RAuthorizationEndpoint = [], RTokenEndpoint = ''t''\<rparr>, False)"
    by code_simp
  have m: "map_of (rev [(''r'', ?j)]) ''r'' = Some ?j" by simp
  show ?thesis
    using invalid_config_partly_applied [of "demo_getenv demo_resources []", OF e j m]
    by (simp add: d j decode_resources_def)
qed

end
