(* ===== verification/BS_Identity.thy ===== *)
theory BS_Identity
  imports Go_Url
begin

text \<open>
  Client identities of the bundle service (\<^verbatim>\<open>operator/internal/bundleservice/spiffeid\<close> and
  \<^verbatim>\<open>identity\<close>): a SPIFFE path names a namespace and a service account, and the pair is the key
  of every cache.
\<close>

section \<open>SPIFFE paths\<close>

record Identity =
  TrustDomain :: string
  IdNamespace :: string
  IdName :: string

definition spiffe_Parse :: "string \<Rightarrow> goerr + Identity" where
  "spiffe_Parse raw =
     (case index_of (CHR ''/'') raw of
        None \<Rightarrow> Inl (Errorf [Lit ''SPIFFE ID missing path: '', Lit (quote raw)])
      | Some slashIdx \<Rightarrow>
          (let trustDomain = take slashIdx raw;
               path = drop (Suc slashIdx) raw;
               parts = split (CHR ''/'') path
           in if trustDomain = [] then Inl (Errorf [Lit ''SPIFFE ID has empty trust domain: '', Lit (quote raw)])
              else if length parts \<noteq> 4 \<or> parts ! 0 \<noteq> ''ns'' \<or> parts ! 2 \<noteq> ''sa'' then
                Inl (Errorf [Lit ''SPIFFE ID path must be ns/{namespace}/sa/{name}, got '', Lit (quote path)])
              else if parts ! 1 = [] \<or> parts ! 3 = [] then
                Inl (Errorf [Lit ''SPIFFE ID has empty namespace or name: '', Lit (quote raw)])
              else Inr \<lparr>TrustDomain = trustDomain, IdNamespace = parts ! 1, IdName = parts ! 3\<rparr>))"

section \<open>Identities of requests\<close>

record ClientIdentity =
  CNamespace :: string
  CName :: string

definition CacheKey :: "ClientIdentity \<Rightarrow> string" where
  "CacheKey c = CNamespace c @ ''/'' @ CName c"

definition FromRequest :: "string \<Rightarrow> goerr + ClientIdentity" where
  "FromRequest rawQuery =
     (let v = values_Get ''spiffe'' (ParseQuery rawQuery) in
      if v \<noteq> [] then
        (case spiffe_Parse v of
           Inl err \<Rightarrow> Inl err
         | Inr ident \<Rightarrow> Inr \<lparr>CNamespace = IdNamespace ident, CName = IdName ident\<rparr>)
      else Inl (Errorf [Lit ''missing client identity query parameter'']))"

type_synonym verifier = "string \<Rightarrow> ClientIdentity \<Rightarrow> goerr option"

definition NoopVerifier :: verifier where
  "NoopVerifier r ident = None"

section \<open>Laws\<close>

definition id_ok :: "ClientIdentity \<Rightarrow> bool" where
  "id_ok c \<longleftrightarrow> CNamespace c \<noteq> [] \<and> CHR ''/'' \<notin> set (CNamespace c) \<and> CName c \<noteq> [] \<and> CHR ''/'' \<notin> set (CName c)"

lemma split4:
  assumes "split c s = [p, q, r, t]"
  shows "s = p @ [c] @ q @ [c] @ r @ [c] @ t"
  using join_split [of c s] by (simp add: assms)

lemma length4: "length xs = 4 \<Longrightarrow> xs = [xs ! 0, xs ! 1, xs ! 2, xs ! 3]"
  by (auto simp: numeral_eq_Suc length_Suc_conv)

lemma spiffe_Parse_iff:
  "spiffe_Parse raw = Inr ident \<longleftrightarrow>
     raw = TrustDomain ident @ ''/ns/'' @ IdNamespace ident @ ''/sa/'' @ IdName ident \<and>
     TrustDomain ident \<noteq> [] \<and> CHR ''/'' \<notin> set (TrustDomain ident) \<and>
     IdNamespace ident \<noteq> [] \<and> CHR ''/'' \<notin> set (IdNamespace ident) \<and>
     IdName ident \<noteq> [] \<and> CHR ''/'' \<notin> set (IdName ident)" (is "?l \<longleftrightarrow> ?r")
proof
  assume l: ?l
  then obtain i where i: "index_of (CHR ''/'') raw = Some i"
    by (auto simp: spiffe_Parse_def split: option.splits)
  define parts where "parts = split (CHR ''/'') (drop (Suc i) raw)"
  have p: "length parts = 4" "parts ! 0 = ''ns''" "parts ! 2 = ''sa''" "parts ! 1 \<noteq> []" "parts ! 3 \<noteq> []"
    and td: "take i raw \<noteq> []"
    and ident: "ident = \<lparr>TrustDomain = take i raw, IdNamespace = parts ! 1, IdName = parts ! 3\<rparr>"
    using l i by (auto simp: spiffe_Parse_def Let_def parts_def split: if_splits)
  have "parts = [''ns'', parts ! 1, ''sa'', parts ! 3]" using length4 [OF p(1)] p(2,3) by simp
  then have d: "drop (Suc i) raw = ''ns'' @ ''/'' @ parts ! 1 @ ''/'' @ ''sa'' @ ''/'' @ parts ! 3"
    using split4 [of "CHR ''/''" "drop (Suc i) raw" "''ns''" "parts ! 1" "''sa''" "parts ! 3"]
    by (simp add: parts_def)
  have "CHR ''/'' \<notin> set (parts ! 1)" "CHR ''/'' \<notin> set (parts ! 3)"
    using split_parts_no_sep [of _ "CHR ''/''" "drop (Suc i) raw"] p(1) by (auto simp: parts_def)
  with index_of_SomeD [OF i] d p td show ?r by (simp add: ident)
next
  assume r: ?r
  let ?td = "TrustDomain ident" and ?ns = "IdNamespace ident" and ?n = "IdName ident"
  have raw: "raw = ?td @ CHR ''/'' # ''ns'' @ CHR ''/'' # ?ns @ CHR ''/'' # ''sa'' @ CHR ''/'' # ?n"
    using r by simp
  have i: "index_of (CHR ''/'') raw = Some (length ?td)"
    unfolding raw using r by (intro index_of_append) simp
  have "split (CHR ''/'') (''ns'' @ CHR ''/'' # ?ns @ CHR ''/'' # ''sa'' @ CHR ''/'' # ?n) = [''ns'', ?ns, ''sa'', ?n]"
    using r by (subst split_append, simp, subst split_append, simp, subst split_append, simp) (simp add: split_no_sep)
  moreover have "drop (Suc (length ?td)) raw = ''ns'' @ CHR ''/'' # ?ns @ CHR ''/'' # ''sa'' @ CHR ''/'' # ?n"
    unfolding raw by (simp only: drop_append) simp
  moreover have "take (length ?td) raw = ?td" by (simp add: raw)
  ultimately show ?l using r i by (simp add: spiffe_Parse_def Let_def)
qed

lemma FromRequest_ok: "FromRequest q = Inr c \<Longrightarrow> id_ok c"
  by (auto simp: FromRequest_def id_ok_def spiffe_Parse_iff Let_def split: if_splits sum.splits)

lemma CacheKey_inj: "id_ok c \<Longrightarrow> id_ok c' \<Longrightarrow> CacheKey c = CacheKey c' \<longleftrightarrow> c = c'"
proof -
  assume a: "id_ok c" "id_ok c'"
  show ?thesis
  proof
    assume "CacheKey c = CacheKey c'"
    then have "split (CHR ''/'') (CNamespace c @ CHR ''/'' # CName c) = split (CHR ''/'') (CNamespace c' @ CHR ''/'' # CName c')"
      by (simp add: CacheKey_def)
    then have "CNamespace c = CNamespace c' \<and> CName c = CName c'"
      using a by (simp add: split_append split_no_sep id_ok_def)
    then show "c = c'" by simp
  qed simp
qed

section \<open>Properties\<close>

text \<open>
  C23.  The identity of a request is exactly what its \<^verbatim>\<open>spiffe\<close> parameter spells.  A request is
  given the identity of namespace and name if and only if the parameter reads
  trust domain, \<^verbatim>\<open>/ns/\<close>, namespace, \<^verbatim>\<open>/sa/\<close>, name, all non-empty and without a slash; and two
  requests get the same cache key only if namespace and name agree.
\<close>

theorem identity_exact:
  "(FromRequest q = Inr c \<longleftrightarrow>
     (\<exists>td. values_Get ''spiffe'' (ParseQuery q) = td @ ''/ns/'' @ CNamespace c @ ''/sa/'' @ CName c \<and>
        td \<noteq> [] \<and> CHR ''/'' \<notin> set td \<and> id_ok c)) \<and>
   (FromRequest q = Inr c \<and> FromRequest q' = Inr c' \<and> CacheKey c = CacheKey c' \<longrightarrow> c = c')"
proof
  let ?v = "values_Get ''spiffe'' (ParseQuery q)"
  show "FromRequest q = Inr c \<longleftrightarrow>
     (\<exists>td. ?v = td @ ''/ns/'' @ CNamespace c @ ''/sa/'' @ CName c \<and> td \<noteq> [] \<and> CHR ''/'' \<notin> set td \<and> id_ok c)"
  proof
    assume "FromRequest q = Inr c"
    then obtain ident where "spiffe_Parse ?v = Inr ident" "c = \<lparr>CNamespace = IdNamespace ident, CName = IdName ident\<rparr>"
      by (auto simp: FromRequest_def Let_def split: if_splits sum.splits)
    then show "\<exists>td. ?v = td @ ''/ns/'' @ CNamespace c @ ''/sa/'' @ CName c \<and> td \<noteq> [] \<and> CHR ''/'' \<notin> set td \<and> id_ok c"
      by (auto simp: spiffe_Parse_iff id_ok_def)
  next
    assume "\<exists>td. ?v = td @ ''/ns/'' @ CNamespace c @ ''/sa/'' @ CName c \<and> td \<noteq> [] \<and> CHR ''/'' \<notin> set td \<and> id_ok c"
    then obtain td where td: "?v = td @ ''/ns/'' @ CNamespace c @ ''/sa/'' @ CName c" "td \<noteq> []" "CHR ''/'' \<notin> set td" "id_ok c"
      by blast
    then have "spiffe_Parse ?v = Inr \<lparr>TrustDomain = td, IdNamespace = CNamespace c, IdName = CName c\<rparr>"
      unfolding spiffe_Parse_iff by (simp add: id_ok_def)
    then show "FromRequest q = Inr c" using td by (simp add: FromRequest_def Let_def)
  qed
  show "FromRequest q = Inr c \<and> FromRequest q' = Inr c' \<and> CacheKey c = CacheKey c' \<longrightarrow> c = c'"
    using CacheKey_inj FromRequest_ok by blast
qed

theorem identity_exact_witness:
  "FromRequest ''spiffe=td/ns/team/sa/agent'' = Inr \<lparr>CNamespace = ''team'', CName = ''agent''\<rparr> \<and>
   (\<exists>td. values_Get ''spiffe'' (ParseQuery ''spiffe=td/ns/team/sa/agent'') = td @ ''/ns/'' @ ''team'' @ ''/sa/'' @ ''agent'')"
proof -
  have "FromRequest ''spiffe=td/ns/team/sa/agent'' = Inr \<lparr>CNamespace = ''team'', CName = ''agent''\<rparr>"
    by code_simp
  with identity_exact [of "''spiffe=td/ns/team/sa/agent''" "\<lparr>CNamespace = ''team'', CName = ''agent''\<rparr>"]
  show ?thesis by auto
qed

end
