(* ===== verification/BS_Bundle.thy ===== *)
theory BS_Bundle
  imports Go_Url Go_Sha256 "HOL-Library.Multiset"
begin

text \<open>
  Policy bundles (\<^verbatim>\<open>operator/internal/bundleservice/bundle\<close>): path checks, the content hash that
  serves as entity tag, and the archive.  The bytes the tar and gzip writers produce, and
  when they fail, are fields of an \<open>archiver\<close>, which the definitions take as an argument; so
  is the sorting routine, because \<^verbatim>\<open>sort.Slice\<close> does not say how it orders equal paths.
\<close>

section \<open>Path checks\<close>

record Policy =
  Path :: string
  Content :: string

text \<open>\<^verbatim>\<open>filepath.IsAbs\<close> and \<^verbatim>\<open>filepath.Clean\<close> on Unix: components are pushed and popped lexically.\<close>

definition IsAbs :: "string \<Rightarrow> bool" where
  "IsAbs path = has_prefix path ''/''"

definition clean_step :: "bool \<Rightarrow> string \<Rightarrow> string list \<Rightarrow> string list" where
  "clean_step rooted c st =
     (if c = [] \<or> c = ''.'' then st
      else if c = ''..'' then
        (case st of
           [] \<Rightarrow> if rooted then [] else [c]
         | d # ds \<Rightarrow> if d = ''..'' then c # st else ds)
      else c # st)"

definition Clean :: "string \<Rightarrow> string" where
  "Clean path =
     (if path = [] then ''.''
      else
        (let rooted = IsAbs path;
             body = join ''/'' (rev (fold (clean_step rooted) (split (CHR ''/'') path) []))
         in if rooted then ''/'' @ body else if body = [] then ''.'' else body))"

definition validatePath :: "string \<Rightarrow> goerr option" where
  "validatePath path =
     (if path = [] then Some (Errorf [Lit ''empty policy path''])
      else if IsAbs path then Some (Errorf [Lit ''absolute path not allowed: '', Lit path])
      else if contains path ''..'' then Some (Errorf [Lit ''path traversal not allowed: '', Lit path])
      else if has_prefix (Clean path) ''..'' then Some (Errorf [Lit ''path escapes bundle root: '', Lit path])
      else None)"

section \<open>Content hash\<close>

type_synonym sorter = "Policy list \<Rightarrow> Policy list"

definition sorts :: "sorter \<Rightarrow> bool" where
  "sorts srt \<longleftrightarrow> (\<forall>ps. mset (srt ps) = mset ps \<and> sorted (map Path (srt ps)))"

definition hash_input :: "Policy list \<Rightarrow> string" where
  "hash_input ps = concat (map (\<lambda>p. Path p @ [CHR 0x00] @ Content p @ [CHR 0x00]) ps)"

definition ContentHash :: "sorter \<Rightarrow> Policy list \<Rightarrow> string" where
  "ContentHash srt policies =
     (if length policies = 0 then ''sha256:empty''
      else ''sha256:'' @ hex_encode (Sum256 (hash_input (srt policies))))"

section \<open>Archive\<close>

record tar_entry =
  EName :: string
  EMode :: nat
  EContent :: string

text \<open>
  The writers: whether writing the header or the content of the next entry fails after the
  entries written so far, what has reached the buffer before they are closed, whether closing
  fails, and the bytes of the closed archive.
\<close>

record archiver =
  HeaderErr :: "tar_entry list \<Rightarrow> tar_entry \<Rightarrow> goerr option"
  ContentErr :: "tar_entry list \<Rightarrow> tar_entry \<Rightarrow> goerr option"
  Buffered :: "tar_entry list \<Rightarrow> string"
  TarCloseErr :: "tar_entry list \<Rightarrow> goerr option"
  GzipCloseErr :: "tar_entry list \<Rightarrow> goerr option"
  Archive :: "tar_entry list \<Rightarrow> string"

definition policy_entry :: "Policy \<Rightarrow> tar_entry" where
  "policy_entry p = \<lparr>EName = Path p, EMode = 420, EContent = Content p\<rparr>"

fun write_entries :: "archiver \<Rightarrow> tar_entry list \<Rightarrow> Policy list \<Rightarrow> goerr + tar_entry list" where
  "write_entries ar done [] = Inr done"
| "write_entries ar done (p # ps) =
     (case HeaderErr ar done (policy_entry p) of
        Some err \<Rightarrow> Inl (Errorf [Lit ''writing tar header for '', Lit (Path p), Lit '': '', Wrap err])
      | None \<Rightarrow>
          (case ContentErr ar done (policy_entry p) of
             Some err \<Rightarrow> Inl (Errorf [Lit ''writing tar content for '', Lit (Path p), Lit '': '', Wrap err])
           | None \<Rightarrow> write_entries ar (done @ [policy_entry p]) ps))"

text \<open>\<^verbatim>\<open>json.Marshal\<close> of the manifest; the revision is hexadecimal, so nothing needs escaping.\<close>

definition manifest_json :: "string \<Rightarrow> string" where
  "manifest_json revision = ''{\"revision\":\"'' @ revision @ ''\",\"roots\":[\"authbridge\"]}''"

definition manifest_entry :: "string \<Rightarrow> tar_entry" where
  "manifest_entry revision = \<lparr>EName = ''.manifest'', EMode = 420, EContent = manifest_json revision\<rparr>"

fun first_invalid :: "Policy list \<Rightarrow> goerr option" where
  "first_invalid [] = None"
| "first_invalid (p # ps) = (case validatePath (Path p) of Some err \<Rightarrow> Some err | None \<Rightarrow> first_invalid ps)"

definition sha_tag :: "string \<Rightarrow> string" where
  "sha_tag s = ''sha256:'' @ hex_encode (Sum256 s)"

definition Build :: "sorter \<Rightarrow> archiver \<Rightarrow> Policy list \<Rightarrow> goerr + string \<times> string" where
  "Build srt ar policies =
     (case first_invalid policies of
        Some err \<Rightarrow> Inl err
      | None \<Rightarrow>
          (case write_entries ar [] (srt policies) of
             Inl err \<Rightarrow> Inl err
           | Inr es \<Rightarrow>
               (let m = manifest_entry (sha_tag (Buffered ar es)) in
                case HeaderErr ar es m of
                  Some err \<Rightarrow> Inl (Errorf [Lit ''writing manifest header: '', Wrap err])
                | None \<Rightarrow>
                    (case ContentErr ar es m of
                       Some err \<Rightarrow> Inl (Errorf [Lit ''writing manifest content: '', Wrap err])
                     | None \<Rightarrow>
                         (case TarCloseErr ar (es @ [m]) of
                            Some err \<Rightarrow> Inl (Errorf [Lit ''closing tar writer: '', Wrap err])
                          | None \<Rightarrow>
                              (case GzipCloseErr ar (es @ [m]) of
                                 Some err \<Rightarrow> Inl (Errorf [Lit ''closing gzip writer: '', Wrap err])
                               | None \<Rightarrow>
                                   (let data = Archive ar (es @ [m]) in Inr (data, sha_tag data))))))))"

section \<open>Laws\<close>

lemma contains_iff: "contains s p \<longleftrightarrow> (\<exists>a b. s = a @ p @ b)"
proof
  show "contains s p \<Longrightarrow> \<exists>a b. s = a @ p @ b"
  proof (induction s)
    case (Cons x s)
    then show ?case
    proof (cases "has_prefix (x # s) p")
      case True
      then have "x # s = [] @ p @ trim_prefix (x # s) p" using prefix_recombine by simp
      then show ?thesis by blast
    next
      case False
      with Cons obtain a b where "s = a @ p @ b" by auto
      then have "x # s = (x # a) @ p @ b" by simp
      then show ?thesis by blast
    qed
  qed simp
next
  show "\<exists>a b. s = a @ p @ b \<Longrightarrow> contains s p" using contains_append by blast
qed

lemma split_part_contained:
  assumes "c \<in> set (split sep s)"
  shows "\<exists>a b. s = a @ c @ b"
  using assms
proof (induction s arbitrary: c)
  case (Cons x s)
  show ?case
  proof (cases "x = sep")
    case True
    with Cons.prems have "c = [] \<or> c \<in> set (split sep s)" by auto
    then show ?thesis
    proof
      assume "c \<in> set (split sep s)"
      then obtain a b where "s = a @ c @ b" using Cons.IH by blast
      then have "x # s = (x # a) @ c @ b" by simp
      then show ?thesis by blast
    qed (metis append_Nil)
  next
    case False
    obtain y ys where sp: "split sep s = y # ys" by (cases "split sep s") auto
    with Cons.prems False have "c = x # y \<or> c \<in> set ys" by auto
    then show ?thesis
    proof
      assume c: "c = x # y"
      have "\<exists>b. s = y @ b"
        using sp join_split [of sep s] by (cases ys) (auto dest: sym)
      then show ?thesis using c by (metis append_Cons append_Nil)
    next
      assume "c \<in> set ys"
      then obtain a b where "s = a @ c @ b" using Cons.IH [of c] sp by auto
      then have "x # s = (x # a) @ c @ b" by simp
      then show ?thesis by blast
    qed
  qed
qed simp

lemma join_prefix_dots:
  "has_prefix (join ''/'' cs) ''..'' \<Longrightarrow> \<exists>c \<in> set cs. has_prefix c ''..'' \<or> c = [] \<or> c = ''.''"
proof (cases "(''/'', cs)" rule: join.cases)
  case (3 sep x y zs)
  assume h: "has_prefix (join ''/'' cs) ''..''"
  show ?thesis
  proof (cases "length x < 2")
    case True
    then have "x = [] \<or> (\<exists>c. x = [c])" by (cases x) auto
    then show ?thesis using h 3 by (auto simp: has_prefix_def)
  next
    case False
    then show ?thesis using h 3 by (auto simp: has_prefix_def)
  qed
qed (auto simp: has_prefix_def)

lemma clean_fold:
  assumes "\<forall>c \<in> set cs. \<not> contains c ''..''" "\<forall>c \<in> set st. c \<noteq> [] \<and> c \<noteq> ''.'' \<and> \<not> has_prefix c ''..''"
  shows "\<forall>c \<in> set (fold (clean_step rooted) cs st). c \<noteq> [] \<and> c \<noteq> ''.'' \<and> \<not> has_prefix c ''..''"
  using assms
proof (induction cs arbitrary: st)
  case (Cons c cs)
  have nd: "\<not> has_prefix c ''..''" "c \<noteq> ''..''"
    using Cons.prems(1) contains.simps(2) by (cases c; auto simp: has_prefix_def)+
  have "\<forall>d \<in> set (clean_step rooted c st). d \<noteq> [] \<and> d \<noteq> ''.'' \<and> \<not> has_prefix d ''..''"
    using Cons.prems(2) nd by (cases st) (simp_all add: clean_step_def)
  from Cons.IH [OF _ this] Cons.prems(1) show ?case by simp
qed simp

lemma validatePath_iff:
  "validatePath path = None \<longleftrightarrow> path \<noteq> [] \<and> \<not> IsAbs path \<and> \<not> contains path ''..''"
proof -
  have "\<not> has_prefix (Clean path) ''..''" if a: "path \<noteq> []" "\<not> IsAbs path" "\<not> contains path ''..''"
  proof -
    let ?cs = "rev (fold (clean_step False) (split (CHR ''/'') path) [])"
    have "\<forall>c \<in> set (split (CHR ''/'') path). \<not> contains c ''..''"
    proof
      fix c assume "c \<in> set (split (CHR ''/'') path)"
      then obtain u v where "path = u @ c @ v" using split_part_contained by blast
      then show "\<not> contains c ''..''" using a(3) unfolding contains_iff by (metis append.assoc)
    qed
    then have "\<forall>c \<in> set ?cs. c \<noteq> [] \<and> c \<noteq> ''.'' \<and> \<not> has_prefix c ''..''"
      using clean_fold [of "split (CHR ''/'') path" "[]"] by simp
    then have "\<not> has_prefix (join ''/'' ?cs) ''..''" using join_prefix_dots by blast
    then show ?thesis using a by (simp add: Clean_def Let_def has_prefix_def)
  qed
  then show ?thesis by (auto simp: validatePath_def)
qed

lemma first_invalid_None: "first_invalid ps = None \<longleftrightarrow> (\<forall>p \<in> set ps. validatePath (Path p) = None)"
  by (induction ps) (auto split: option.splits)

lemma write_entries_all:
  "write_entries ar es ps = Inr es' \<Longrightarrow> es' = es @ map policy_entry ps"
proof (induction ps arbitrary: es)
  case (Cons p ps)
  then have "write_entries ar (es @ [policy_entry p]) ps = Inr es'" by (simp split: option.splits)
  from Cons.IH [OF this] show ?case by simp
qed simp

lemma Build_Inr:
  assumes "Build srt ar ps = Inr (data, tag)"
  shows "first_invalid ps = None" "tag = sha_tag data"
    "data = Archive ar (map policy_entry (srt ps) @
       [manifest_entry (sha_tag (Buffered ar (map policy_entry (srt ps))))])"
  using assms
  by (auto simp: Build_def Let_def split: option.splits sum.splits dest!: write_entries_all)

lemma sorts_unique:
  assumes "sorts s" "sorts s'" "mset ps = mset ps'" "distinct (map Path ps)"
  shows "s ps = s' ps'"
proof -
  have m: "mset (s ps) = mset (s' ps')" using assms by (simp add: sorts_def)
  have m2: "mset (map Path (s ps)) = mset (map Path (s' ps'))" using m by simp
  have eq: "map Path (s ps) = map Path (s' ps')"
    using m2 assms(1,2) properties_for_sort [of "map Path (s ps)"] properties_for_sort [of "map Path (s' ps')"]
    by (metis sorts_def)
  have "distinct (map Path (s ps))"
    using assms(1,4) by (metis mset_eq_imp_distinct_iff mset_map sorts_def)
  then have inj: "inj_on Path (set (s ps) \<union> set (s' ps'))"
    using mset_eq_setD [OF m] by (simp add: distinct_map)
  show ?thesis by (rule map_inj_on [OF eq inj])
qed

text \<open>Without NUL bytes the hashed text determines the policies.\<close>

definition nul_free :: "Policy \<Rightarrow> bool" where
  "nul_free p \<longleftrightarrow> CHR 0x00 \<notin> set (Path p) \<and> CHR 0x00 \<notin> set (Content p)"

lemma append_sep_inj:
  "c \<notin> set a \<Longrightarrow> c \<notin> set b \<Longrightarrow> a @ c # x = b @ c # y \<Longrightarrow> a = b \<and> x = y"
proof (induction a arbitrary: b)
  case Nil
  then show ?case by (cases b) auto
next
  case (Cons d a)
  then show ?case by (cases b) auto
qed

lemma hash_input_Cons: "hash_input (p # ps) = Path p @ CHR 0x00 # Content p @ CHR 0x00 # hash_input ps"
  by (simp add: hash_input_def)

lemma hash_input_inj:
  "list_all nul_free ps \<Longrightarrow> list_all nul_free qs \<Longrightarrow> hash_input ps = hash_input qs \<Longrightarrow> ps = qs"
proof (induction ps arbitrary: qs)
  case Nil
  then show ?case by (cases qs) (auto simp: hash_input_def)
next
  case (Cons p ps)
  then obtain q qs' where qs: "qs = q # qs'" by (cases qs) (auto simp: hash_input_def)
  have "Path p = Path q \<and> Content p @ CHR 0x00 # hash_input ps = Content q @ CHR 0x00 # hash_input qs'"
    using Cons.prems by (intro append_sep_inj) (auto simp: qs nul_free_def hash_input_Cons)
  moreover from this have "Content p = Content q \<and> hash_input ps = hash_input qs'"
    using Cons.prems by (intro append_sep_inj) (auto simp: qs nul_free_def)
  ultimately show ?case using Cons.IH [of qs'] Cons.prems by (simp add: qs)
qed

section \<open>Properties\<close>

text \<open>
  C17.  Nothing in a bundle points outside of it.  If building succeeds, the archive holds, in
  the order of their paths, exactly the given policies followed by the manifest, and no name
  is empty or absolute or has two dots in a row, so no component of a name is \<^verbatim>\<open>..\<close>.
\<close>

theorem build_paths_safe:
  assumes "Build srt ar ps = Inr (data, tag)" "sorts srt"
  shows "\<exists>es m. data = Archive ar (es @ [m]) \<and> EName m = ''.manifest'' \<and>
    mset es = mset (map policy_entry ps) \<and> sorted (map EName es) \<and> tag = sha_tag data \<and>
    (\<forall>e \<in> set es. EName e \<noteq> [] \<and> \<not> IsAbs (EName e) \<and> (\<forall>c \<in> set (split (CHR ''/'') (EName e)). c \<noteq> ''..''))"
proof -
  let ?es = "map policy_entry (srt ps)"
  have ms: "mset (srt ps) = mset ps" "sorted (map Path (srt ps))" using assms(2) by (auto simp: sorts_def)
  have "EName \<circ> policy_entry = Path" by (simp add: fun_eq_iff policy_entry_def)
  then have "sorted (map EName ?es)" using ms by simp
  moreover have "\<forall>e \<in> set ?es. EName e \<noteq> [] \<and> \<not> IsAbs (EName e) \<and> (\<forall>c \<in> set (split (CHR ''/'') (EName e)). c \<noteq> ''..'')"
  proof
    fix e assume "e \<in> set ?es"
    then obtain p where p: "p \<in> set ps" "e = policy_entry p" using mset_eq_setD [OF ms(1)] by auto
    then have v: "Path p \<noteq> []" "\<not> IsAbs (Path p)" "\<not> contains (Path p) ''..''"
      using Build_Inr(1) [OF assms(1)] by (auto simp: first_invalid_None validatePath_iff)
    have "c \<noteq> ''..''" if "c \<in> set (split (CHR ''/'') (Path p))" for c
      using v(3) split_part_contained [OF that] unfolding contains_iff by blast
    then show "EName e \<noteq> [] \<and> \<not> IsAbs (EName e) \<and> (\<forall>c \<in> set (split (CHR ''/'') (EName e)). c \<noteq> ''..'')"
      using v by (simp add: p policy_entry_def)
  qed
  moreover have "mset ?es = mset (map policy_entry ps)" using ms(1) by simp
  ultimately show ?thesis
    using Build_Inr(2,3) [OF assms(1)]
    by (intro exI [of _ ?es] exI [of _ "manifest_entry (sha_tag (Buffered ar ?es))"]) (simp add: manifest_entry_def)
qed

definition demo_archiver :: archiver where
  "demo_archiver = \<lparr>HeaderErr = \<lambda>_ _. None, ContentErr = \<lambda>_ _. None, Buffered = \<lambda>_. [],
     TarCloseErr = \<lambda>_. None, GzipCloseErr = \<lambda>_. None, Archive = \<lambda>es. concat (map EContent es)\<rparr>"

lemma sort_key_sorts: "sorts (sort_key Path)"
  by (simp add: sorts_def)

theorem build_paths_safe_witness:
  "\<exists>data tag. Build (sort_key Path) demo_archiver [\<lparr>Path = ''a/b.rego'', Content = ''x''\<rparr>] = Inr (data, tag) \<and>
     (\<exists>es m. data = Archive demo_archiver (es @ [m]) \<and> EName m = ''.manifest'')"
proof -
  have "validatePath ''a/b.rego'' = None" by code_simp
  then obtain data tag where b: "Build (sort_key Path) demo_archiver [\<lparr>Path = ''a/b.rego'', Content = ''x''\<rparr>] = Inr (data, tag)"
    by (simp add: Build_def Let_def demo_archiver_def)
  from build_paths_safe [OF b sort_key_sorts] b show ?thesis by blast
qed

text \<open>
  C24.  The entity tag identifies the policies.  For policies with distinct paths it does not
  depend on the order in which they were read, nor on how the sorting routine treats ties.  If no
  path or content has a NUL byte, then different policies are fed to SHA-256 as different inputs,
  so they have different tags unless SHA-256 collides on these two inputs.
\<close>

theorem content_hash_identifies:
  assumes "sorts s" "sorts s'" "distinct (map Path ps)"
  shows "(mset ps = mset qs \<longrightarrow> ContentHash s ps = ContentHash s' qs) \<and>
    (list_all nul_free (ps @ qs) \<and> mset ps \<noteq> mset qs \<longrightarrow>
       hash_input (s ps) \<noteq> hash_input (s' qs) \<and>
       (Sum256 (hash_input (s ps)) \<noteq> Sum256 (hash_input (s' qs)) \<longrightarrow> ContentHash s ps \<noteq> ContentHash s' qs))"
proof
  show "mset ps = mset qs \<longrightarrow> ContentHash s ps = ContentHash s' qs"
    using sorts_unique [OF assms(1,2) _ assms(3)] by (auto simp: ContentHash_def dest: mset_eq_length)
  show "list_all nul_free (ps @ qs) \<and> mset ps \<noteq> mset qs \<longrightarrow>
       hash_input (s ps) \<noteq> hash_input (s' qs) \<and>
       (Sum256 (hash_input (s ps)) \<noteq> Sum256 (hash_input (s' qs)) \<longrightarrow> ContentHash s ps \<noteq> ContentHash s' qs)"
  proof
    assume a: "list_all nul_free (ps @ qs) \<and> mset ps \<noteq> mset qs"
    have m: "mset (s ps) = mset ps" "mset (s' qs) = mset qs" using assms by (auto simp: sorts_def)
    then have "list_all nul_free (s ps)" "list_all nul_free (s' qs)"
      using a mset_eq_setD [OF m(1)] mset_eq_setD [OF m(2)] by (auto simp: list_all_iff)
    then have "hash_input (s ps) \<noteq> hash_input (s' qs)"
      using a hash_input_inj m by metis
    moreover have ne: "''sha256:'' @ hex_encode (Sum256 x) \<noteq> ''sha256:empty''" for x
      using hex_encode_length [of "Sum256 x"] by (auto simp: Sum256_length dest!: arg_cong [where f = length])
    have "ContentHash s ps \<noteq> ContentHash s' qs"
      if "Sum256 (hash_input (s ps)) \<noteq> Sum256 (hash_input (s' qs))"
      using that a ne ne [THEN not_sym] hex_encode_inj by (auto simp: ContentHash_def)
    ultimately show "hash_input (s ps) \<noteq> hash_input (s' qs) \<and>
       (Sum256 (hash_input (s ps)) \<noteq> Sum256 (hash_input (s' qs)) \<longrightarrow> ContentHash s ps \<noteq> ContentHash s' qs)" by blast
  qed
qed

theorem content_hash_identifies_witness:
  "ContentHash (sort_key Path) [\<lparr>Path = ''b'', Content = ''y''\<rparr>, \<lparr>Path = ''a'', Content = ''x''\<rparr>] =
     ContentHash (sort_key Path) [\<lparr>Path = ''a'', Content = ''x''\<rparr>, \<lparr>Path = ''b'', Content = ''y''\<rparr>] \<and>
   hash_input (sort_key Path [\<lparr>Path = ''a'', Content = ''bc''\<rparr>]) \<noteq> hash_input (sort_key Path [\<lparr>Path = ''ab'', Content = ''c''\<rparr>])"
  using content_hash_identifies [OF sort_key_sorts sort_key_sorts,
      of "[\<lparr>Path = ''b'', Content = ''y''\<rparr>, \<lparr>Path = ''a'', Content = ''x''\<rparr>]"
         "[\<lparr>Path = ''a'', Content = ''x''\<rparr>, \<lparr>Path = ''b'', Content = ''y''\<rparr>]"]
    content_hash_identifies [OF sort_key_sorts sort_key_sorts,
      of "[\<lparr>Path = ''a'', Content = ''bc''\<rparr>]" "[\<lparr>Path = ''ab'', Content = ''c''\<rparr>]"]
  by (simp add: add_mset_commute nul_free_def)

text \<open>
   A NUL byte in a policy's content defeats the entity tag: two policies and the single
  policy whose content spells out the boundary between them have the same tag, whatever the
  hash function does, so a client that holds one is told it is up to date with the other.
\<close>

theorem nul_content_collides:
  assumes "sorts s" "p < q" "ps = [\<lparr>Path = p, Content = x\<rparr>, \<lparr>Path = q, Content = y\<rparr>]"
    and "qs = [\<lparr>Path = p, Content = x @ [CHR 0x00] @ q @ [CHR 0x00] @ y\<rparr>]"
  shows "mset ps \<noteq> mset qs \<and> ContentHash s ps = ContentHash s qs"
proof -
  have d: "distinct (map Path ps)" "distinct (map Path qs)" using assms by auto
  have "s ps = sort_key Path ps" "s qs = sort_key Path qs"
    using sorts_unique [OF assms(1) sort_key_sorts refl d(1)] sorts_unique [OF assms(1) sort_key_sorts refl d(2)] by auto
  moreover have "sort_key Path ps = ps" using assms by (simp add: order_less_imp_le)
  ultimately have "hash_input (s ps) = hash_input (s qs)" using assms by (simp add: hash_input_def)
  then show ?thesis using assms by (auto simp: ContentHash_def dest: mset_eq_length)
qed

theorem nul_content_collides_witness:
  "ContentHash (sort_key Path) [\<lparr>Path = ''a'', Content = ''x''\<rparr>, \<lparr>Path = ''b'', Content = ''y''\<rparr>] =
   ContentHash (sort_key Path) [\<lparr>Path = ''a'', Content = ''x'' @ [CHR 0x00] @ ''b'' @ [CHR 0x00] @ ''y''\<rparr>]"
proof -
  have "''a'' < ''b''" by (simp add: less_char_def)
  then show ?thesis using nul_content_collides [OF sort_key_sorts _ refl refl, of "''a''" "''b''" "''x''" "''y''"] by blast
qed

end
