(* ===== verification/BS_Cache.thy ===== *)
theory BS_Cache
  imports Prelude
begin

text \<open>
  The caches of the bundle service (\<^verbatim>\<open>operator/internal/bundleservice/cache\<close>): entity tags,
  built bundles in a least-recently-used list with a time to live, and policies per tier.
  Every operation runs under the cache's mutex.  The elements of the \<^verbatim>\<open>container/list\<close> are
  pointers that the map and the list share, so they are addresses into a store.
\<close>

section \<open>Entity tags\<close>

type_synonym ETagCache = "(string, string) gomap"

definition NewETagCache :: ETagCache where
  "NewETagCache = []"

definition ETag_Get :: "string \<Rightarrow> ETagCache \<Rightarrow> string option" where
  "ETag_Get agentID c = map_of c agentID"

definition ETag_Set :: "string \<Rightarrow> string \<Rightarrow> ETagCache \<Rightarrow> ETagCache" where
  "ETag_Set agentID hash c = AList.update agentID hash c"

definition ETag_Invalidate :: "string \<Rightarrow> ETagCache \<Rightarrow> ETagCache" where
  "ETag_Invalidate agentID c = AList.delete agentID c"

definition ETag_InvalidateAll :: "ETagCache \<Rightarrow> ETagCache" where
  "ETag_InvalidateAll c = []"

definition ETag_InvalidateFunc :: "(string \<Rightarrow> bool) \<Rightarrow> ETagCache \<Rightarrow> ETagCache" where
  "ETag_InvalidateFunc fn c = fold (\<lambda>k c. if fn k then AList.delete k c else c) (map fst c) c"

definition ETag_Len :: "ETagCache \<Rightarrow> nat" where
  "ETag_Len c = length c"

section \<open>Bundles\<close>

record bundleEntry =
  ekey :: string
  edata :: string
  eetag :: string
  expires :: gotime

record BundleCache =
  maxEntries :: int
  ttl :: duration
  elems :: "bundleEntry list"
  entries :: "(string, nat) gomap"
  evictList :: "nat list"

definition NewBundleCache :: "int \<Rightarrow> duration \<Rightarrow> BundleCache" where
  "NewBundleCache n t =
     \<lparr>maxEntries = (if n \<le> 0 then 100 else n), ttl = (if t \<le> 0 then 1 * Minute else t),
      elems = [], entries = [], evictList = []\<rparr>"

text \<open>\<^verbatim>\<open>List.MoveToFront\<close> and \<^verbatim>\<open>List.Remove\<close>.\<close>

definition move_front :: "nat \<Rightarrow> nat list \<Rightarrow> nat list" where
  "move_front el l = (if el \<in> set l then el # remove1 el l else l)"

definition removeElement :: "nat \<Rightarrow> BundleCache \<Rightarrow> BundleCache" where
  "removeElement el c =
     c\<lparr>evictList := remove1 el (evictList c), entries := AList.delete (ekey (elems c ! el)) (entries c)\<rparr>"

definition removeLRU :: "BundleCache \<Rightarrow> BundleCache" where
  "removeLRU c = (if evictList c = [] then c else removeElement (last (evictList c)) c)"

definition Bundle_Get :: "gotime \<Rightarrow> string \<Rightarrow> BundleCache \<Rightarrow> (string \<times> string) option \<times> BundleCache" where
  "Bundle_Get now agentID c =
     (case map_of (entries c) agentID of
        None \<Rightarrow> (None, c)
      | Some el \<Rightarrow>
          (let e = elems c ! el in
           if now > expires e then (None, removeElement el c)
           else (Some (edata e, eetag e), c\<lparr>evictList := move_front el (evictList c)\<rparr>)))"

definition Bundle_Set :: "gotime \<Rightarrow> string \<Rightarrow> string \<Rightarrow> string \<Rightarrow> BundleCache \<Rightarrow> BundleCache" where
  "Bundle_Set now agentID data etag c =
     (case map_of (entries c) agentID of
        Some el \<Rightarrow>
          c\<lparr>evictList := move_front el (evictList c),
            elems := (elems c)[el := (elems c ! el)\<lparr>edata := data, eetag := etag, expires := now + ttl c\<rparr>]\<rparr>
      | None \<Rightarrow>
          (let el = length (elems c);
               e = \<lparr>ekey = agentID, edata = data, eetag = etag, expires = now + ttl c\<rparr>;
               c' = c\<lparr>elems := elems c @ [e], evictList := el # evictList c, entries := AList.update agentID el (entries c)\<rparr>
           in if int (length (evictList c')) > maxEntries c' then removeLRU c' else c'))"

definition Bundle_Invalidate :: "string \<Rightarrow> BundleCache \<Rightarrow> BundleCache" where
  "Bundle_Invalidate agentID c =
     (case map_of (entries c) agentID of None \<Rightarrow> c | Some el \<Rightarrow> removeElement el c)"

definition Bundle_InvalidateAll :: "BundleCache \<Rightarrow> BundleCache" where
  "Bundle_InvalidateAll c = c\<lparr>entries := [], evictList := []\<rparr>"

definition invalidate_one :: "(string \<Rightarrow> bool) \<Rightarrow> string \<times> nat \<Rightarrow> BundleCache \<Rightarrow> BundleCache" where
  "invalidate_one fn p c =
     (if fn (fst p) then
        (let c' = removeElement (snd p) c in c'\<lparr>entries := AList.delete (fst p) (entries c')\<rparr>)
      else c)"

definition Bundle_InvalidateFunc :: "(string \<Rightarrow> bool) \<Rightarrow> BundleCache \<Rightarrow> BundleCache" where
  "Bundle_InvalidateFunc fn c = fold (invalidate_one fn) (entries c) c"

definition Bundle_Len :: "BundleCache \<Rightarrow> nat" where
  "Bundle_Len c = length (evictList c)"

section \<open>Policies per tier\<close>

record PolicyEntry =
  PPath :: string
  PContent :: string

record policyData =
  policies :: "PolicyEntry list"
  phash :: string

record PolicyCache =
  global :: "policyData option"
  nsdata :: "(string, policyData) gomap"

definition NewPolicyCache :: PolicyCache where
  "NewPolicyCache = \<lparr>global = None, nsdata = []\<rparr>"

definition GetGlobal :: "PolicyCache \<Rightarrow> (PolicyEntry list \<times> string) option" where
  "GetGlobal c = map_option (\<lambda>d. (policies d, phash d)) (global c)"

definition SetGlobal :: "PolicyEntry list \<Rightarrow> string \<Rightarrow> PolicyCache \<Rightarrow> PolicyCache" where
  "SetGlobal ps hash c = c\<lparr>global := Some \<lparr>policies = ps, phash = hash\<rparr>\<rparr>"

definition InvalidateGlobal :: "PolicyCache \<Rightarrow> PolicyCache" where
  "InvalidateGlobal c = c\<lparr>global := None\<rparr>"

definition GetNamespace :: "string \<Rightarrow> PolicyCache \<Rightarrow> (PolicyEntry list \<times> string) option" where
  "GetNamespace ns c = map_option (\<lambda>d. (policies d, phash d)) (map_of (nsdata c) ns)"

definition SetNamespace :: "string \<Rightarrow> PolicyEntry list \<Rightarrow> string \<Rightarrow> PolicyCache \<Rightarrow> PolicyCache" where
  "SetNamespace ns ps hash c = c\<lparr>nsdata := AList.update ns \<lparr>policies = ps, phash = hash\<rparr> (nsdata c)\<rparr>"

definition InvalidateNamespace :: "string \<Rightarrow> PolicyCache \<Rightarrow> PolicyCache" where
  "InvalidateNamespace ns c = c\<lparr>nsdata := AList.delete ns (nsdata c)\<rparr>"

section \<open>What a client of a cache relies on\<close>

text \<open>
  A cache may forget anything, but what it returns was stored under that key and not dropped
  since.  From this, any relation between keys and values that holds of what is stored is
  kept by every operation.
\<close>

locale keyed_cache =
  fixes ok :: "'c \<Rightarrow> bool"
    and lookup :: "'c \<Rightarrow> string \<Rightarrow> 'v option"
    and get :: "gotime \<Rightarrow> string \<Rightarrow> 'c \<Rightarrow> 'v option \<times> 'c"
    and put :: "gotime \<Rightarrow> string \<Rightarrow> 'v \<Rightarrow> 'c \<Rightarrow> 'c"
    and drop_key :: "string \<Rightarrow> 'c \<Rightarrow> 'c"
    and drop_all :: "'c \<Rightarrow> 'c"
  assumes ok_ops: "ok c \<Longrightarrow> ok (snd (get t k c))" "ok c \<Longrightarrow> ok (put t k v c)"
      "ok c \<Longrightarrow> ok (drop_key k c)" "ok c \<Longrightarrow> ok (drop_all c)"
    and get_sound: "ok c \<Longrightarrow> fst (get t k c) = Some v \<Longrightarrow> lookup c k = Some v"
    and get_forgets: "ok c \<Longrightarrow> lookup (snd (get t k c)) j = Some v \<Longrightarrow> lookup c j = Some v"
    and put_same: "ok c \<Longrightarrow> lookup (put t k v c) k = Some v"
    and put_other: "ok c \<Longrightarrow> j \<noteq> k \<Longrightarrow> lookup (put t k v c) j = Some w \<Longrightarrow> lookup c j = Some w"
    and drop_key_lookup: "ok c \<Longrightarrow> lookup (drop_key k c) j = (if j = k then None else lookup c j)"
    and drop_all_lookup: "lookup (drop_all c) j = None"
begin

definition coherent :: "(string \<Rightarrow> 'v \<Rightarrow> bool) \<Rightarrow> 'c \<Rightarrow> bool" where
  "coherent P c \<longleftrightarrow> ok c \<and> (\<forall>k v. lookup c k = Some v \<longrightarrow> P k v)"

lemma coherent_get:
  assumes "coherent P c" "get t k c = (r, c')"
  shows "coherent P c'" "r = Some v \<Longrightarrow> P k v"
proof -
  have "fst (get t k c) = r" "snd (get t k c) = c'" using assms(2) by simp_all
  then show "coherent P c'" "r = Some v \<Longrightarrow> P k v"
    using assms(1) ok_ops(1) [of c t k] get_forgets [of c t k] get_sound [of c t k] by (auto simp: coherent_def)
qed

lemma coherent_put:
  assumes "coherent P c" "P k v"
  shows "coherent P (put t k v c)"
proof -
  have "P j w" if l: "lookup (put t k v c) j = Some w" for j w
  proof (cases "j = k")
    case True
    then show ?thesis using l assms put_same [of c t k v] by (simp add: coherent_def)
  next
    case False
    then show ?thesis using put_other [OF _ False l] assms by (simp add: coherent_def)
  qed
  then show ?thesis using assms ok_ops(2) by (simp add: coherent_def)
qed

lemma coherent_drop_key:
  "coherent P c \<Longrightarrow> (\<And>j v. j \<noteq> k \<Longrightarrow> P j v \<Longrightarrow> Q j v) \<Longrightarrow> coherent Q (drop_key k c)"
  using ok_ops(3) by (auto simp: coherent_def drop_key_lookup split: if_splits)

lemma coherent_drop_all: "coherent P c \<Longrightarrow> coherent Q (drop_all c)"
  using ok_ops(4) by (auto simp: coherent_def drop_all_lookup)

lemma coherent_mono: "coherent P c \<Longrightarrow> (\<And>k v. P k v \<Longrightarrow> Q k v) \<Longrightarrow> coherent Q c"
  by (auto simp: coherent_def)

end

section \<open>Laws\<close>

definition etag_ok :: "ETagCache \<Rightarrow> bool" where
  "etag_ok c \<longleftrightarrow> gm_wf c"

interpretation etags: keyed_cache etag_ok "\<lambda>c k. map_of c k" "\<lambda>t k c. (ETag_Get k c, c)" "\<lambda>t k v c. ETag_Set k v c"
  ETag_Invalidate ETag_InvalidateAll
  by unfold_locales (auto simp: etag_ok_def ETag_Get_def ETag_Set_def ETag_Invalidate_def ETag_InvalidateAll_def gomap_simps)

text \<open>The map and the list agree, keys are unique, and the size is bounded.\<close>

definition bundle_ok :: "BundleCache \<Rightarrow> bool" where
  "bundle_ok c \<longleftrightarrow>
     gm_wf (entries c) \<and> distinct (evictList c) \<and> (\<forall>a \<in> set (evictList c). a < length (elems c)) \<and>
     (\<forall>k a. map_of (entries c) k = Some a \<longleftrightarrow> a \<in> set (evictList c) \<and> ekey (elems c ! a) = k) \<and>
     0 < maxEntries c \<and> int (length (evictList c)) \<le> maxEntries c"

definition bundle_lookup :: "BundleCache \<Rightarrow> string \<Rightarrow> (string \<times> string) option" where
  "bundle_lookup c k =
     map_option (\<lambda>a. (edata (elems c ! a), eetag (elems c ! a))) (map_of (entries c) k)"

lemma bundle_ok_new: "bundle_ok (NewBundleCache m t)"
  by (simp add: bundle_ok_def NewBundleCache_def)

lemma bundle_okD:
  assumes "bundle_ok c"
  shows "distinct (evictList c)" "a \<in> set (evictList c) \<Longrightarrow> a < length (elems c)"
    "map_of (entries c) k = Some a \<longleftrightarrow> a \<in> set (evictList c) \<and> ekey (elems c ! a) = k"
    "int (length (evictList c)) \<le> maxEntries c" "0 < maxEntries c"
  using assms by (auto simp: bundle_ok_def)

lemma remove1_filter: "distinct l \<Longrightarrow> remove1 a l = filter (\<lambda>b. b \<noteq> a) l"
proof (induction l)
  case (Cons x l)
  then show ?case by (cases "x = a") (auto intro: filter_True [symmetric])
qed simp

lemma move_front_filter: "distinct l \<Longrightarrow> a \<in> set l \<Longrightarrow> move_front a l = a # filter (\<lambda>b. b \<noteq> a) l"
  by (simp add: move_front_def remove1_filter)

lemma move_front_props:
  "distinct l \<Longrightarrow> distinct (move_front a l)" "distinct l \<Longrightarrow> set (move_front a l) = set l"
  "length (move_front a l) = length l"
proof -
  show "length (move_front a l) = length l"
    using length_pos_if_in_set [of a l] by (simp add: move_front_def length_remove1)
  show "distinct l \<Longrightarrow> distinct (move_front a l)" "distinct l \<Longrightarrow> set (move_front a l) = set l"
    by (auto simp: move_front_def)
qed

lemma remove_ok:
  assumes "bundle_ok c" "a \<in> set (evictList c)"
  shows "bundle_ok (removeElement a c)"
    "map_of (entries (removeElement a c)) j = (if j = ekey (elems c ! a) then None else map_of (entries c) j)"
proof -
  have d: "distinct (evictList c)"
    and m: "\<And>k b. map_of (entries c) k = Some b \<longleftrightarrow> b \<in> set (evictList c) \<and> ekey (elems c ! b) = k"
    using assms(1) by (auto simp: bundle_ok_def)
  have u: "b = a" if "b \<in> set (evictList c)" "ekey (elems c ! b) = ekey (elems c ! a)" for b
    using m [of "ekey (elems c ! a)" b] m [of "ekey (elems c ! a)" a] that assms(2) by simp
  show "map_of (entries (removeElement a c)) j = (if j = ekey (elems c ! a) then None else map_of (entries c) j)"
    by (simp add: removeElement_def gomap_simps)
  have "map_of (AList.delete (ekey (elems c ! a)) (entries c)) k = Some b \<longleftrightarrow>
      b \<in> set (remove1 a (evictList c)) \<and> ekey (elems c ! b) = k" for k b
    using m [of k b] d u [of b] by (auto simp: gomap_simps)
  moreover have "int (length (remove1 a (evictList c))) \<le> maxEntries c"
    using assms by (auto simp: bundle_ok_def length_remove1)
  ultimately show "bundle_ok (removeElement a c)"
    using assms(1) d by (auto simp: bundle_ok_def removeElement_def dest: notin_set_remove1 set_remove1_subset [THEN subsetD])
qed

text \<open>Recency order: the entries from the most to the least recently used.\<close>

definition recency :: "BundleCache \<Rightarrow> bundleEntry list" where
  "recency c = map (\<lambda>a. elems c ! a) (evictList c)"

lemma recency_keys: "bundle_ok c \<Longrightarrow> distinct (map ekey (recency c))"
proof -
  assume ok: "bundle_ok c"
  then have m: "\<And>k b. map_of (entries c) k = Some b \<longleftrightarrow> b \<in> set (evictList c) \<and> ekey (elems c ! b) = k"
    and d: "distinct (evictList c)" by (auto simp: bundle_ok_def)
  have "inj_on (\<lambda>a. ekey (elems c ! a)) (set (evictList c))"
  proof (rule inj_onI)
    fix a b assume a: "a \<in> set (evictList c)" and b: "b \<in> set (evictList c)" "ekey (elems c ! a) = ekey (elems c ! b)"
    from m [of "ekey (elems c ! b)" a] m [of "ekey (elems c ! b)" b] a b show "a = b" by simp
  qed
  with d show ?thesis by (simp add: recency_def distinct_map comp_def)
qed

definition lru_find :: "string \<Rightarrow> bundleEntry list \<Rightarrow> bundleEntry option" where
  "lru_find k es = find (\<lambda>e. ekey e = k) es"

lemma entries_find:
  assumes "bundle_ok c"
  shows "map_of (entries c) k = Some a \<Longrightarrow> lru_find k (recency c) = Some (elems c ! a)"
    "map_of (entries c) k = None \<Longrightarrow> lru_find k (recency c) = None"
proof -
  assume k: "map_of (entries c) k = Some a"
  then have a: "a \<in> set (evictList c)" "ekey (elems c ! a) = k" using bundle_okD [OF assms] by auto
  have "find (\<lambda>e. ekey e = k) es = Some e" if "distinct (map ekey es)" "e \<in> set es" "ekey e = k" for es e
    using that by (induction es) auto
  from this [OF recency_keys [OF assms], of "elems c ! a"] a show "lru_find k (recency c) = Some (elems c ! a)"
    by (simp add: lru_find_def recency_def)
next
  assume k: "map_of (entries c) k = None"
  have "ekey (elems c ! a) \<noteq> k" if "a \<in> set (evictList c)" for a
    using bundle_okD(3) [OF assms, of k a] k that by auto
  then show "lru_find k (recency c) = None"
    by (auto simp: lru_find_def recency_def find_None_iff)
qed

lemma recency_remove:
  assumes "bundle_ok c" "a \<in> set (evictList c)"
  shows "recency (removeElement a c) = filter (\<lambda>e. ekey e \<noteq> ekey (elems c ! a)) (recency c)"
proof -
  have d: "distinct (evictList c)" using assms by (simp add: bundle_ok_def)
  have "ekey (elems c ! b) = ekey (elems c ! a) \<longleftrightarrow> b = a" if "b \<in> set (evictList c)" for b
    using recency_keys [OF assms(1)] assms(2) that by (auto simp: recency_def distinct_map inj_on_def)
  then show ?thesis
    by (auto simp: recency_def removeElement_def remove1_filter [OF d] filter_map comp_def intro!: arg_cong [where f = "map _"] filter_cong)
qed

lemma move_ok: "bundle_ok c \<Longrightarrow> bundle_ok (c\<lparr>evictList := move_front a (evictList c)\<rparr>)"
  by (simp add: bundle_ok_def move_front_props)

lemma recency_move:
  assumes "bundle_ok c" "a \<in> set (evictList c)"
  shows "recency (c\<lparr>evictList := move_front a (evictList c)\<rparr>) =
    elems c ! a # filter (\<lambda>e. ekey e \<noteq> ekey (elems c ! a)) (recency c)"
  using recency_remove [OF assms] bundle_okD(1) [OF assms(1)] assms(2)
  by (simp add: recency_def move_front_filter removeElement_def remove1_filter)

section \<open>Specification\<close>

text \<open>The cache as a list of entries in recency order.\<close>

definition lru_drop :: "string \<Rightarrow> bundleEntry list \<Rightarrow> bundleEntry list" where
  "lru_drop k es = filter (\<lambda>e. ekey e \<noteq> k) es"

definition lru_get :: "gotime \<Rightarrow> string \<Rightarrow> bundleEntry list \<Rightarrow> (string \<times> string) option \<times> bundleEntry list" where
  "lru_get now k es =
     (case lru_find k es of
        None \<Rightarrow> (None, es)
      | Some e \<Rightarrow> if now > expires e then (None, lru_drop k es) else (Some (edata e, eetag e), e # lru_drop k es))"

definition lru_set :: "nat \<Rightarrow> bundleEntry \<Rightarrow> bundleEntry list \<Rightarrow> bundleEntry list" where
  "lru_set n e es = take n (e # lru_drop (ekey e) es)"

lemma lru_drop_absent: "lru_find k es = None \<Longrightarrow> lru_drop k es = es"
  by (auto simp: lru_find_def lru_drop_def find_None_iff intro: filter_True)

lemma Get_simulates:
  assumes ok: "bundle_ok c" and g: "Bundle_Get now k c = (r, c')"
  shows "bundle_ok c' \<and> lru_get now k (recency c) = (r, recency c') \<and> maxEntries c' = maxEntries c \<and> ttl c' = ttl c"
proof (cases "map_of (entries c) k")
  case None
  then show ?thesis using g ok entries_find(2) [OF ok None] by (simp add: Bundle_Get_def lru_get_def)
next
  case (Some a)
  then have a: "a \<in> set (evictList c)" "ekey (elems c ! a) = k" using bundle_okD [OF ok] by auto
  note f = entries_find(1) [OF ok Some]
  show ?thesis
  proof (cases "now > expires (elems c ! a)")
    case True
    then show ?thesis
      using g Some a f recency_remove [OF ok a(1)] remove_ok(1) [OF ok a(1)]
      by (auto simp: Bundle_Get_def lru_get_def lru_drop_def Let_def removeElement_def)
  next
    case False
    then show ?thesis
      using g Some a f recency_move [OF ok a(1)] move_ok [OF ok]
      by (auto simp: Bundle_Get_def lru_get_def lru_drop_def Let_def)
  qed
qed

lemma removeLRU_simulates:
  assumes ok: "bundle_ok (c\<lparr>maxEntries := m\<rparr>)" and ne: "evictList c \<noteq> []"
  shows "recency (removeLRU c) = butlast (recency c)"
    "bundle_ok ((removeLRU c)\<lparr>maxEntries := m\<rparr>)"
proof -
  let ?c = "c\<lparr>maxEntries := m\<rparr>" and ?a = "last (evictList c)"
  have a: "?a \<in> set (evictList ?c)" using ne by simp
  have d: "distinct (evictList c)" using bundle_okD(1) [OF ok] by simp
  have "remove1 ?a (evictList c) = butlast (evictList c)"
  proof -
    have s: "evictList c = butlast (evictList c) @ [?a]" using ne by simp
    then have "?a \<notin> set (butlast (evictList c))" using d by (metis distinct_butlast not_distinct_conv_prefix)
    then show ?thesis by (metis s remove1_append remove1.simps(2) append_Nil2)
  qed
  then show "recency (removeLRU c) = butlast (recency c)"
    using ne by (simp add: recency_def removeLRU_def removeElement_def map_butlast)
  show "bundle_ok ((removeLRU c)\<lparr>maxEntries := m\<rparr>)"
    using remove_ok(1) [OF ok a] ne unfolding bundle_ok_def by (simp add: removeLRU_def removeElement_def)
qed

lemma Set_simulates:
  assumes ok: "bundle_ok c"
  shows "bundle_ok (Bundle_Set now k data etag c) \<and>
    recency (Bundle_Set now k data etag c) =
      lru_set (nat (maxEntries c)) \<lparr>ekey = k, edata = data, eetag = etag, expires = now + ttl c\<rparr> (recency c) \<and>
    maxEntries (Bundle_Set now k data etag c) = maxEntries c \<and> ttl (Bundle_Set now k data etag c) = ttl c"
proof (cases "map_of (entries c) k")
  case (Some a)
  then have a: "a \<in> set (evictList c)" "ekey (elems c ! a) = k" "a < length (elems c)" using bundle_okD [OF ok] by auto
  let ?e = "(elems c ! a)\<lparr>edata := data, eetag := etag, expires := now + ttl c\<rparr>"
  let ?c = "c\<lparr>evictList := move_front a (evictList c)\<rparr>"
  have s: "Bundle_Set now k data etag c = ?c\<lparr>elems := (elems c)[a := ?e]\<rparr>"
    using Some by (simp add: Bundle_Set_def)
  have key: "ekey ((elems c)[a := ?e] ! b) = ekey (elems c ! b)" for b
    using a by (cases "b = a") simp_all
  have ok': "bundle_ok (?c\<lparr>elems := (elems c)[a := ?e]\<rparr>)"
    using move_ok [OF ok, of a] by (simp add: bundle_ok_def key)
  have mf: "move_front a (evictList c) = a # filter (\<lambda>b. b \<noteq> a) (evictList c)"
    using move_front_filter [OF bundle_okD(1) [OF ok] a(1)] .
  have "map ((!) ((elems c)[a := ?e])) (filter (\<lambda>b. b \<noteq> a) (evictList c)) =
      map ((!) (elems c)) (filter (\<lambda>b. b \<noteq> a) (evictList c))"
    by (rule map_cong) auto
  also have "\<dots> = lru_drop k (recency c)"
    using recency_remove [OF ok a(1)] a bundle_okD(1) [OF ok]
    by (simp add: recency_def removeElement_def remove1_filter lru_drop_def)
  finally have rest: "map ((!) ((elems c)[a := ?e])) (filter (\<lambda>b. b \<noteq> a) (evictList c)) = lru_drop k (recency c)" .
  have e: "?e = \<lparr>ekey = k, edata = data, eetag = etag, expires = now + ttl c\<rparr>" using a by simp
  have "length (lru_drop k (recency c)) < length (recency c)"
    unfolding lru_drop_def using a by (intro length_filter_less [of "elems c ! a"]) (auto simp: recency_def)
  then have "length (?e # lru_drop k (recency c)) \<le> nat (maxEntries c)"
    using ok by (auto simp: recency_def bundle_ok_def)
  then have "recency (?c\<lparr>elems := (elems c)[a := ?e]\<rparr>) = lru_set (nat (maxEntries c)) ?e (recency c)"
    using a rest mf by (simp add: recency_def lru_set_def)
  with ok' show ?thesis by (simp add: s e)
next
  case None
  let ?n = "length (elems c)"
  let ?e = "\<lparr>ekey = k, edata = data, eetag = etag, expires = now + ttl c\<rparr>"
  let ?c = "c\<lparr>elems := elems c @ [?e], evictList := ?n # evictList c, entries := AList.update k ?n (entries c)\<rparr>"
  have lt: "a < ?n" if "a \<in> set (evictList c)" for a using bundle_okD(2) [OF ok that] .
  have keys: "ekey (elems c ! a) \<noteq> k" if "a \<in> set (evictList c)" for a
    using bundle_okD(3) [OF ok, of k a] None that by auto
  have r: "recency ?c = ?e # recency c" using lt by (auto simp: recency_def nth_append)
  have drop: "lru_drop k (recency c) = recency c" using lru_drop_absent entries_find(2) [OF ok None] by blast
  have m: "map_of (AList.update k ?n (entries c)) j = Some b \<longleftrightarrow>
      b \<in> set (?n # evictList c) \<and> ekey ((elems c @ [?e]) ! b) = j" for j b
    using bundle_okD(3) [OF ok, of j b] keys [of b] lt [of b] by (cases "b = ?n") (auto simp: gomap_simps nth_append)
  have ok1: "bundle_ok (?c\<lparr>maxEntries := maxEntries c + 1\<rparr>)"
    unfolding bundle_ok_def
  proof (intro conjI)
    show "\<forall>a \<in> set (evictList (?c\<lparr>maxEntries := maxEntries c + 1\<rparr>)). a < length (elems (?c\<lparr>maxEntries := maxEntries c + 1\<rparr>))"
      using lt less_Suc_eq by auto
    show "distinct (evictList (?c\<lparr>maxEntries := maxEntries c + 1\<rparr>))"
      using lt bundle_okD(1) [OF ok] by auto
  qed (use ok m in \<open>simp_all add: bundle_ok_def\<close>)
  show ?thesis
  proof (cases "int (length (evictList ?c)) > maxEntries c")
    case True
    have len: "length (recency c) = nat (maxEntries c)" using True bundle_okD(4) [OF ok] by (simp add: recency_def)
    have s: "Bundle_Set now k data etag c = removeLRU ?c" using None True by (simp add: Bundle_Set_def Let_def)
    note sim = removeLRU_simulates [OF ok1]
    have mx: "maxEntries (removeLRU ?c) = maxEntries c" by (simp add: removeLRU_def removeElement_def)
    have "recency (removeLRU ?c) = butlast (?e # recency c)" using sim(1) r by simp
    also have "\<dots> = take (nat (maxEntries c)) (?e # recency c)" using len by (simp add: butlast_conv_take)
    finally have rec: "recency (removeLRU ?c) = lru_set (nat (maxEntries c)) ?e (recency c)"
      by (simp add: lru_set_def drop)
    have "int (length (evictList (removeLRU ?c))) \<le> maxEntries c"
    proof -
      have "length (evictList (removeLRU ?c)) = length (recency (removeLRU ?c))" by (simp add: recency_def)
      then show ?thesis using rec bundle_okD(5) [OF ok] by (simp add: lru_set_def)
    qed
    then have "bundle_ok (removeLRU ?c)" using sim(2) mx ok by (simp add: bundle_ok_def)
    with rec mx show ?thesis by (simp add: s removeLRU_def removeElement_def)
  next
    case False
    have s: "Bundle_Set now k data etag c = ?c" using None False by (simp add: Bundle_Set_def Let_def)
    have "length (?e # recency c) \<le> nat (maxEntries c)" using False by (simp add: recency_def)
    then have "recency ?c = lru_set (nat (maxEntries c)) ?e (recency c)" using r drop by (simp add: lru_set_def)
    moreover have "bundle_ok ?c" using ok1 False by (simp add: bundle_ok_def)
    ultimately show ?thesis by (simp add: s)
  qed
qed

lemma Invalidate_simulates:
  assumes ok: "bundle_ok c"
  shows "bundle_ok (Bundle_Invalidate k c)" "recency (Bundle_Invalidate k c) = lru_drop k (recency c)"
proof -
  have "bundle_ok (Bundle_Invalidate k c) \<and> recency (Bundle_Invalidate k c) = lru_drop k (recency c)"
  proof (cases "map_of (entries c) k")
    case None
    then show ?thesis
      using ok lru_drop_absent [OF entries_find(2) [OF ok None]] by (simp add: Bundle_Invalidate_def)
  next
    case (Some a)
    then have a: "a \<in> set (evictList c)" "ekey (elems c ! a) = k" using bundle_okD [OF ok] by auto
    then show ?thesis
      using Some remove_ok(1) [OF ok a(1)] recency_remove [OF ok a(1)]
      by (simp add: Bundle_Invalidate_def lru_drop_def)
  qed
  then show "bundle_ok (Bundle_Invalidate k c)" "recency (Bundle_Invalidate k c) = lru_drop k (recency c)" by simp_all
qed

lemma InvalidateAll_simulates: "bundle_ok c \<Longrightarrow> bundle_ok (Bundle_InvalidateAll c)" "recency (Bundle_InvalidateAll c) = []"
  by (auto simp: bundle_ok_def Bundle_InvalidateAll_def recency_def)

lemma invalidate_one_eq:
  assumes "bundle_ok c" "a \<in> set (evictList c)" "ekey (elems c ! a) = k"
  shows "invalidate_one fn (k, a) c = (if fn k then Bundle_Invalidate k c else c)"
proof -
  have "map_of (entries c) k = Some a" using assms bundle_okD(3) by blast
  then show ?thesis
    using assms by (simp add: invalidate_one_def Bundle_Invalidate_def removeElement_def Let_def delete_idem)
qed

lemma Invalidate_frame:
  assumes "bundle_ok c"
  shows "elems (Bundle_Invalidate k c) = elems c"
    "a \<in> set (evictList c) \<Longrightarrow> ekey (elems c ! a) \<noteq> k \<Longrightarrow> a \<in> set (evictList (Bundle_Invalidate k c))"
proof -
  show "elems (Bundle_Invalidate k c) = elems c"
    by (simp add: Bundle_Invalidate_def removeElement_def split: option.split)
  assume a: "a \<in> set (evictList c)" "ekey (elems c ! a) \<noteq> k"
  show "a \<in> set (evictList (Bundle_Invalidate k c))"
  proof (cases "map_of (entries c) k")
    case (Some b)
    then have "b \<noteq> a" using a bundle_okD(3) [OF assms, of k b] by auto
    then show ?thesis using a Some by (simp add: Bundle_Invalidate_def removeElement_def in_set_remove1)
  qed (simp add: a Bundle_Invalidate_def)
qed

lemma InvalidateFunc_fold:
  assumes "bundle_ok c" "distinct (map fst ps)"
    and "\<forall>(k, a) \<in> set ps. a \<in> set (evictList c) \<and> ekey (elems c ! a) = k"
  shows "bundle_ok (fold (invalidate_one fn) ps c) \<and>
    recency (fold (invalidate_one fn) ps c) = filter (\<lambda>e. \<not> (fn (ekey e) \<and> ekey e \<in> fst ` set ps)) (recency c)"
  using assms
proof (induction ps arbitrary: c)
  case (Cons p ps)
  obtain k a where p: "p = (k, a)" by (cases p)
  have ka: "a \<in> set (evictList c)" "ekey (elems c ! a) = k" using Cons.prems(3) p by auto
  let ?c = "invalidate_one fn (k, a) c"
  have e: "?c = (if fn k then Bundle_Invalidate k c else c)" by (rule invalidate_one_eq [OF Cons.prems(1) ka])
  have ok: "bundle_ok ?c" using Invalidate_simulates(1) [OF Cons.prems(1)] Cons.prems(1) by (simp add: e)
  have d: "distinct (map fst ps)" "k \<notin> fst ` set ps" using Cons.prems(2) p by auto
  have rest: "\<forall>(j, b) \<in> set ps. b \<in> set (evictList ?c) \<and> ekey (elems ?c ! b) = j"
  proof
    fix q assume q: "q \<in> set ps"
    obtain j b where jb: "q = (j, b)" by (cases q)
    then have "j \<noteq> k" using q d(2) by force
    moreover have "b \<in> set (evictList c) \<and> ekey (elems c ! b) = j" using Cons.prems(3) q jb by auto
    ultimately show "case q of (j, b) \<Rightarrow> b \<in> set (evictList ?c) \<and> ekey (elems ?c ! b) = j"
      using Invalidate_frame [OF Cons.prems(1)] jb by (simp add: e)
  qed
  have "recency ?c = filter (\<lambda>x. \<not> (fn (ekey x) \<and> ekey x = k)) (recency c)"
  proof (cases "fn k")
    case True
    then show ?thesis
      using Invalidate_simulates(2) [OF Cons.prems(1), of k] by (auto simp: e lru_drop_def intro!: filter_cong)
  next
    case False
    then show ?thesis by (auto simp: e intro!: filter_True [symmetric])
  qed
  then show ?case
    using Cons.IH [OF ok d(1) rest] by (auto simp: p intro!: filter_cong)
qed simp

lemma InvalidateFunc_simulates:
  assumes "bundle_ok c"
  shows "bundle_ok (Bundle_InvalidateFunc fn c)"
    "recency (Bundle_InvalidateFunc fn c) = filter (\<lambda>e. \<not> fn (ekey e)) (recency c)"
proof -
  have wf: "gm_wf (entries c)" using assms unfolding bundle_ok_def by blast
  have "\<forall>(k, a) \<in> set (entries c). a \<in> set (evictList c) \<and> ekey (elems c ! a) = k"
  proof clarify
    fix k a assume "(k, a) \<in> set (entries c)"
    then have "map_of (entries c) k = Some a" using gm_wf_in_set [OF wf] by simp
    then show "a \<in> set (evictList c) \<and> ekey (elems c ! a) = k" using bundle_okD(3) [OF assms, of k a] by simp
  qed
  note f = InvalidateFunc_fold [OF assms wf [unfolded gm_wf_def] this, of fn]
  have k: "ekey e \<in> fst ` set (entries c)" if e: "e \<in> set (recency c)" for e
  proof -
    obtain a where "a \<in> set (evictList c)" "e = elems c ! a" using e by (auto simp: recency_def)
    then have "map_of (entries c) (ekey e) = Some a" using bundle_okD(3) [OF assms, of "ekey e" a] by simp
    then have "(ekey e, a) \<in> set (entries c)" by (rule map_of_SomeD)
    then show ?thesis by force
  qed
  have "recency (Bundle_InvalidateFunc fn c) = filter (\<lambda>e. \<not> (fn (ekey e) \<and> ekey e \<in> fst ` set (entries c))) (recency c)"
    using f by (simp add: Bundle_InvalidateFunc_def)
  also have "\<dots> = filter (\<lambda>e. \<not> fn (ekey e)) (recency c)"
    by (rule filter_cong) (use k in auto)
  finally show "recency (Bundle_InvalidateFunc fn c) = filter (\<lambda>e. \<not> fn (ekey e)) (recency c)" .
  show "bundle_ok (Bundle_InvalidateFunc fn c)" using f by (simp add: Bundle_InvalidateFunc_def)
qed

lemma lookup_find:
  assumes "bundle_ok c"
  shows "bundle_lookup c k = map_option (\<lambda>e. (edata e, eetag e)) (lru_find k (recency c))"
  using entries_find [OF assms, of k] by (cases "map_of (entries c) k") (simp_all add: bundle_lookup_def)

lemma find_drop: "lru_find j (lru_drop k es) = (if j = k then None else lru_find j es)"
  by (induction es) (auto simp: lru_find_def lru_drop_def)

lemma find_Cons: "lru_find j (e # es) = (if ekey e = j then Some e else lru_find j es)"
  by (simp add: lru_find_def)

lemma find_take: "lru_find k (take n es) = Some e \<Longrightarrow> lru_find k es = Some e"
  by (induction es arbitrary: n) (auto simp: lru_find_def take_Cons split: nat.splits if_splits)

lemma find_key: "lru_find k es = Some e \<Longrightarrow> ekey e = k"
  by (induction es) (auto simp: lru_find_def split: if_splits)

lemma find_get: "lru_find j (snd (lru_get t k es)) = Some e \<Longrightarrow> lru_find j es = Some e"
  by (auto simp: lru_get_def find_Cons find_drop dest: find_key split: option.splits if_splits)

interpretation bundles: keyed_cache bundle_ok bundle_lookup Bundle_Get
  "\<lambda>t k v c. Bundle_Set t k (fst v) (snd v) c" Bundle_Invalidate Bundle_InvalidateAll
proof unfold_locales
  fix c t k j v w
  assume ok: "bundle_ok c"
  note get = Get_simulates [OF ok surjective_pairing, of t k]
  note set = Set_simulates [OF ok, of t k "fst v" "snd v"]
  show "bundle_ok (snd (Bundle_Get t k c))" using get by simp
  show "bundle_ok (Bundle_Set t k (fst v) (snd v) c)" using set by simp
  show "bundle_ok (Bundle_Invalidate k c)" "bundle_ok (Bundle_InvalidateAll c)"
    using Invalidate_simulates(1) InvalidateAll_simulates(1) ok by auto
  show "fst (Bundle_Get t k c) = Some v \<Longrightarrow> bundle_lookup c k = Some v"
    using get by (auto simp: lookup_find [OF ok] lru_get_def split: option.splits if_splits)
  show "bundle_lookup (snd (Bundle_Get t k c)) j = Some v \<Longrightarrow> bundle_lookup c j = Some v"
    using get lookup_find [OF ok, of j] lookup_find [of "snd (Bundle_Get t k c)" j]
      find_get [of j t k "recency c"] by auto
  have pos: "nat (maxEntries c) = Suc (nat (maxEntries c) - 1)" using ok by (simp add: bundle_ok_def)
  have "recency (Bundle_Set t k (fst v) (snd v) c) =
      \<lparr>ekey = k, edata = fst v, eetag = snd v, expires = t + ttl c\<rparr> #
        take (nat (maxEntries c) - 1) (lru_drop k (recency c))"
    using set pos by (simp add: lru_set_def take_Cons' del: Suc_pred)
  then have l: "bundle_lookup (Bundle_Set t k (fst v) (snd v) c) i =
      (if i = k then Some v else map_option (\<lambda>e. (edata e, eetag e))
         (lru_find i (take (nat (maxEntries c) - 1) (lru_drop k (recency c)))))" for i
    using set lookup_find [of "Bundle_Set t k (fst v) (snd v) c" i] by (simp add: find_Cons)
  show "bundle_lookup (Bundle_Set t k (fst v) (snd v) c) k = Some v" by (simp add: l)
  show "j \<noteq> k \<Longrightarrow> bundle_lookup (Bundle_Set t k (fst v) (snd v) c) j = Some w \<Longrightarrow> bundle_lookup c j = Some w"
    using find_take [of j _ "lru_drop k (recency c)"] by (auto simp: l lookup_find [OF ok] find_drop)
  show "bundle_lookup (Bundle_Invalidate k c) j = (if j = k then None else bundle_lookup c j)"
    using Invalidate_simulates [OF ok, of k] lookup_find [of "Bundle_Invalidate k c" j] lookup_find [OF ok, of j]
    by (simp add: find_drop)
next
  fix c j
  show "bundle_lookup (Bundle_InvalidateAll c) j = None" by (simp add: bundle_lookup_def Bundle_InvalidateAll_def)
qed

section \<open>Properties\<close>

datatype bundle_op =
    OGet gotime string
  | OSet gotime string string string
  | OInvalidate string
  | OInvalidateAll
  | OInvalidateFunc "string \<Rightarrow> bool"

fun bundle_apply :: "bundle_op \<Rightarrow> BundleCache \<Rightarrow> (string \<times> string) option \<times> BundleCache" where
  "bundle_apply (OGet now k) c = Bundle_Get now k c"
| "bundle_apply (OSet now k data etag) c = (None, Bundle_Set now k data etag c)"
| "bundle_apply (OInvalidate k) c = (None, Bundle_Invalidate k c)"
| "bundle_apply OInvalidateAll c = (None, Bundle_InvalidateAll c)"
| "bundle_apply (OInvalidateFunc fn) c = (None, Bundle_InvalidateFunc fn c)"

fun lru_apply :: "nat \<Rightarrow> duration \<Rightarrow> bundle_op \<Rightarrow> bundleEntry list \<Rightarrow> (string \<times> string) option \<times> bundleEntry list" where
  "lru_apply n t (OGet now k) es = lru_get now k es"
| "lru_apply n t (OSet now k data etag) es =
     (None, lru_set n \<lparr>ekey = k, edata = data, eetag = etag, expires = now + t\<rparr> es)"
| "lru_apply n t (OInvalidate k) es = (None, lru_drop k es)"
| "lru_apply n t OInvalidateAll es = (None, [])"
| "lru_apply n t (OInvalidateFunc fn) es = (None, filter (\<lambda>e. \<not> fn (ekey e)) es)"

fun run_ops :: "('o \<Rightarrow> 's \<Rightarrow> 'r \<times> 's) \<Rightarrow> 'o list \<Rightarrow> 's \<Rightarrow> 'r list \<times> 's" where
  "run_ops f [] s = ([], s)"
| "run_ops f (x # xs) s = (let (r, s') = f x s; (rs, s'') = run_ops f xs s' in (r # rs, s''))"

lemma bundle_apply_simulates:
  assumes "bundle_ok c"
  shows "bundle_ok (snd (bundle_apply x c)) \<and>
    lru_apply (nat (maxEntries c)) (ttl c) x (recency c) = (fst (bundle_apply x c), recency (snd (bundle_apply x c))) \<and>
    maxEntries (snd (bundle_apply x c)) = maxEntries c \<and> ttl (snd (bundle_apply x c)) = ttl c"
proof -
  have frame: "maxEntries (Bundle_Invalidate k c) = maxEntries c" "ttl (Bundle_Invalidate k c) = ttl c" for k c
    by (simp_all add: Bundle_Invalidate_def removeElement_def split: option.split)
  have "maxEntries (fold (invalidate_one fn) ps c) = maxEntries c \<and> ttl (fold (invalidate_one fn) ps c) = ttl c" for fn ps c
    by (induction ps arbitrary: c) (auto simp: invalidate_one_def removeElement_def Let_def)
  then show ?thesis
    using assms Get_simulates [OF assms surjective_pairing] Set_simulates [OF assms]
      Invalidate_simulates [OF assms] InvalidateAll_simulates InvalidateFunc_simulates [OF assms]
    by (cases x) (simp_all add: frame Bundle_InvalidateFunc_def Bundle_InvalidateAll_def)
qed

lemma bundle_run_simulates:
  assumes "bundle_ok c"
  shows "fst (run_ops bundle_apply xs c) = fst (run_ops (lru_apply (nat (maxEntries c)) (ttl c)) xs (recency c)) \<and>
    recency (snd (run_ops bundle_apply xs c)) = snd (run_ops (lru_apply (nat (maxEntries c)) (ttl c)) xs (recency c)) \<and>
    bundle_ok (snd (run_ops bundle_apply xs c)) \<and> maxEntries (snd (run_ops bundle_apply xs c)) = maxEntries c"
  using assms
proof (induction xs arbitrary: c)
  case (Cons x xs)
  note step = bundle_apply_simulates [OF Cons.prems, of x]
  from Cons.IH [of "snd (bundle_apply x c)"] step show ?case
    by (simp add: Let_def case_prod_beta)
qed simp

text \<open>
  C16.  The bundle cache is a bounded least-recently-used list.  After any history of its
  operations every lookup has returned what a plain list of entries in recency order
  returns, in which a store puts the entry in front and cuts the list at the capacity and a
  lookup moves a live entry to the front and drops an expired one; the entries left are
  those of that list, and they are never more than the capacity.
\<close>

theorem bundle_cache_is_lru:
  "let c0 = NewBundleCache m t; spec = run_ops (lru_apply (nat (maxEntries c0)) (ttl c0)) xs [];
       impl = run_ops bundle_apply xs c0
   in fst impl = fst spec \<and> recency (snd impl) = snd spec \<and> distinct (map ekey (recency (snd impl))) \<and>
      int (Bundle_Len (snd impl)) \<le> maxEntries c0"
proof -
  have r: "recency (NewBundleCache m t) = []" by (simp add: recency_def NewBundleCache_def)
  note sim = bundle_run_simulates [OF bundle_ok_new [of m t], of xs, unfolded r]
  then have "bundle_ok (snd (run_ops bundle_apply xs (NewBundleCache m t)))" by simp
  from recency_keys [OF this] bundle_okD(4) [OF this] sim show ?thesis
    by (simp add: Let_def Bundle_Len_def)
qed

end
