(* ===== verification/BS_Service.thy ===== *)
theory BS_Service
  imports BS_Identity BS_Bundle BS_Cache
begin

text \<open>
  The bundle service (\<^verbatim>\<open>operator/internal/bundleservice\<close>: \<^verbatim>\<open>watcher\<close>, \<^verbatim>\<open>provider\<close>, \<^verbatim>\<open>handler\<close>).  The
  informer of the Kubernetes client is third-party code: its index is a list of objects in
  no particular order, and the conversion of an object into a policy is an argument.  What
  the service calls is collected in the record \<open>deps\<close>, its state in the record \<open>service\<close>.
\<close>

section \<open>State\<close>

text \<open>
  A watched object: its metadata, the value \<^verbatim>\<open>NestedString\<close> finds at \<^verbatim>\<open>spec.scope\<close> (empty if
  there is none), and the rest, which only the converter reads.
\<close>

record UObj =
  UNamespace :: string
  UName :: string
  UScope :: string
  UContent :: string

record AuthorizationPolicySpec =
  SpecScope :: string
  SpecClientID :: string
  SpecPolicies :: "PolicyEntry list"

record deps =
  FromUnstructured :: "UObj \<Rightarrow> goerr + AuthorizationPolicySpec"
  SortSlice :: sorter
  Archiver :: archiver
  ServiceNamespace :: string

record service =
  ETags :: ETagCache
  Bundles :: BundleCache
  PCache :: PolicyCache
  Indexer :: "UObj list"

definition AuthorizationPolicyFromUnstructured :: "deps \<Rightarrow> UObj \<Rightarrow> goerr + AuthorizationPolicySpec" where
  "AuthorizationPolicyFromUnstructured d u =
     (case FromUnstructured d u of
        Inl err \<Rightarrow> Inl (Errorf [Lit ''converting from unstructured: '', Wrap err])
      | Inr ap \<Rightarrow> Inr ap)"

section \<open>Watcher\<close>

definition object_key :: "UObj \<Rightarrow> string" where
  "object_key u = UNamespace u @ ''/'' @ UName u"

definition policy_scope :: "UObj \<Rightarrow> string" where
  "policy_scope u = (if UScope u = [] then ''client'' else UScope u)"

definition ByIndex :: "string \<Rightarrow> UObj list \<Rightarrow> UObj list" where
  "ByIndex scope idx = filter (\<lambda>u. policy_scope u = scope) idx"

definition GetGlobalPolicies :: "deps \<Rightarrow> UObj list \<Rightarrow> UObj list" where
  "GetGlobalPolicies d idx = filter (\<lambda>u. UNamespace u = ServiceNamespace d) (ByIndex ''global'' idx)"

definition GetNamespacePolicies :: "string \<Rightarrow> UObj list \<Rightarrow> UObj list" where
  "GetNamespacePolicies ns idx = filter (\<lambda>u. UNamespace u = ns) (ByIndex ''namespace'' idx)"

definition GetPolicy :: "string \<Rightarrow> string \<Rightarrow> UObj list \<Rightarrow> UObj option" where
  "GetPolicy name namespace idx = find (\<lambda>u. object_key u = namespace @ ''/'' @ name) idx"

definition invalidate :: "deps \<Rightarrow> UObj \<Rightarrow> service \<Rightarrow> service" where
  "invalidate d u s =
     (let scope = policy_scope u in
      if scope = ''global'' then
        (if UNamespace u \<noteq> ServiceNamespace d then s
         else s\<lparr>PCache := InvalidateGlobal (PCache s), ETags := ETag_InvalidateAll (ETags s),
                Bundles := Bundle_InvalidateAll (Bundles s)\<rparr>)
      else if scope = ''namespace'' then
        s\<lparr>PCache := InvalidateNamespace (UNamespace u) (PCache s), ETags := ETag_InvalidateAll (ETags s),
          Bundles := Bundle_InvalidateAll (Bundles s)\<rparr>
      else if scope = ''client'' then
        s\<lparr>ETags := ETag_Invalidate (object_key u) (ETags s), Bundles := Bundle_Invalidate (object_key u) (Bundles s)\<rparr>
      else s)"

text \<open>The informer stores a change, then calls the handler: with the new object on an update.\<close>

datatype informer_event = AddFunc UObj | UpdateFunc UObj UObj | DeleteFunc UObj

fun handler_object :: "informer_event \<Rightarrow> UObj" where
  "handler_object (AddFunc u) = u"
| "handler_object (UpdateFunc old u) = u"
| "handler_object (DeleteFunc u) = u"

fun stored :: "informer_event \<Rightarrow> UObj list \<Rightarrow> UObj list" where
  "stored (AddFunc u) idx = u # idx"
| "stored (UpdateFunc old u) idx = u # remove1 old idx"
| "stored (DeleteFunc u) idx = remove1 u idx"

section \<open>Provider\<close>

definition extract_one :: "deps \<Rightarrow> UObj \<Rightarrow> PolicyEntry list" where
  "extract_one d u =
     (case AuthorizationPolicyFromUnstructured d u of Inl err \<Rightarrow> [] | Inr ap \<Rightarrow> SpecPolicies ap)"

definition extractPolicies :: "deps \<Rightarrow> UObj list \<Rightarrow> PolicyEntry list" where
  "extractPolicies d objs = concat (map (extract_one d) objs)"

definition tier_policy :: "string \<Rightarrow> PolicyEntry \<Rightarrow> Policy" where
  "tier_policy prefix e = \<lparr>Path = prefix @ PPath e, Content = PContent e\<rparr>"

definition hashPolicyEntries :: "deps \<Rightarrow> PolicyEntry list \<Rightarrow> string" where
  "hashPolicyEntries d es = ContentHash (SortSlice d) (map (tier_policy []) es)"

definition getGlobalPolicies :: "deps \<Rightarrow> service \<Rightarrow> PolicyEntry list \<times> service" where
  "getGlobalPolicies d s =
     (case GetGlobal (PCache s) of
        Some (ps, h) \<Rightarrow> (ps, s)
      | None \<Rightarrow>
          (let ps = extractPolicies d (GetGlobalPolicies d (Indexer s))
           in (ps, s\<lparr>PCache := SetGlobal ps (hashPolicyEntries d ps) (PCache s)\<rparr>)))"

definition getNamespacePolicies :: "deps \<Rightarrow> string \<Rightarrow> service \<Rightarrow> PolicyEntry list \<times> service" where
  "getNamespacePolicies d ns s =
     (case GetNamespace ns (PCache s) of
        Some (ps, h) \<Rightarrow> (ps, s)
      | None \<Rightarrow>
          (let ps = extractPolicies d (GetNamespacePolicies ns (Indexer s))
           in (ps, s\<lparr>PCache := SetNamespace ns ps (hashPolicyEntries d ps) (PCache s)\<rparr>)))"

definition getClientPolicies :: "deps \<Rightarrow> ClientIdentity \<Rightarrow> UObj list \<Rightarrow> goerr + PolicyEntry list" where
  "getClientPolicies d ident idx =
     (case GetPolicy (CName ident) (CNamespace ident) idx of
        None \<Rightarrow> Inr []
      | Some u \<Rightarrow>
          (case AuthorizationPolicyFromUnstructured d u of
             Inl err \<Rightarrow> Inl err
           | Inr ap \<Rightarrow> Inr (SpecPolicies ap)))"

definition all_policies :: "PolicyEntry list \<Rightarrow> PolicyEntry list \<Rightarrow> PolicyEntry list \<Rightarrow> Policy list" where
  "all_policies g n c =
     map (tier_policy ''authbridge/global/'') g @ map (tier_policy ''authbridge/ns/'') n @
     map (tier_policy ''authbridge/client/'') c"

definition maxBundleSize :: nat where
  "maxBundleSize = 5 * 1024 * 1024"

definition maxConcurrentBuilds :: nat where
  "maxConcurrentBuilds = 10"

definition ErrBundleTooLarge :: string where
  "ErrBundleTooLarge = ''bundle exceeds size limit''"

text \<open>\<^verbatim>\<open>buildBundle\<close> in its two halves: reading the tiers, then publishing tag and bundle.\<close>

definition gather :: "deps \<Rightarrow> ClientIdentity \<Rightarrow> service \<Rightarrow> (goerr + Policy list) \<times> service" where
  "gather d ident s =
     (let (g, s1) = getGlobalPolicies d s;
          (n, s2) = getNamespacePolicies d (CNamespace ident) s1
      in case getClientPolicies d ident (Indexer s2) of
           Inl err \<Rightarrow> (Inl err, s2)
         | Inr c \<Rightarrow> (Inr (all_policies g n c), s2))"

definition publish :: "deps \<Rightarrow> gotime \<Rightarrow> ClientIdentity \<Rightarrow> Policy list \<Rightarrow> service \<Rightarrow> (goerr + string \<times> string) \<times> service" where
  "publish d now ident ps s =
     (let key = CacheKey ident;
          hash = ContentHash (SortSlice d) ps;
          s1 = s\<lparr>ETags := ETag_Set key hash (ETags s)\<rparr>
      in case Build (SortSlice d) (Archiver d) ps of
           Inl err \<Rightarrow> (Inl err, s1)
         | Inr (data, tag) \<Rightarrow>
             if length data > maxBundleSize then (Inl (Sentinel ErrBundleTooLarge), s1)
             else (Inr (data, hash), s1\<lparr>Bundles := Bundle_Set now key data hash (Bundles s1)\<rparr>))"

definition buildBundle :: "deps \<Rightarrow> gotime \<Rightarrow> ClientIdentity \<Rightarrow> service \<Rightarrow> (goerr + string \<times> string) \<times> service" where
  "buildBundle d now ident s =
     (case gather d ident s of
        (Inl err, s') \<Rightarrow> (Inl err, s')
      | (Inr ps, s') \<Rightarrow> publish d now ident ps s')"

text \<open>
  The outcomes of \<^verbatim>\<open>GetBundle\<close>, where \<open>running\<close> builds hold the semaphore; no data means the
  client is up to date.
\<close>

definition GetBundle :: "deps \<Rightarrow> gotime \<Rightarrow> goerr option \<Rightarrow> nat \<Rightarrow> ClientIdentity \<Rightarrow> string \<Rightarrow> service \<Rightarrow>
    ((goerr + string option \<times> string) \<times> service) list" where
  "GetBundle d now ctxErr running ident ifNoneMatch s =
     (let key = CacheKey ident in
      if ifNoneMatch \<noteq> [] \<and> ETag_Get key (ETags s) = Some ifNoneMatch then [(Inr (None, ifNoneMatch), s)]
      else
        (let (hit, bs) = Bundle_Get now key (Bundles s); s1 = s\<lparr>Bundles := bs\<rparr> in
         case hit of
           Some (data, etag) \<Rightarrow> [(Inr (Some data, etag), s1\<lparr>ETags := ETag_Set key etag (ETags s1)\<rparr>)]
         | None \<Rightarrow>
             (if running < maxConcurrentBuilds then
                [case buildBundle d now ident s1 of
                   (Inl err, s2) \<Rightarrow> (Inl err, s2)
                 | (Inr (data, hash), s2) \<Rightarrow> (Inr (Some data, hash), s2)]
              else []) @
             (case ctxErr of None \<Rightarrow> [] | Some err \<Rightarrow> [(Inl err, s1)])))"

section \<open>Handler\<close>

record bundle_reply =
  BStatus :: int
  BHeader :: "(string \<times> string) list"
  BBody :: string

definition http_Error :: "string \<Rightarrow> int \<Rightarrow> bundle_reply" where
  "http_Error message code =
     \<lparr>BStatus = code, BHeader = [(''Content-Type'', ''text/plain; charset=utf-8''), (''X-Content-Type-Options'', ''nosniff'')],
      BBody = message @ [CHR 0x0A]\<rparr>"

definition strip_quotes :: "string \<Rightarrow> string" where
  "strip_quotes t =
     (if length t \<ge> 2 \<and> hd t = CHR 0x22 \<and> last t = CHR 0x22 then butlast (tl t) else t)"

text \<open>\<^verbatim>\<open>serveBundle\<close> up to the provider's call, and what it makes of the result.\<close>

definition serve_request :: "verifier \<Rightarrow> bool option \<Rightarrow> string \<Rightarrow> string \<Rightarrow> bundle_reply + ClientIdentity \<times> string" where
  "serve_request verify ready rawQuery ifNoneMatch =
     (if ready = Some False then Inl (http_Error ''service not ready'' 503)
      else case FromRequest rawQuery of
        Inl err \<Rightarrow> Inl (http_Error ''invalid client identity'' 400)
      | Inr ident \<Rightarrow>
          (case verify rawQuery ident of
             Some err \<Rightarrow> Inl (http_Error ''unauthorized'' 403)
           | None \<Rightarrow> Inr (ident, strip_quotes ifNoneMatch)))"

definition serve_result :: "goerr + string option \<times> string \<Rightarrow> bundle_reply" where
  "serve_result res =
     (case res of
        Inl err \<Rightarrow>
          if errors_is err ErrBundleTooLarge then http_Error ''bundle too large'' 413
          else http_Error ''internal server error'' 500
      | Inr (data, etag) \<Rightarrow>
          if data = None \<and> etag \<noteq> [] then \<lparr>BStatus = 304, BHeader = [], BBody = []\<rparr>
          else
            \<lparr>BStatus = 200,
             BHeader = [(''Content-Type'', ''application/gzip''), (''ETag'', [CHR 0x22] @ etag @ [CHR 0x22]),
                        (''Cache-Control'', ''max-age=0, must-revalidate'')],
             BBody = (case data of None \<Rightarrow> [] | Some b \<Rightarrow> b)\<rparr>)"

definition readyz :: "bool option \<Rightarrow> bundle_reply" where
  "readyz ready =
     (if ready = None \<or> ready = Some True then \<lparr>BStatus = 200, BHeader = [], BBody = ''ok''\<rparr>
      else http_Error ''not ready'' 503)"

definition NewService :: "UObj list \<Rightarrow> service" where
  "NewService idx = \<lparr>ETags = NewETagCache, Bundles = NewBundleCache 100 (1 * Minute), PCache = NewPolicyCache, Indexer = idx\<rparr>"

section \<open>Coherence of the caches\<close>

text \<open>
  What the service should answer: the policies of the three tiers for an identity, up to the
  order in which the index enumerates the objects of a tier.
\<close>

definition global_entries :: "deps \<Rightarrow> UObj list \<Rightarrow> PolicyEntry list" where
  "global_entries d idx = extractPolicies d (GetGlobalPolicies d idx)"

definition ns_entries :: "deps \<Rightarrow> string \<Rightarrow> UObj list \<Rightarrow> PolicyEntry list" where
  "ns_entries d ns idx = extractPolicies d (GetNamespacePolicies ns idx)"

definition built_from :: "deps \<Rightarrow> UObj list \<Rightarrow> ClientIdentity \<Rightarrow> Policy list \<Rightarrow> bool" where
  "built_from d idx ident ps \<longleftrightarrow>
     (\<exists>g n c. mset g = mset (global_entries d idx) \<and> mset n = mset (ns_entries d (CNamespace ident) idx) \<and>
        getClientPolicies d ident idx = Inr c \<and> ps = all_policies g n c)"

definition tag_ok :: "deps \<Rightarrow> UObj list \<Rightarrow> string \<Rightarrow> string \<Rightarrow> bool" where
  "tag_ok d idx k h \<longleftrightarrow>
     (\<forall>ident. id_ok ident \<and> CacheKey ident = k \<longrightarrow>
        (\<exists>ps. built_from d idx ident ps \<and> h = ContentHash (SortSlice d) ps))"

definition bundle_tag_ok :: "deps \<Rightarrow> UObj list \<Rightarrow> string \<Rightarrow> string \<times> string \<Rightarrow> bool" where
  "bundle_tag_ok d idx k v \<longleftrightarrow>
     (\<forall>ident. id_ok ident \<and> CacheKey ident = k \<longrightarrow>
        (\<exists>ps tag. built_from d idx ident ps \<and> snd v = ContentHash (SortSlice d) ps \<and>
           Build (SortSlice d) (Archiver d) ps = Inr (fst v, tag)))"

definition policies_ok :: "deps \<Rightarrow> UObj list \<Rightarrow> PolicyCache \<Rightarrow> bool" where
  "policies_ok d idx c \<longleftrightarrow>
     (\<forall>ps h. GetGlobal c = Some (ps, h) \<longrightarrow> mset ps = mset (global_entries d idx)) \<and>
     (\<forall>ns ps h. GetNamespace ns c = Some (ps, h) \<longrightarrow> mset ps = mset (ns_entries d ns idx))"

definition coh :: "deps \<Rightarrow> service \<Rightarrow> bool" where
  "coh d s \<longleftrightarrow> etags.coherent (tag_ok d (Indexer s)) (ETags s) \<and>
     bundles.coherent (bundle_tag_ok d (Indexer s)) (Bundles s) \<and> policies_ok d (Indexer s) (PCache s)"

lemmas policy_cache_defs = GetGlobal_def SetGlobal_def InvalidateGlobal_def GetNamespace_def SetNamespace_def
  InvalidateNamespace_def

lemma tag_ok_own:
  "id_ok ident \<Longrightarrow> built_from d idx ident ps \<Longrightarrow> tag_ok d idx (CacheKey ident) (ContentHash (SortSlice d) ps)"
  using CacheKey_inj by (auto simp: tag_ok_def)

lemma gather_coh:
  assumes "coh d s" "gather d ident s = (r, s')"
  shows "coh d s'" "Indexer s' = Indexer s" "r = Inr ps \<Longrightarrow> built_from d (Indexer s) ident ps"
proof -
  obtain g s1 where g: "getGlobalPolicies d s = (g, s1)" by fastforce
  have s1: "coh d s1" "Indexer s1 = Indexer s" "mset g = mset (global_entries d (Indexer s))"
    using g assms(1)
    by (auto simp: getGlobalPolicies_def coh_def policies_ok_def policy_cache_defs global_entries_def Let_def
        split: option.splits)
  obtain n s2 where n: "getNamespacePolicies d (CNamespace ident) s1 = (n, s2)" by fastforce
  have s2: "coh d s2" "Indexer s2 = Indexer s" "mset n = mset (ns_entries d (CNamespace ident) (Indexer s))"
    using n s1(1,2)
    by (auto simp: getNamespacePolicies_def coh_def policies_ok_def policy_cache_defs ns_entries_def Let_def gomap_simps
        split: option.splits if_splits)
  show "coh d s'" "Indexer s' = Indexer s" "r = Inr ps \<Longrightarrow> built_from d (Indexer s) ident ps"
    using assms(2) g n s1 s2 by (auto simp: gather_def built_from_def split: sum.splits)
qed

lemma publish_coh:
  assumes "coh d s" "id_ok ident" "built_from d (Indexer s) ident ps" "publish d now ident ps s = (r, s')"
  shows "coh d s'" "Indexer s' = Indexer s"
    "r = Inr (data, h) \<Longrightarrow> h = ContentHash (SortSlice d) ps \<and> (\<exists>tag. Build (SortSlice d) (Archiver d) ps = Inr (data, tag))"
proof -
  let ?h = "ContentHash (SortSlice d) ps" and ?k = "CacheKey ident"
  have e: "etags.coherent (tag_ok d (Indexer s)) (ETag_Set ?k ?h (ETags s))"
    using assms(1) by (intro etags.coherent_put tag_ok_own assms(2,3)) (simp add: coh_def)
  have b: "bundles.coherent (bundle_tag_ok d (Indexer s)) (Bundle_Set now ?k data ?h (Bundles s))"
    if "Build (SortSlice d) (Archiver d) ps = Inr (data, tag)" for data tag
  proof -
    have "bundle_tag_ok d (Indexer s) ?k (data, ?h)"
      using that assms(2,3) CacheKey_inj by (auto simp: bundle_tag_ok_def)
    then show ?thesis
      using bundles.coherent_put [of "bundle_tag_ok d (Indexer s)" "Bundles s" ?k "(data, ?h)" now] assms(1)
      by (simp add: coh_def)
  qed
  show "coh d s'" "Indexer s' = Indexer s"
    "r = Inr (data, h) \<Longrightarrow> h = ?h \<and> (\<exists>tag. Build (SortSlice d) (Archiver d) ps = Inr (data, tag))"
    using assms(1,4) e b by (auto simp: publish_def coh_def Let_def split: sum.splits if_splits)
qed

lemma buildBundle_coh:
  assumes "coh d s" "id_ok ident" "buildBundle d now ident s = (r, s')"
  shows "coh d s'" "Indexer s' = Indexer s"
    "r = Inr (data, h) \<Longrightarrow> \<exists>ps tag. built_from d (Indexer s) ident ps \<and> h = ContentHash (SortSlice d) ps \<and>
       Build (SortSlice d) (Archiver d) ps = Inr (data, tag)"
proof -
  obtain r1 s1 where g: "gather d ident s = (r1, s1)" by fastforce
  note gc = gather_coh [OF assms(1) g]
  have "coh d s' \<and> Indexer s' = Indexer s \<and> (r = Inr (data, h) \<longrightarrow> (\<exists>ps tag. built_from d (Indexer s) ident ps \<and>
      h = ContentHash (SortSlice d) ps \<and> Build (SortSlice d) (Archiver d) ps = Inr (data, tag)))"
  proof (cases r1)
    case (Inl err)
    then show ?thesis using gc assms(3) g by (auto simp: buildBundle_def)
  next
    case (Inr ps)
    then have p: "publish d now ident ps s1 = (r, s')" and bf: "built_from d (Indexer s1) ident ps"
      using gc assms(3) g by (auto simp: buildBundle_def)
    from publish_coh [OF gc(1) assms(2) bf p] bf gc(2) show ?thesis by auto
  qed
  then show "coh d s'" "Indexer s' = Indexer s"
    "r = Inr (data, h) \<Longrightarrow> \<exists>ps tag. built_from d (Indexer s) ident ps \<and> h = ContentHash (SortSlice d) ps \<and>
       Build (SortSlice d) (Archiver d) ps = Inr (data, tag)" by blast+
qed

lemma GetBundle_coh:
  assumes "coh d s" "id_ok ident" "(r, s') \<in> set (GetBundle d now ctxErr running ident inm s)"
  shows "coh d s' \<and> Indexer s' = Indexer s \<and>
    (r = Inr (data, h) \<longrightarrow> (\<exists>ps. built_from d (Indexer s) ident ps \<and> h = ContentHash (SortSlice d) ps \<and>
       (case data of None \<Rightarrow> h = inm
        | Some b \<Rightarrow> \<exists>tag. Build (SortSlice d) (Archiver d) ps = Inr (b, tag))))"
proof (cases "inm \<noteq> [] \<and> ETag_Get (CacheKey ident) (ETags s) = Some inm")
  case True
  then have "tag_ok d (Indexer s) (CacheKey ident) inm"
    using assms(1) by (auto simp: coh_def etags.coherent_def ETag_Get_def)
  then show ?thesis using True assms by (auto simp: GetBundle_def tag_ok_def)
next
  case False
  obtain hit bs where g: "Bundle_Get now (CacheKey ident) (Bundles s) = (hit, bs)" by fastforce
  have cb: "bundles.coherent (bundle_tag_ok d (Indexer s)) (Bundles s)" using assms(1) by (simp add: coh_def)
  have c1: "coh d (s\<lparr>Bundles := bs\<rparr>)"
    using bundles.coherent_get(1) [OF cb g] assms(1) by (simp add: coh_def)
  show ?thesis
  proof (cases hit)
    case (Some v)
    have v: "bundle_tag_ok d (Indexer s) (CacheKey ident) v" by (rule bundles.coherent_get(2) [OF cb g Some])
    then obtain ps tag where ps: "built_from d (Indexer s) ident ps" "snd v = ContentHash (SortSlice d) ps"
      "Build (SortSlice d) (Archiver d) ps = Inr (fst v, tag)" using assms(2) by (auto simp: bundle_tag_ok_def)
    have "etags.coherent (tag_ok d (Indexer s)) (ETag_Set (CacheKey ident) (snd v) (ETags s))"
      unfolding ps(2) using assms(1) by (intro etags.coherent_put tag_ok_own assms(2) ps(1)) (simp add: coh_def)
    then show ?thesis
      using assms(3) False g Some c1 ps by (auto simp: GetBundle_def coh_def Let_def split: prod.splits)
  next
    case None
    obtain r2 s2 where b: "buildBundle d now ident (s\<lparr>Bundles := bs\<rparr>) = (r2, s2)" by fastforce
    note bc = buildBundle_coh [OF c1 assms(2) b]
    have "(r, s') = (case r2 of Inl err \<Rightarrow> (Inl err, s2) | Inr (x, y) \<Rightarrow> (Inr (Some x, y), s2)) \<or>
        (\<exists>err. (r, s') = (Inl err, s\<lparr>Bundles := bs\<rparr>))"
      using assms(3) False g None b by (auto simp: GetBundle_def Let_def split: sum.splits option.splits if_splits)
    then show ?thesis using bc c1 by (auto split: sum.splits)
  qed
qed

section \<open>Changes of the index\<close>

definition placed :: "deps \<Rightarrow> UObj \<Rightarrow> bool" where
  "placed d u \<longleftrightarrow> id_ok \<lparr>CNamespace = UNamespace u, CName = UName u\<rparr> \<and>
     (policy_scope u \<in> {''client'', ''namespace''} \<or> policy_scope u = ''global'' \<and> UNamespace u = ServiceNamespace d)"

definition idx_ok :: "deps \<Rightarrow> UObj list \<Rightarrow> bool" where
  "idx_ok d idx \<longleftrightarrow> distinct (map object_key idx) \<and> (\<forall>u \<in> set idx. placed d u)"

text \<open>Events that leave the scope of an object alone.\<close>

fun event_ok :: "deps \<Rightarrow> informer_event \<Rightarrow> UObj list \<Rightarrow> bool" where
  "event_ok d (AddFunc u) idx \<longleftrightarrow> placed d u \<and> object_key u \<notin> object_key ` set idx"
| "event_ok d (UpdateFunc old u) idx \<longleftrightarrow> old \<in> set idx \<and> placed d u \<and> object_key u = object_key old \<and>
     policy_scope u = policy_scope old"
| "event_ok d (DeleteFunc u) idx \<longleftrightarrow> u \<in> set idx"

fun prior_object :: "informer_event \<Rightarrow> UObj" where
  "prior_object (UpdateFunc old u) = old"
| "prior_object e = handler_object e"

definition apply_event :: "deps \<Rightarrow> informer_event \<Rightarrow> UObj list \<Rightarrow> service \<Rightarrow> service" where
  "apply_event d e idx s = invalidate d (handler_object e) (s\<lparr>Indexer := idx\<rparr>)"

lemma object_key_inj:
  "placed d u \<Longrightarrow> placed d v \<Longrightarrow> object_key u = object_key v \<Longrightarrow> UNamespace u = UNamespace v \<and> UName u = UName v"
  using CacheKey_inj [of "\<lparr>CNamespace = UNamespace u, CName = UName u\<rparr>" "\<lparr>CNamespace = UNamespace v, CName = UName v\<rparr>"]
  by (simp add: placed_def object_key_def CacheKey_def)

lemma mset_extract: "mset xs = mset ys \<Longrightarrow> mset (extractPolicies d xs) = mset (extractPolicies d ys)"
proof -
  have "mset (extractPolicies d zs) = \<Sum>\<^sub># (image_mset (\<lambda>u. mset (extract_one d u)) (mset zs))" for zs
    by (induction zs) (simp_all add: extractPolicies_def)
  then show "mset xs = mset ys \<Longrightarrow> ?thesis" by simp
qed

lemma stored_filter:
  assumes "event_ok d e idx" "mset idx' = mset (stored e idx)" "\<not> P (handler_object e)" "\<not> P (prior_object e)"
  shows "mset (filter P idx') = mset (filter P idx)"
proof -
  have "filter_mset P (mset (stored e idx)) = filter_mset P (mset idx)"
    using assms(1,3,4) by (cases e) (auto simp: filter_diff_mset)
  then show ?thesis using assms(2) by (metis mset_filter)
qed

lemma stored_keys:
  assumes "idx_ok d idx" "event_ok d e idx" "mset idx' = mset (stored e idx)"
  shows "idx_ok d idx'"
    "object_key u \<noteq> object_key (handler_object e) \<Longrightarrow> u \<in> set idx' \<longleftrightarrow> u \<in> set idx"
proof -
  have d: "distinct (map object_key idx)" using assms(1) by (simp add: idx_ok_def)
  have di: "distinct idx" using d by (simp add: distinct_map)
  have st: "set idx' = set (stored e idx)" using assms(3) mset_eq_setD by blast
  have inj: "inj_on object_key (set idx)" using d by (simp add: distinct_map)
  have ds: "distinct (map object_key (stored e idx))"
  proof (cases e)
    case (UpdateFunc old u)
    have "object_key old \<notin> object_key ` set (remove1 old idx)"
      using inj assms(2) di UpdateFunc by (auto simp: inj_on_def)
    then show ?thesis
      using UpdateFunc assms(2) d by (auto simp: distinct_map inj_on_def dest: notin_set_remove1)
  next
    case (DeleteFunc u)
    then show ?thesis using d by (auto simp: distinct_map inj_on_def dest: notin_set_remove1)
  qed (use assms(2) d in auto)
  have "mset (map object_key idx') = mset (map object_key (stored e idx))" using assms(3) by simp
  then have "distinct (map object_key idx')" using ds mset_eq_imp_distinct_iff by blast
  moreover have "\<forall>u \<in> set idx'. placed d u"
    using st assms(1,2) by (cases e) (auto simp: idx_ok_def dest: notin_set_remove1)
  ultimately show "idx_ok d idx'" by (simp add: idx_ok_def)
  show "object_key u \<noteq> object_key (handler_object e) \<Longrightarrow> u \<in> set idx' \<longleftrightarrow> u \<in> set idx"
    using st di assms(2) by (cases e) auto
qed

lemma GetPolicy_iff:
  assumes "idx_ok d idx"
  shows "GetPolicy name ns idx = Some u \<longleftrightarrow> u \<in> set idx \<and> object_key u = ns @ ''/'' @ name"
proof -
  have "find (\<lambda>u. object_key u = k) xs = Some u \<longleftrightarrow> u \<in> set xs \<and> object_key u = k" if "distinct (map object_key xs)" for xs k
    using that by (induction xs) auto
  then show ?thesis using assms by (simp add: GetPolicy_def idx_ok_def)
qed

lemma client_unchanged:
  assumes "idx_ok d idx" "event_ok d e idx" "mset idx' = mset (stored e idx)"
    and "CacheKey ident \<noteq> object_key (handler_object e)"
  shows "getClientPolicies d ident idx' = getClientPolicies d ident idx"
proof -
  note iff = GetPolicy_iff [OF assms(1)] GetPolicy_iff [OF stored_keys(1) [OF assms(1-3)]]
  have "GetPolicy (CName ident) (CNamespace ident) idx' = Some u \<longleftrightarrow> GetPolicy (CName ident) (CNamespace ident) idx = Some u" for u
    using iff stored_keys(2) [OF assms(1-3), of u] assms(4) by (auto simp: CacheKey_def)
  then have "GetPolicy (CName ident) (CNamespace ident) idx' = GetPolicy (CName ident) (CNamespace ident) idx"
    by (metis option.exhaust)
  then show ?thesis by (simp add: getClientPolicies_def)
qed

lemma tiers_unchanged:
  assumes "event_ok d e idx" "mset idx' = mset (stored e idx)"
  shows "policy_scope (handler_object e) \<noteq> ''global'' \<Longrightarrow> mset (global_entries d idx') = mset (global_entries d idx)"
    "policy_scope (handler_object e) \<noteq> ''namespace'' \<Longrightarrow> mset (ns_entries d ns idx') = mset (ns_entries d ns idx)"
proof -
  have old: "policy_scope (prior_object e) = policy_scope (handler_object e)"
    using assms(1) by (cases e) auto
  show "policy_scope (handler_object e) \<noteq> ''global'' \<Longrightarrow> mset (global_entries d idx') = mset (global_entries d idx)"
    using stored_filter [OF assms, of "\<lambda>u. policy_scope u = ''global'' \<and> UNamespace u = ServiceNamespace d"] old
    by (simp add: global_entries_def GetGlobalPolicies_def ByIndex_def filter_filter conj_commute mset_extract)
  show "policy_scope (handler_object e) \<noteq> ''namespace'' \<Longrightarrow> mset (ns_entries d ns idx') = mset (ns_entries d ns idx)"
    using stored_filter [OF assms, of "\<lambda>u. policy_scope u = ''namespace'' \<and> UNamespace u = ns"] old
    by (simp add: ns_entries_def GetNamespacePolicies_def ByIndex_def filter_filter conj_commute mset_extract)
qed

lemma ns_unchanged:
  assumes "idx_ok d idx" "event_ok d e idx" "mset idx' = mset (stored e idx)" "ns \<noteq> UNamespace (handler_object e)"
  shows "mset (ns_entries d ns idx') = mset (ns_entries d ns idx)"
proof -
  have "UNamespace (prior_object e) = UNamespace (handler_object e)"
    using assms(1,2) object_key_inj [of d "handler_object e" "prior_object e"] by (cases e) (auto simp: idx_ok_def)
  then show ?thesis
    using stored_filter [OF assms(2,3), of "\<lambda>u. policy_scope u = ''namespace'' \<and> UNamespace u = ns"] assms(4)
    by (simp add: ns_entries_def GetNamespacePolicies_def ByIndex_def filter_filter conj_commute mset_extract)
qed

lemma event_placed: "idx_ok d idx \<Longrightarrow> event_ok d e idx \<Longrightarrow> placed d (handler_object e)"
  by (cases e) (auto simp: idx_ok_def)

lemma apply_event_coh:
  assumes "coh d s" "idx_ok d (Indexer s)" "event_ok d e (Indexer s)" "mset idx' = mset (stored e (Indexer s))"
  shows "coh d (apply_event d e idx' s)" "Indexer (apply_event d e idx' s) = idx'"
proof -
  let ?u = "handler_object e"
  note tiers = tiers_unchanged [OF assms(3,4)]
  have ce: "etags.coherent (tag_ok d (Indexer s)) (ETags s)" and cb: "bundles.coherent (bundle_tag_ok d (Indexer s)) (Bundles s)"
    and cp: "policies_ok d (Indexer s) (PCache s)" using assms(1) by (auto simp: coh_def)
  consider (glob) "policy_scope ?u = ''global''" "UNamespace ?u = ServiceNamespace d"
    | (ns) "policy_scope ?u = ''namespace''" | (client) "policy_scope ?u = ''client''"
    using event_placed [OF assms(2,3)] by (auto simp: placed_def)
  then have "coh d (apply_event d e idx' s) \<and> Indexer (apply_event d e idx' s) = idx'"
  proof cases
    case glob
    then have "policies_ok d idx' (InvalidateGlobal (PCache s))"
      using cp tiers(2) by (auto simp: policies_ok_def policy_cache_defs)
    then show ?thesis
      using glob etags.coherent_drop_all [OF ce] bundles.coherent_drop_all [OF cb]
      by (simp add: apply_event_def invalidate_def coh_def)
  next
    case ns
    then have "policies_ok d idx' (InvalidateNamespace (UNamespace ?u) (PCache s))"
      using cp tiers(1) ns_unchanged [OF assms(2-4)]
      by (auto simp: policies_ok_def policy_cache_defs gomap_simps split: if_splits)
    then show ?thesis
      using ns etags.coherent_drop_all [OF ce] bundles.coherent_drop_all [OF cb]
      by (simp add: apply_event_def invalidate_def coh_def)
  next
    case client
    have bf: "built_from d (Indexer s) ident ps \<Longrightarrow> built_from d idx' ident ps" if "CacheKey ident \<noteq> object_key ?u" for ident ps
      using client_unchanged [OF assms(2-4) that] tiers client by (simp add: built_from_def)
    have "policies_ok d idx' (PCache s)" using cp tiers client by (simp add: policies_ok_def)
    moreover have "etags.coherent (tag_ok d idx') (ETag_Invalidate (object_key ?u) (ETags s))"
      by (rule etags.coherent_drop_key [OF ce]) (use bf in \<open>fastforce simp: tag_ok_def\<close>)
    moreover have "bundles.coherent (bundle_tag_ok d idx') (Bundle_Invalidate (object_key ?u) (Bundles s))"
      by (rule bundles.coherent_drop_key [OF cb]) (use bf in \<open>fastforce simp: bundle_tag_ok_def\<close>)
    ultimately show ?thesis using client by (simp add: apply_event_def invalidate_def coh_def)
  qed
  then show "coh d (apply_event d e idx' s)" "Indexer (apply_event d e idx' s) = idx'" by simp_all
qed

lemma bundle_lookup_new: "bundle_lookup (NewBundleCache n t) k = None"
  by (simp add: bundle_lookup_def NewBundleCache_def)

lemma coh_new: "coh d (NewService idx)"
proof -
  have "bundles.coherent (bundle_tag_ok d idx) (NewBundleCache 100 (1 * Minute))"
    using bundle_ok_new [of 100 "1 * Minute"] bundle_lookup_new by (simp add: bundles.coherent_def)
  then show ?thesis
    by (simp add: coh_def NewService_def NewETagCache_def NewPolicyCache_def etags.coherent_def etag_ok_def
        policies_ok_def policy_cache_defs)
qed

inductive bs_reachable :: "deps \<Rightarrow> service \<Rightarrow> bool" for d where
  init: "idx_ok d idx \<Longrightarrow> bs_reachable d (NewService idx)"
| event: "bs_reachable d s \<Longrightarrow> event_ok d e (Indexer s) \<Longrightarrow> mset idx' = mset (stored e (Indexer s)) \<Longrightarrow>
     bs_reachable d (apply_event d e idx' s)"
| request: "bs_reachable d s \<Longrightarrow> id_ok ident \<Longrightarrow>
     (r, s') \<in> set (GetBundle d now ctxErr running ident inm s) \<Longrightarrow> bs_reachable d s'"

lemma bs_invariant: "bs_reachable d s \<Longrightarrow> coh d s \<and> idx_ok d (Indexer s)"
proof (induction rule: bs_reachable.induct)
  case (init idx)
  then show ?case using coh_new by (simp add: NewService_def)
next
  case (event s e idx')
  then show ?case using apply_event_coh stored_keys(1) by metis
next
  case (request s ident r s' now ctxErr running inm)
  then show ?case using GetBundle_coh [of d s ident r s'] by metis
qed

section \<open>Properties\<close>

definition demo_deps :: deps where
  "demo_deps = \<lparr>FromUnstructured = \<lambda>u. Inr \<lparr>SpecScope = UScope u, SpecClientID = [],
       SpecPolicies = [\<lparr>PPath = UName u, PContent = UContent u\<rparr>]\<rparr>,
     SortSlice = sort_key Path, Archiver = demo_archiver, ServiceNamespace = ''sys''\<rparr>"

lemma demo_deps_sel: "SortSlice demo_deps = sort_key Path" "Archiver demo_deps = demo_archiver"
  by (simp_all add: demo_deps_def)

definition demo_obj :: "string \<Rightarrow> string \<Rightarrow> string \<Rightarrow> string \<Rightarrow> UObj" where
  "demo_obj ns name scope body = \<lparr>UNamespace = ns, UName = name, UScope = scope, UContent = body\<rparr>"

definition demo_id :: ClientIdentity where
  "demo_id = \<lparr>CNamespace = ''team'', CName = ''agent''\<rparr>"

lemmas bs_eval = demo_deps_def demo_obj_def demo_id_def NewService_def NewETagCache_def NewPolicyCache_def
  NewBundleCache_def GetBundle_def buildBundle_def gather_def publish_def getGlobalPolicies_def
  getNamespacePolicies_def getClientPolicies_def policy_cache_defs GetGlobalPolicies_def GetNamespacePolicies_def
  ByIndex_def policy_scope_def GetPolicy_def object_key_def CacheKey_def ETag_Get_def ETag_Set_def Bundle_Get_def
  Bundle_Set_def extractPolicies_def extract_one_def AuthorizationPolicyFromUnstructured_def all_policies_def
  tier_policy_def Let_def


lemma demo_tiers_valid: "validatePath ''authbridge/client/agent'' = None"
  by code_simp

lemma demo_served:
  "\<exists>b h s'. (Inr (Some b, h), s') \<in>
     set (GetBundle demo_deps 0 None 0 demo_id [] (NewService [demo_obj ''team'' ''agent'' [] ''x'']))"
proof -
  let ?ps = "[\<lparr>Path = ''authbridge/client/agent'', Content = ''x''\<rparr>]"
  let ?s = "NewService [demo_obj ''team'' ''agent'' [] ''x'']"
  obtain s1 where g: "gather demo_deps demo_id ?s = (Inr ?ps, s1)" by (simp add: bs_eval)
  have "Build (sort_key Path) demo_archiver ?ps =
      Inr (''x'' @ manifest_json (sha_tag []), sha_tag (''x'' @ manifest_json (sha_tag [])))"
    using demo_tiers_valid by (simp add: Build_def demo_archiver_def Let_def policy_entry_def manifest_entry_def)
  moreover have "length (''x'' @ manifest_json (sha_tag [])) \<le> maxBundleSize"
    by (simp add: manifest_json_def sha_tag_def hex_encode_length Sum256_length maxBundleSize_def)
  ultimately have p: "\<exists>b h s'. publish demo_deps 0 demo_id ?ps s = (Inr (b, h), s')" for s
    by (auto simp: publish_def demo_deps_def Let_def)
  obtain b h s' where "publish demo_deps 0 demo_id ?ps s1 = (Inr (b, h), s')" using p by blast
  then have b: "buildBundle demo_deps 0 demo_id ?s = (Inr (b, h), s')" by (simp add: buildBundle_def g)
  have "Bundle_Get 0 (CacheKey demo_id) (Bundles ?s) = (None, Bundles ?s)"
    by (simp add: Bundle_Get_def NewBundleCache_def NewService_def)
  then show ?thesis using b
    by (intro exI [of _ b] exI [of _ h] exI [of _ s']) (simp add: GetBundle_def maxConcurrentBuilds_def)
qed






text \<open>
   The client tier ignores scopes.  \<^verbatim>\<open>GetPolicy\<close> finds an object by name whatever its scope,
  so an object of global scope outside the service's namespace, which the global tier
  rejects, is served as client policy to the client of that name.
\<close>

theorem misplaced_global_served:
  assumes "idx_ok d idx" "object_key u = CacheKey ident" "u \<notin> set idx" "object_key u \<notin> object_key ` set idx"
    and "policy_scope u = ''global''" "UNamespace u \<noteq> ServiceNamespace d" "FromUnstructured d u = Inr ap"
  shows "getClientPolicies d ident (u # idx) = Inr (SpecPolicies ap) \<and>
    global_entries d (u # idx) = global_entries d idx \<and> invalidate d u s = s"
  using assms
  by (simp add: getClientPolicies_def GetPolicy_def CacheKey_def AuthorizationPolicyFromUnstructured_def
      global_entries_def GetGlobalPolicies_def ByIndex_def invalidate_def)

theorem misplaced_global_served_witness:
  "getClientPolicies demo_deps demo_id [demo_obj ''team'' ''agent'' ''global'' ''x''] =
     Inr [\<lparr>PPath = ''agent'', PContent = ''x''\<rparr>] \<and>
   global_entries demo_deps [demo_obj ''team'' ''agent'' ''global'' ''x''] = global_entries demo_deps []"
  using misplaced_global_served [of demo_deps "[]" "demo_obj ''team'' ''agent'' ''global'' ''x''" demo_id
      "\<lparr>SpecScope = ''global'', SpecClientID = [], SpecPolicies = [\<lparr>PPath = ''agent'', PContent = ''x''\<rparr>]\<rparr>"
      "NewService []"]
  by (simp add: idx_ok_def demo_obj_def demo_id_def demo_deps_def object_key_def CacheKey_def policy_scope_def)

end
