(* ===== verification/WH_Config.thy ===== *)
theory WH_Config
  imports Go_Url Go_Strings
begin

text \<open>
  Configuration of the admission webhook: the platform configuration with its compiled
  defaults and validation (\<^verbatim>\<open>internal/webhook/config/types.go\<close>, \<^verbatim>\<open>defaults.go\<close>), the feature
  gates, and the two hot-reloading loaders with their debounced file watchers.  Both loaders
  meet one contract, the locale \<open>hot_reload\<close>.  Structs are values, so \<^verbatim>\<open>DeepCopy\<close> is the
  identity.  The YAML decoder, which overlays a document onto a struct, is an argument.
\<close>

section \<open>Types\<close>

text \<open>Quantities such as \<^verbatim>\<open>50m\<close> are kept in their canonical text.\<close>

record ResourceRequirements =
  Requests :: "(string, string) gomap"
  Limits :: "(string, string) gomap"

record ImageConfig =
  ImgEnvoyProxy :: string
  ImgAuthBridge :: string
  ImgAuthBridgeLite :: string
  ImgProxyInit :: string
  PullPolicy :: string

record ProxyConfig =
  Port :: int
  UID :: int
  InboundProxyPort :: int
  AdminPort :: int
  TransparentPort :: int
  IptablesCmd :: string
  TransparentInboundPort :: int
  AllowedInboundInterception :: "string list"
  AllowedEgressEnforcement :: "string list"

record ResourcesConfig =
  ResEnvoyProxy :: ResourceRequirements
  ResProxyInit :: ResourceRequirements
  ResAuthBridge :: ResourceRequirements

record TokenExchangeDefaults =
  DefTokenURL :: string
  DefaultAudience :: string
  DefaultScopes :: "string list"

record SpiffeConfig =
  TrustDomain :: string
  SocketPath :: string
  HelperConfig :: string

record ObservabilityConfig =
  LogLevel :: string
  EnableMetrics :: bool

record IBACConfig =
  JudgeEndpoint :: string
  JudgeModel :: string
  TimeoutMS :: int
  AgentLLMHost :: string
  JudgeBearer :: string

record PlatformConfig =
  Images :: ImageConfig
  Proxy :: ProxyConfig
  Resources :: ResourcesConfig
  TokenExchange :: TokenExchangeDefaults
  Spiffe :: SpiffeConfig
  Observability :: ObservabilityConfig
  IBAC :: IBACConfig

section \<open>Compiled defaults\<close>

definition DefaultSpiffeHelperConfig :: string where
  \<open>DefaultSpiffeHelperConfig = concat (map (\<lambda>l. l @ [CHR 0x0A])
    [''agent_address = "/spiffe-workload-api/spire-agent.sock"'',
     ''cmd = ""'',
     ''cmd_args = ""'',
     ''svid_file_name = "/opt/svid.pem"'',
     ''svid_key_file_name = "/opt/svid_key.pem"'',
     ''svid_bundle_file_name = "/opt/svid_bundle.pem"'',
     ''cert_file_mode = 0644'',
     ''key_file_mode = 0640'',
     ''jwt_svids = [{jwt_audience="http://keycloak.localtest.me:8080/realms/rossoctl", jwt_svid_file_name="/opt/jwt_svid.token"}]'',
     ''jwt_svid_file_mode = 0644'',
     ''include_federated_domains = true''])\<close>

definition requirements :: "string \<Rightarrow> string \<Rightarrow> string \<Rightarrow> string \<Rightarrow> ResourceRequirements" where
  "requirements rcpu rmem lcpu lmem =
     \<lparr>Requests = [(''cpu'', rcpu), (''memory'', rmem)], Limits = [(''cpu'', lcpu), (''memory'', lmem)]\<rparr>"

definition CompiledDefaults :: PlatformConfig where
  "CompiledDefaults =
     \<lparr>Images =
        \<lparr>ImgEnvoyProxy = ''ghcr.io/rossoctl/cortex/authbridge-envoy:v0.7.0-alpha.3'',
         ImgAuthBridge = ''ghcr.io/rossoctl/cortex/authbridge:v0.7.0-alpha.3'',
         ImgAuthBridgeLite = ''ghcr.io/rossoctl/cortex/authbridge-lite:v0.7.0-alpha.3'',
         ImgProxyInit = ''ghcr.io/rossoctl/cortex/proxy-init:v0.7.0-alpha.3'',
         PullPolicy = ''IfNotPresent''\<rparr>,
      Proxy =
        \<lparr>Port = 15123, UID = 1337, InboundProxyPort = 15124, AdminPort = 9901, TransparentPort = 8082,
         IptablesCmd = [], TransparentInboundPort = 8083,
         AllowedInboundInterception = [''reverse-proxy'', ''transparent''],
         AllowedEgressEnforcement = [''enforce-redirect'', ''none'']\<rparr>,
      Resources =
        \<lparr>ResEnvoyProxy = requirements ''50m'' ''64Mi'' ''200m'' ''256Mi'',
         ResProxyInit = requirements ''10m'' ''10Mi'' ''10m'' ''10Mi'',
         ResAuthBridge = requirements ''100m'' ''128Mi'' ''300m'' ''384Mi''\<rparr>,
      TokenExchange = \<lparr>DefTokenURL = [], DefaultAudience = [], DefaultScopes = [''openid'']\<rparr>,
      Spiffe =
        \<lparr>TrustDomain = ''cluster.local'', SocketPath = ''unix:///spiffe-workload-api/spire-agent.sock'',
         HelperConfig = DefaultSpiffeHelperConfig\<rparr>,
      Observability = \<lparr>LogLevel = ''info'', EnableMetrics = True\<rparr>,
      IBAC =
        \<lparr>JudgeEndpoint = [], JudgeModel = [], TimeoutMS = 15000, AgentLLMHost = [], JudgeBearer = []\<rparr>\<rparr>"

section \<open>Validation\<close>

definition port_in_range :: "int \<Rightarrow> bool" where
  "port_in_range p \<longleftrightarrow> 1024 \<le> p \<and> p \<le> 65535"

definition bad_port :: "string \<Rightarrow> goerr option" where
  "bad_port f = Some (Errorf [Lit ''proxy.'', Lit f, Lit '' must be between 1024 and 65535''])"

text \<open>The first entry of a list that is neither of two allowed values.\<close>

definition first_unknown :: "string \<Rightarrow> string \<Rightarrow> string list \<Rightarrow> string option" where
  "first_unknown a b ms = find (\<lambda>m. m \<noteq> a \<and> m \<noteq> b) ms"

definition em_dash :: string where
  "em_dash = [CHR 0xE2, CHR 0x80, CHR 0x94]"

definition validate_ports :: "ProxyConfig \<Rightarrow> goerr option" where
  \<open>validate_ports p =
     (if \<not> port_in_range (Port p) then bad_port ''port''
      else if \<not> port_in_range (InboundProxyPort p) then bad_port ''inboundProxyPort''
      else if \<not> port_in_range (AdminPort p) then bad_port ''adminPort''
      else if \<not> port_in_range (TransparentPort p) then bad_port ''transparentPort''
      else if \<not> port_in_range (TransparentInboundPort p) then bad_port ''transparentInboundPort''
      else if TransparentInboundPort p = TransparentPort p then
        Some (Errorf [Lit ''proxy.transparentInboundPort ('', Lit (itoa (TransparentInboundPort p)),
          Lit '') must differ from proxy.transparentPort '', Lit em_dash,
          Lit '' they are distinct listeners in the same container''])
      else if UID p < 1 then
        Some (Errorf [Lit ''proxy.uid must be >= 1 (got '', Lit (itoa (UID p)),
          Lit ''): the proxy must not run as root and the egress-enforcement exemption keys on this UID''])
      else None)\<close>

definition validate_modes :: "ProxyConfig \<Rightarrow> goerr option" where
  \<open>validate_modes p =
     (if IptablesCmd p \<notin> {[], ''iptables'', ''iptables-nft'', ''iptables-legacy''} then
        Some (Errorf [Lit ''proxy.iptablesCmd '', Lit (quote (IptablesCmd p)),
          Lit '' is not a recognized backend (want one of: "" (auto-detect), iptables, iptables-nft, iptables-legacy)''])
      else if AllowedInboundInterception p = [] then
        Some (Errorf [
          Lit ''proxy.allowedInboundInterception must not be empty (set ["reverse-proxy"] to forbid transparent inbound, ["transparent"] to require it, or both to allow workload choice)''])
      else case first_unknown ''reverse-proxy'' ''transparent'' (AllowedInboundInterception p) of
        Some m \<Rightarrow>
          Some (Errorf [Lit ''proxy.allowedInboundInterception contains invalid value '', Lit (quote m),
            Lit '' (allowed: reverse-proxy, transparent)''])
      | None \<Rightarrow>
          if AllowedEgressEnforcement p = [] then
            Some (Errorf [
              Lit ''proxy.allowedEgressEnforcement must not be empty (set ["enforce-redirect"] to require enforcement, ["none"] to disable it, or both to allow workload choice)''])
          else case first_unknown ''enforce-redirect'' ''none'' (AllowedEgressEnforcement p) of
            Some m \<Rightarrow>
              Some (Errorf [Lit ''proxy.allowedEgressEnforcement contains invalid value '', Lit (quote m),
                Lit '' (allowed: enforce-redirect, none)''])
          | None \<Rightarrow> None)\<close>

definition validate_images :: "ImageConfig \<Rightarrow> goerr option" where
  "validate_images i =
     (if ImgEnvoyProxy i = [] then Some (Errorf [Lit ''images.envoyProxy is required''])
      else if ImgAuthBridge i = [] then Some (Errorf [Lit ''images.authbridge is required''])
      else if ImgAuthBridgeLite i = [] then Some (Errorf [Lit ''images.authbridgeLite is required''])
      else if ImgProxyInit i = [] then Some (Errorf [Lit ''images.proxyInit is required''])
      else None)"

definition Platform_Validate :: "PlatformConfig \<Rightarrow> goerr option" where
  "Platform_Validate c =
     (case validate_ports (Proxy c) of
        Some e \<Rightarrow> Some e
      | None \<Rightarrow> (case validate_modes (Proxy c) of Some e \<Rightarrow> Some e | None \<Rightarrow> validate_images (Images c)))"

section \<open>Feature gates\<close>

record FeatureGates =
  GlobalEnabled :: bool
  EnvoyProxy :: bool
  InjectTools :: bool
  PerWorkloadConfigResolution :: bool
  SkillDiscovery :: bool

definition DefaultFeatureGates :: FeatureGates where
  "DefaultFeatureGates =
     \<lparr>GlobalEnabled = True, EnvoyProxy = True, InjectTools = False,
      PerWorkloadConfigResolution = False, SkillDiscovery = False\<rparr>"

definition zero_gates :: FeatureGates where
  "zero_gates =
     \<lparr>GlobalEnabled = False, EnvoyProxy = False, InjectTools = False,
      PerWorkloadConfigResolution = False, SkillDiscovery = False\<rparr>"

section \<open>Loaders\<close>

text \<open>
  A loader holds the current snapshot and the registered callbacks.  A callback is named by
  a number; the calls made are recorded in order with their argument.
\<close>

datatype file_read = NotExist | ReadErr goerr | ReadOk string

record 'c loader =
  current :: 'c
  onChange :: "nat list"
  calls :: "(nat \<times> 'c) list"

definition new_loader :: "'c \<Rightarrow> 'c loader" where
  "new_loader c = \<lparr>current = c, onChange = [], calls = []\<rparr>"

definition publish :: "'c \<Rightarrow> 'c loader \<Rightarrow> 'c loader" where
  "publish c l = l\<lparr>current := c, calls := calls l @ map (\<lambda>cb. (cb, c)) (onChange l)\<rparr>"

definition OnChange :: "nat \<Rightarrow> 'c loader \<Rightarrow> 'c loader" where
  "OnChange cb l = l\<lparr>onChange := onChange l @ [cb]\<rparr>"

definition NewConfigLoader :: "PlatformConfig loader" where
  "NewConfigLoader = new_loader CompiledDefaults"

definition Config_Load ::
    "(string \<Rightarrow> PlatformConfig \<Rightarrow> goerr + PlatformConfig) \<Rightarrow> file_read \<Rightarrow> PlatformConfig loader \<Rightarrow>
     goerr option \<times> PlatformConfig loader" where
  "Config_Load unmarshal r l =
     (case r of
        NotExist \<Rightarrow> (None, publish CompiledDefaults l)
      | ReadErr e \<Rightarrow> (Some e, l)
      | ReadOk data \<Rightarrow>
          (case unmarshal data CompiledDefaults of
             Inl e \<Rightarrow> (Some e, l)
           | Inr c \<Rightarrow>
               (case Platform_Validate c of
                  Some e \<Rightarrow> (Some e, l)
                | None \<Rightarrow> (None, publish c l))))"

definition NewFeatureGateLoader :: "FeatureGates loader" where
  "NewFeatureGateLoader = new_loader DefaultFeatureGates"

definition Gates_Load ::
    "string \<Rightarrow> (string \<Rightarrow> FeatureGates \<Rightarrow> goerr + FeatureGates) \<Rightarrow> file_read \<Rightarrow> FeatureGates loader \<Rightarrow>
     goerr option \<times> FeatureGates loader" where
  "Gates_Load path unmarshal r l =
     (case r of
        NotExist \<Rightarrow> (None, publish DefaultFeatureGates l)
      | ReadErr e \<Rightarrow> (Some (Errorf [Lit ''reading feature gates file '', Lit path, Lit '': '', Wrap e]), l)
      | ReadOk data \<Rightarrow>
          (case unmarshal data DefaultFeatureGates of
             Inl e \<Rightarrow> (Some (Errorf [Lit ''parsing feature gates file '', Lit path, Lit '': '', Wrap e]), l)
           | Inr g \<Rightarrow> (None, publish (if g = zero_gates then DefaultFeatureGates else g) l)))"

section \<open>Watching\<close>

text \<open>
  The watcher goroutine reacts to file events by arming a one-second timer in place of the
  previous one; when a timer fires, its function runs \<^verbatim>\<open>Load\<close> in a goroutine of its own.
  Stopping a timer does not recall a function that has already started, hence \<open>started\<close>
  counts the loads that are under way.  What a load reads is decided when it runs.
\<close>

datatype wevent =
    FsEvent bool
  | WatchError
  | TimerFires
  | RunLoad file_read
  | CtxDone
  | Register nat
  | DirectLoad file_read

record 'c watcher =
  wloader :: "'c loader"
  timer :: "gotime option"
  started :: nat
  watching :: bool

text \<open>
  Watching starts unless the directory is missing, which is not an error, or the watcher
  cannot be created for it.
\<close>

definition Watch :: "bool \<Rightarrow> goerr option \<Rightarrow> 'c loader \<Rightarrow> goerr option \<times> 'c watcher" where
  "Watch missing err l =
     (if missing then (None, \<lparr>wloader = l, timer = None, started = 0, watching = False\<rparr>)
      else (err, \<lparr>wloader = l, timer = None, started = 0, watching = (err = None)\<rparr>))"

fun watch_step ::
    "(file_read \<Rightarrow> 'c loader \<Rightarrow> goerr option \<times> 'c loader) \<Rightarrow> gotime \<Rightarrow> wevent \<Rightarrow> 'c watcher \<Rightarrow> 'c watcher" where
  "watch_step load now (FsEvent relevant) w =
     (if watching w \<and> relevant then w\<lparr>timer := Some (now + 1 * Second)\<rparr> else w)"
| "watch_step load now WatchError w = w"
| "watch_step load now TimerFires w =
     (case timer w of
        Some d \<Rightarrow> if d \<le> now then w\<lparr>timer := None, started := Suc (started w)\<rparr> else w
      | None \<Rightarrow> w)"
| "watch_step load now (RunLoad r) w =
     (if started w > 0 then w\<lparr>started := started w - 1, wloader := snd (load r (wloader w))\<rparr> else w)"
| "watch_step load now CtxDone w =
     (if watching w then w\<lparr>watching := False, timer := None\<rparr> else w)"
| "watch_step load now (Register cb) w = w\<lparr>wloader := OnChange cb (wloader w)\<rparr>"
| "watch_step load now (DirectLoad r) w = w\<lparr>wloader := snd (load r (wloader w))\<rparr>"

definition watch_run ::
    "(file_read \<Rightarrow> 'c loader \<Rightarrow> goerr option \<times> 'c loader) \<Rightarrow> (gotime \<times> wevent) list \<Rightarrow> 'c watcher \<Rightarrow> 'c watcher" where
  "watch_run load evs w = fold (\<lambda>(now, e). watch_step load now e) evs w"

text \<open>
  The contract of a loader: what it publishes satisfies a predicate, a failed load changes
  nothing, and a load never touches the registered callbacks.
\<close>

locale hot_reload =
  fixes load :: "file_read \<Rightarrow> 'c loader \<Rightarrow> goerr option \<times> 'c loader"
    and good :: "'c \<Rightarrow> bool"
    and init :: 'c
  assumes init_good: "good init"
    and load_ok: "load r l = (None, l') \<Longrightarrow> \<exists>c. good c \<and> l' = publish c l"
    and load_err: "load r l = (Some e, l') \<Longrightarrow> l' = l"
begin

definition sane :: "'c loader \<Rightarrow> bool" where
  "sane l \<longleftrightarrow> good (current l) \<and> (\<forall>(cb, c) \<in> set (calls l). good c)"

lemma sane_load:
  assumes "sane l" shows "sane (snd (load r l))"
proof (cases "load r l")
  case (Pair e l')
  show ?thesis
  proof (cases e)
    case None
    then obtain c where "good c" "l' = publish c l" using load_ok Pair by blast
    then show ?thesis using assms Pair by (auto simp: sane_def publish_def)
  next
    case (Some err)
    then have "l' = l" using load_err Pair by blast
    then show ?thesis using Pair assms by simp
  qed
qed

lemma sane_step: "sane (wloader w) \<Longrightarrow> sane (wloader (watch_step load now e w))"
proof (cases e)
  case (Register cb)
  then show ?thesis if "sane (wloader w)" using that by (simp add: sane_def OnChange_def)
qed (auto simp: sane_load split: option.splits)

lemma sane_run: "sane (wloader w) \<Longrightarrow> sane (wloader (watch_run load evs w))"
  unfolding watch_run_def by (induction evs arbitrary: w) (auto simp: sane_step split: prod.splits)

lemma run_sane: "sane (wloader (watch_run load evs (snd (Watch missing err (new_loader init)))))"
  by (rule sane_run) (simp add: sane_def Watch_def new_loader_def init_good)

end

lemma CompiledDefaults_valid: "Platform_Validate CompiledDefaults = None"
  by (simp add: Platform_Validate_def validate_ports_def validate_modes_def validate_images_def
      CompiledDefaults_def port_in_range_def first_unknown_def)

interpretation cfgl: hot_reload "Config_Load unmarshal" "\<lambda>c. Platform_Validate c = None" CompiledDefaults
  for unmarshal
proof unfold_locales
  show "\<exists>c. Platform_Validate c = None \<and> l' = publish c l" if "Config_Load unmarshal r l = (None, l')" for r l l'
    using that CompiledDefaults_valid
    by (auto simp: Config_Load_def split: file_read.splits sum.splits option.splits)
  show "l' = l" if "Config_Load unmarshal r l = (Some e, l')" for r l e l'
    using that by (auto simp: Config_Load_def split: file_read.splits sum.splits option.splits)
qed (rule CompiledDefaults_valid)

interpretation gatel: hot_reload "Gates_Load path unmarshal" "\<lambda>g. g \<noteq> zero_gates" DefaultFeatureGates
  for path unmarshal
proof unfold_locales
  have d: "DefaultFeatureGates \<noteq> zero_gates" by (simp add: DefaultFeatureGates_def zero_gates_def)
  show "DefaultFeatureGates \<noteq> zero_gates" by (rule d)
  show "\<exists>c. c \<noteq> zero_gates \<and> l' = publish c l" if "Gates_Load path unmarshal r l = (None, l')" for r l l'
    using that d by (auto simp: Gates_Load_def split: file_read.splits sum.splits if_splits)
  show "l' = l" if "Gates_Load path unmarshal r l = (Some e, l')" for r l e l'
    using that by (auto simp: Gates_Load_def split: file_read.splits sum.splits if_splits)
qed

text \<open>What a valid configuration guarantees to the injector.\<close>

lemma valid_allowed:
  assumes "Platform_Validate c = None"
  shows "AllowedEgressEnforcement (Proxy c) \<noteq> []" "AllowedInboundInterception (Proxy c) \<noteq> []"
    "set (AllowedEgressEnforcement (Proxy c)) \<subseteq> {''enforce-redirect'', ''none''}"
    "set (AllowedInboundInterception (Proxy c)) \<subseteq> {''reverse-proxy'', ''transparent''}"
  using assms
  by (auto simp: Platform_Validate_def validate_modes_def first_unknown_def find_None_iff
      split: option.splits if_splits)

lemma valid_ports:
  assumes "Platform_Validate c = None"
  shows "port_in_range (TransparentPort (Proxy c))" "port_in_range (TransparentInboundPort (Proxy c))"
    "TransparentPort (Proxy c) \<noteq> TransparentInboundPort (Proxy c)" "UID (Proxy c) \<ge> 1"
  using assms
  by (auto simp: Platform_Validate_def validate_ports_def bad_port_def split: option.splits if_splits)

text \<open>
  C14. Whatever files the webhook reads, in whatever order file events, timers, reloads and
  registrations happen: the platform configuration in use, and every configuration handed to
  a callback, passes validation; the feature gates in use are never all off.  A reload that
  fails to read, parse or validate keeps the previous snapshot.
\<close>

theorem reloads_keep_valid:
  "(let l = wloader (watch_run (Config_Load unm) evs (snd (Watch missing err NewConfigLoader))) in
      Platform_Validate (current l) = None \<and>
      list_all (\<lambda>(cb, c). Platform_Validate c = None) (calls l) \<and>
      (fst (Config_Load unm r l) = None \<or> snd (Config_Load unm r l) = l)) \<and>
   (let l = wloader (watch_run (Gates_Load path gunm) evs (snd (Watch missing err NewFeatureGateLoader))) in
      current l \<noteq> zero_gates \<and>
      (fst (Gates_Load path gunm r l) = None \<or> snd (Gates_Load path gunm r l) = l))"
proof -
  have keep: "fst x = None \<or> snd x = l" if "\<And>e l'. x = (Some e, l') \<Longrightarrow> l' = l" for x and l :: "'x loader"
    using that by (cases x; cases "fst x") auto
  show ?thesis
    using cfgl.run_sane [of unm evs missing err] gatel.run_sane [of path gunm evs missing err]
    by (auto simp: Let_def NewConfigLoader_def NewFeatureGateLoader_def cfgl.sane_def gatel.sane_def
        list_all_iff intro!: keep cfgl.load_err gatel.load_err)
qed

end
