(* ===== verification/WH_Resolve.thy ===== *)
theory WH_Resolve
  imports WH_Config
begin

text \<open>
  Per-workload configuration: the values read from the ConfigMaps of the workload's
  namespace, the modes extracted from \<^verbatim>\<open>authbridge-runtime-config\<close>, their resolution with
  defaults and the platform's allow lists (\<^verbatim>\<open>namespace_config.go\<close>, \<^verbatim>\<open>resolved_config.go\<close> and
  the resolution sections of \<^verbatim>\<open>InjectAuthBridge\<close>), and the injection decision
  (\<^verbatim>\<open>precedence.go\<close>).  The YAML library and the API server are arguments.
\<close>

section \<open>Third-party libraries\<close>

text \<open>
  What the sources use of the YAML library: decoding a document into a struct whose only
  field is a string, found under a path of keys (the empty string if absent); decoding into
  a map, where a document without content leaves a nil map, \<^const>\<open>None\<close>; and encoding.
\<close>

record yaml =
  y_string :: "string list \<Rightarrow> string \<Rightarrow> goerr + string"
  y_map :: "string \<Rightarrow> goerr + (string, json) gomap option"
  y_marshal :: "json \<Rightarrow> goerr + string"

text \<open>A missing key of a map of strings reads as the empty string.\<close>

definition str_of :: "(string, string) gomap \<Rightarrow> string \<Rightarrow> string" where
  "str_of m k = (case map_of m k of Some v \<Rightarrow> v | None \<Rightarrow> [])"

section \<open>Namespace configuration\<close>

record NamespaceConfig =
  KeycloakURL :: string
  KeycloakRealm :: string
  PlatformClientIDs :: string
  TokenURL :: string
  Issuer :: string
  ExpectedAudience :: string
  TargetAudience :: string
  TargetScopes :: string
  DefaultOutboundPolicy :: string
  ClientAuthType :: string
  SpiffeIdpAlias :: string
  JWTAudience :: string
  AuthproxyRoutesYAML :: string
  AuthBridgeRuntimeYAML :: string

definition empty_ns :: NamespaceConfig where
  "empty_ns =
     \<lparr>KeycloakURL = [], KeycloakRealm = [], PlatformClientIDs = [], TokenURL = [], Issuer = [],
      ExpectedAudience = [], TargetAudience = [], TargetScopes = [], DefaultOutboundPolicy = [],
      ClientAuthType = [], SpiffeIdpAlias = [], JWTAudience = [], AuthproxyRoutesYAML = [],
      AuthBridgeRuntimeYAML = []\<rparr>"

text \<open>\<open>get\<close> reads the data of a ConfigMap of the namespace by its name.\<close>

type_synonym cm_reader = "string \<Rightarrow> goerr + (string, string) gomap"

definition read_authbridge_config :: "cm_reader \<Rightarrow> NamespaceConfig \<Rightarrow> NamespaceConfig" where
  "read_authbridge_config get cfg =
     (case get ''authbridge-config'' of
        Inl e \<Rightarrow> cfg
      | Inr d \<Rightarrow> cfg
          \<lparr>KeycloakURL := str_of d ''KEYCLOAK_URL'',
           KeycloakRealm := str_of d ''KEYCLOAK_REALM'',
           PlatformClientIDs := str_of d ''PLATFORM_CLIENT_IDS'',
           TokenURL := str_of d ''TOKEN_URL'',
           Issuer := str_of d ''ISSUER'',
           ExpectedAudience := str_of d ''EXPECTED_AUDIENCE'',
           TargetAudience := str_of d ''TARGET_AUDIENCE'',
           TargetScopes := str_of d ''TARGET_SCOPES'',
           DefaultOutboundPolicy := str_of d ''DEFAULT_OUTBOUND_POLICY'',
           ClientAuthType := str_of d ''CLIENT_AUTH_TYPE'',
           SpiffeIdpAlias := str_of d ''SPIFFE_IDP_ALIAS'',
           JWTAudience := str_of d ''JWT_AUDIENCE''\<rparr>)"

definition ReadNamespaceConfig :: "cm_reader \<Rightarrow> NamespaceConfig" where
  "ReadNamespaceConfig get =
     (let cfg1 = read_authbridge_config get empty_ns;
          cfg2 = (case get ''authproxy-routes'' of
                    Inl e \<Rightarrow> cfg1
                  | Inr d \<Rightarrow> cfg1\<lparr>AuthproxyRoutesYAML := str_of d ''routes.yaml''\<rparr>)
      in case get ''authbridge-runtime-config'' of
           Inl e \<Rightarrow> cfg2
         | Inr d \<Rightarrow> cfg2\<lparr>AuthBridgeRuntimeYAML := str_of d ''config.yaml''\<rparr>)"

definition extract_str :: "yaml \<Rightarrow> string list \<Rightarrow> string \<Rightarrow> string" where
  "extract_str Y path doc =
     (if doc = [] then []
      else case y_string Y path doc of Inl e \<Rightarrow> [] | Inr s \<Rightarrow> s)"

definition ExtractMode :: "yaml \<Rightarrow> string \<Rightarrow> string" where
  "ExtractMode Y = extract_str Y [''mode'']"

definition ExtractInboundInterception :: "yaml \<Rightarrow> string \<Rightarrow> string" where
  "ExtractInboundInterception Y = extract_str Y [''inboundInterception'']"

definition ExtractEgressEnforcement :: "yaml \<Rightarrow> string \<Rightarrow> string" where
  "ExtractEgressEnforcement Y = extract_str Y [''egressEnforcement'']"

definition ExtractMTLSMode :: "yaml \<Rightarrow> string \<Rightarrow> string" where
  "ExtractMTLSMode Y = extract_str Y [''mtls'', ''mode'']"

definition ExtractTLSBridgeMode :: "yaml \<Rightarrow> string \<Rightarrow> string" where
  "ExtractTLSBridgeMode Y = extract_str Y [''tls_bridge'', ''mode'']"

section \<open>Resolved configuration\<close>

definition ModeEnvoySidecar :: string where
  "ModeEnvoySidecar = ''envoy-sidecar''"

definition ModeProxySidecar :: string where
  "ModeProxySidecar = ''proxy-sidecar''"

definition ModeLite :: string where
  "ModeLite = ''lite''"

definition ModeWaypoint :: string where
  "ModeWaypoint = ''waypoint''"

definition EnforceRedirect :: string where
  "EnforceRedirect = ''enforce-redirect''"

definition ReverseProxy :: string where
  "ReverseProxy = ''reverse-proxy''"

definition Transparent :: string where
  "Transparent = ''transparent''"

definition ModeDisabled :: string where
  "ModeDisabled = ''disabled''"

definition MTLSModePermissive :: string where
  "MTLSModePermissive = ''permissive''"

definition MTLSModeStrict :: string where
  "MTLSModeStrict = ''strict''"

definition ModeEnabled :: string where
  "ModeEnabled = ''enabled''"

lemmas mode_defs = ModeEnvoySidecar_def ModeProxySidecar_def ModeLite_def ModeWaypoint_def
  EnforceRedirect_def ReverseProxy_def Transparent_def ModeDisabled_def MTLSModePermissive_def
  MTLSModeStrict_def ModeEnabled_def

record ResolvedConfig =
  Platform :: PlatformConfig
  RKeycloakURL :: string
  RKeycloakRealm :: string
  AdminCredentialsSecretName :: string
  SpiffeTrustDomain :: string
  RPlatformClientIDs :: string
  RTokenURL :: string
  RIssuer :: string
  RExpectedAudience :: string
  RTargetAudience :: string
  RTargetScopes :: string
  RDefaultOutboundPolicy :: string
  RClientAuthType :: string
  RSpiffeIdpAlias :: string
  RAuthproxyRoutesYAML :: string
  RAuthBridgeRuntimeYAML :: string
  RAuthBridgeMode :: string
  RMTLSMode :: string
  RTLSBridgeMode :: string

definition ResolveConfig :: "yaml \<Rightarrow> PlatformConfig option \<Rightarrow> NamespaceConfig option \<Rightarrow> ResolvedConfig" where
  "ResolveConfig Y platform ns =
     (let p = (case platform of None \<Rightarrow> CompiledDefaults | Some p \<Rightarrow> p);
          n = (case ns of None \<Rightarrow> empty_ns | Some n \<Rightarrow> n);
          y = AuthBridgeRuntimeYAML n
      in \<lparr>Platform = p,
          RKeycloakURL = KeycloakURL n, RKeycloakRealm = KeycloakRealm n,
          AdminCredentialsSecretName = ''keycloak-admin-secret'',
          SpiffeTrustDomain = TrustDomain (Spiffe p),
          RPlatformClientIDs = PlatformClientIDs n, RTokenURL = TokenURL n, RIssuer = Issuer n,
          RExpectedAudience = ExpectedAudience n, RTargetAudience = TargetAudience n,
          RTargetScopes = TargetScopes n, RDefaultOutboundPolicy = DefaultOutboundPolicy n,
          RClientAuthType = ClientAuthType n, RSpiffeIdpAlias = SpiffeIdpAlias n,
          RAuthproxyRoutesYAML = AuthproxyRoutesYAML n, RAuthBridgeRuntimeYAML = y,
          RAuthBridgeMode = ExtractMode Y y,
          RMTLSMode = ExtractMTLSMode Y y,
          RTLSBridgeMode = (if ExtractTLSBridgeMode Y y \<noteq> [] then ExtractTLSBridgeMode Y y else ModeDisabled)\<rparr>)"

section \<open>Mode resolution\<close>

text \<open>A value from the namespace, else the default; an unknown value falls back.\<close>

definition resolve_value :: "string \<Rightarrow> string list \<Rightarrow> string \<Rightarrow> string" where
  "resolve_value v known dflt =
     (let r = (if v \<noteq> [] then v else dflt) in if r \<in> set known then r else dflt)"

definition resolve_mtls :: "yaml \<Rightarrow> string \<Rightarrow> string" where
  "resolve_mtls Y doc =
     resolve_value (ExtractMTLSMode Y doc) [ModeDisabled, MTLSModePermissive, MTLSModeStrict] MTLSModePermissive"

text \<open>A value outside the allow list becomes the first allowed one; an empty list panics.\<close>

definition resolve_egress :: "yaml \<Rightarrow> PlatformConfig \<Rightarrow> string \<Rightarrow> string option" where
  "resolve_egress Y cfg doc =
     (let e = resolve_value (ExtractEgressEnforcement Y doc) [EnforceRedirect, ''none''] EnforceRedirect;
          allowed = AllowedEgressEnforcement (Proxy cfg)
      in if e \<in> set allowed then Some e
         else case allowed of [] \<Rightarrow> None | a # as \<Rightarrow> Some a)"

definition resolve_tls_bridge :: "yaml \<Rightarrow> string \<Rightarrow> string" where
  "resolve_tls_bridge Y doc =
     resolve_value (ExtractTLSBridgeMode Y doc) [ModeDisabled, ModeEnabled] ModeDisabled"

definition resolve_mode :: "yaml \<Rightarrow> string \<Rightarrow> (string, string) gomap \<Rightarrow> string" where
  "resolve_mode Y doc annotations =
     (let m = ExtractMode Y doc;
          m' = (if m \<noteq> [] then m else str_of annotations ''rossoctl.io/authbridge-mode'')
      in resolve_value m' [ModeProxySidecar, ModeEnvoySidecar, ModeLite, ModeWaypoint] ModeProxySidecar)"

definition resolve_inbound :: "yaml \<Rightarrow> PlatformConfig \<Rightarrow> string \<Rightarrow> string \<Rightarrow> string" where
  "resolve_inbound Y cfg doc egress =
     (let i = resolve_value (ExtractInboundInterception Y doc) [ReverseProxy, Transparent] ReverseProxy;
          allowed = AllowedInboundInterception (Proxy cfg);
          i' = (if allowed \<noteq> [] \<and> i \<notin> set allowed then hd allowed else i)
      in if i' = Transparent \<and> egress \<noteq> EnforceRedirect then ReverseProxy else i')"

lemma resolve_value_known: "dflt \<in> set known \<Longrightarrow> resolve_value v known dflt \<in> set known"
  by (simp add: resolve_value_def Let_def)

lemma resolve_mtls_cases: "resolve_mtls Y doc \<in> {ModeDisabled, MTLSModePermissive, MTLSModeStrict}"
  unfolding resolve_mtls_def
  using resolve_value_known [of MTLSModePermissive "[ModeDisabled, MTLSModePermissive, MTLSModeStrict]"] by simp

lemma resolve_mode_cases:
  "resolve_mode Y doc ann \<in> {ModeProxySidecar, ModeEnvoySidecar, ModeLite, ModeWaypoint}"
  unfolding resolve_mode_def Let_def
  using resolve_value_known [of ModeProxySidecar "[ModeProxySidecar, ModeEnvoySidecar, ModeLite, ModeWaypoint]"]
  by simp

lemma resolve_egress_allowed:
  "resolve_egress Y cfg doc = Some e \<Longrightarrow> e \<in> set (AllowedEgressEnforcement (Proxy cfg))"
  by (auto simp: resolve_egress_def Let_def split: if_splits list.splits)

lemma resolve_egress_defined:
  "AllowedEgressEnforcement (Proxy cfg) \<noteq> [] \<Longrightarrow> \<exists>e. resolve_egress Y cfg doc = Some e"
  by (auto simp: resolve_egress_def Let_def split: list.splits)

lemma resolve_inbound_transparent:
  "resolve_inbound Y cfg doc egress = Transparent \<Longrightarrow> egress = EnforceRedirect"
  by (auto simp: resolve_inbound_def Let_def mode_defs split: if_splits)

section \<open>Injection decision\<close>

record SidecarDecision =
  Inject :: bool
  Reason :: string
  Layer :: string

record InjectionDecision =
  DEnvoyProxy :: SidecarDecision
  DProxyInit :: SidecarDecision
  DSpiffeHelper :: SidecarDecision

definition AnyInjected :: "InjectionDecision \<Rightarrow> bool" where
  "AnyInjected d \<longleftrightarrow> Inject (DEnvoyProxy d) \<or> Inject (DSpiffeHelper d)"

definition evaluateSpiffeHelper :: "string \<Rightarrow> SidecarDecision" where
  "evaluateSpiffeHelper v =
     (if v = ''false'' then
        \<lparr>Inject = False, Reason = ''workload label disabled spiffe-helper'', Layer = ''workload-label''\<rparr>
      else \<lparr>Inject = True, Reason = ''all gates passed'', Layer = ''default''\<rparr>)"

definition evaluateSidecar :: "string \<Rightarrow> bool \<Rightarrow> string \<Rightarrow> SidecarDecision" where
  "evaluateSidecar sidecarName gate v =
     (if \<not> gate then
        \<lparr>Inject = False, Reason = sidecarName @ '' feature gate disabled'', Layer = ''feature-gate''\<rparr>
      else if v = ''false'' then
        \<lparr>Inject = False, Reason = ''workload label disabled '' @ sidecarName, Layer = ''workload-label''\<rparr>
      else \<lparr>Inject = True, Reason = ''all gates passed'', Layer = ''default''\<rparr>)"

definition Evaluate :: "FeatureGates option \<Rightarrow> (string, string) gomap \<Rightarrow> InjectionDecision" where
  "Evaluate fg labels =
     (let g = (case fg of None \<Rightarrow> DefaultFeatureGates | Some g \<Rightarrow> g);
          envoy = evaluateSidecar ''envoy-proxy'' (EnvoyProxy g) (str_of labels ''rossoctl.io/envoy-proxy-inject'')
      in \<lparr>DEnvoyProxy = envoy,
          DProxyInit = \<lparr>Inject = Inject envoy, Reason = ''follows envoy-proxy decision'', Layer = Layer envoy\<rparr>,
          DSpiffeHelper = evaluateSpiffeHelper (str_of labels ''rossoctl.io/spiffe-helper-inject'')\<rparr>)"

text \<open>The checks at the head of \<^verbatim>\<open>InjectAuthBridge\<close>.\<close>

definition prefilter :: "FeatureGates \<Rightarrow> (string, string) gomap \<Rightarrow> bool" where
  "prefilter g labels \<longleftrightarrow>
     (case map_of labels ''rossoctl.io/type'' of
        None \<Rightarrow> False
      | Some t \<Rightarrow>
          (t = ''agent'' \<or> t = ''tool'') \<and> GlobalEnabled g \<and> (t = ''tool'' \<longrightarrow> InjectTools g) \<and>
          str_of labels ''rossoctl.io/inject'' \<noteq> ''disabled'')"

lemma proxy_init_follows: "Inject (DProxyInit (Evaluate fg labels)) = Inject (DEnvoyProxy (Evaluate fg labels))"
  by (simp add: Evaluate_def Let_def)

end
