(* ===== verification/WH_Pod.thy ===== *)
theory WH_Pod
  imports WH_Resolve BS_Bundle
begin

text \<open>
  What the webhook adds to a pod (\<^verbatim>\<open>container_builder.go\<close>, \<^verbatim>\<open>volume_builder.go\<close>,
  \<^verbatim>\<open>keycloak_client_credentials.go\<close> and the helpers at the end of \<^verbatim>\<open>pod_mutator.go\<close>).  Of the
  Kubernetes types, the records have the fields the sources read or write; environment
  sources and volume sources the webhook never builds are \<open>OtherEnv\<close> and \<open>OtherVol\<close>.
\<close>

section \<open>Pod specifications\<close>

datatype EnvVarSource =
    ConfigMapKeyRef string string "bool option"
  | FieldRef string
  | OtherEnv string

record EnvVar =
  eName :: string
  eValue :: string
  eValueFrom :: "EnvVarSource option"

record ContainerPort =
  pName :: string
  pContainerPort :: int
  pProtocol :: string

record VolumeMount =
  mName :: string
  mMountPath :: string
  mSubPath :: string
  mReadOnly :: bool

record SecurityContext =
  RunAsUser :: "int option"
  RunAsGroup :: "int option"
  RunAsNonRoot :: "bool option"
  AllowPrivilegeEscalation :: "bool option"
  Privileged :: "bool option"
  CapAdd :: "string list"
  CapDrop :: "string list"

record Container =
  cName :: string
  cImage :: string
  cImagePullPolicy :: string
  cArgs :: "string list"
  cEnv :: "EnvVar list"
  cPorts :: "ContainerPort list"
  cResources :: ResourceRequirements
  cSecurityContext :: "SecurityContext option"
  cVolumeMounts :: "VolumeMount list"

record SecretVolumeSource =
  sSecretName :: string
  sDefaultMode :: "int option"
  sItems :: "(string \<times> string) list"
  sOptional :: "bool option"

datatype VolumeSource =
    EmptyDir
  | CSI string "bool option"
  | ConfigMapVol string "bool option"
  | SecretVol SecretVolumeSource
  | OtherVol string

record Volume =
  vName :: string
  vSource :: VolumeSource

record PodSpec =
  Containers :: "Container list"
  InitContainers :: "Container list"
  Volumes :: "Volume list"
  ServiceAccountName :: string
  PodSecurity :: "int option option"

text \<open>\<open>PodSecurity\<close> is the pod's security context, of which only the group id is used.\<close>

definition zero_container :: Container where
  "zero_container =
     \<lparr>cName = [], cImage = [], cImagePullPolicy = [], cArgs = [], cEnv = [], cPorts = [],
      cResources = \<lparr>Requests = [], Limits = []\<rparr>, cSecurityContext = None, cVolumeMounts = []\<rparr>"

definition env :: "string \<Rightarrow> string \<Rightarrow> EnvVar" where
  "env n v = \<lparr>eName = n, eValue = v, eValueFrom = None\<rparr>"

definition env_from :: "string \<Rightarrow> EnvVarSource \<Rightarrow> EnvVar" where
  "env_from n s = \<lparr>eName = n, eValue = [], eValueFrom = Some s\<rparr>"

definition mount_ro :: "string \<Rightarrow> string \<Rightarrow> VolumeMount" where
  "mount_ro n p = \<lparr>mName = n, mMountPath = p, mSubPath = [], mReadOnly = True\<rparr>"

definition mount_rw :: "string \<Rightarrow> string \<Rightarrow> VolumeMount" where
  "mount_rw n p = \<lparr>mName = n, mMountPath = p, mSubPath = [], mReadOnly = False\<rparr>"

definition tcp :: "string \<Rightarrow> int \<Rightarrow> ContainerPort" where
  "tcp n p = \<lparr>pName = n, pContainerPort = p, pProtocol = ''TCP''\<rparr>"

definition volume :: "string \<Rightarrow> VolumeSource \<Rightarrow> Volume" where
  "volume n s = \<lparr>vName = n, vSource = s\<rparr>"

definition EnvoyProxyContainerName :: string where
  "EnvoyProxyContainerName = ''envoy-proxy''"

definition ProxyInitContainerName :: string where
  "ProxyInitContainerName = ''proxy-init''"

definition AuthBridgeProxyContainerName :: string where
  "AuthBridgeProxyContainerName = ''authbridge-proxy''"

lemmas container_names = EnvoyProxyContainerName_def ProxyInitContainerName_def AuthBridgeProxyContainerName_def

section \<open>Helpers on pods\<close>

definition containerExists :: "Container list \<Rightarrow> string \<Rightarrow> bool" where
  "containerExists cs n \<longleftrightarrow> list_ex (\<lambda>c. cName c = n) cs"

definition volumeExists :: "Volume list \<Rightarrow> string \<Rightarrow> bool" where
  "volumeExists vs n \<longleftrightarrow> list_ex (\<lambda>v. vName v = n) vs"

definition envExists :: "EnvVar list \<Rightarrow> string \<Rightarrow> bool" where
  "envExists es n \<longleftrightarrow> list_ex (\<lambda>e. eName e = n) es"

definition ensureFSGroup :: "PodSpec \<Rightarrow> PodSpec" where
  "ensureFSGroup p =
     (case PodSecurity p of
        Some (Some g) \<Rightarrow> p
      | _ \<Rightarrow> p\<lparr>PodSecurity := Some (Some 0)\<rparr>)"

definition add_env :: "EnvVar \<Rightarrow> EnvVar list \<Rightarrow> EnvVar list" where
  "add_env e es = (if envExists es (eName e) then es else es @ [e])"

definition injectHTTPProxyEnv :: "int \<Rightarrow> Container \<Rightarrow> Container" where
  "injectHTTPProxyEnv port c =
     (let proxyURL = ''http://127.0.0.1:'' @ itoa port
      in c\<lparr>cEnv := add_env (env ''NO_PROXY'' ''127.0.0.1,localhost'')
            (add_env (env ''HTTPS_PROXY'' proxyURL) (add_env (env ''HTTP_PROXY'' proxyURL) (cEnv c)))\<rparr>)"

fun set_env_value :: "string \<Rightarrow> string \<Rightarrow> EnvVar list \<Rightarrow> EnvVar list" where
  "set_env_value n v [] = [env n v]"
| "set_env_value n v (e # es) =
     (if eName e = n then e\<lparr>eValue := v, eValueFrom := None\<rparr> # es else e # set_env_value n v es)"

definition setOrAddEnv :: "string \<Rightarrow> string \<Rightarrow> Container \<Rightarrow> Container" where
  "setOrAddEnv n v c = c\<lparr>cEnv := set_env_value n v (cEnv c)\<rparr>"

section \<open>Container builder\<close>

record ContainerBuilder =
  cfg :: PlatformConfig
  resolved :: "ResolvedConfig option"

definition NewContainerBuilder :: "PlatformConfig option \<Rightarrow> ContainerBuilder" where
  "NewContainerBuilder c =
     \<lparr>cfg = (case c of None \<Rightarrow> CompiledDefaults | Some c' \<Rightarrow> c'), resolved = None\<rparr>"

definition NewResolvedContainerBuilder :: "yaml \<Rightarrow> ResolvedConfig option \<Rightarrow> ContainerBuilder" where
  "NewResolvedContainerBuilder Y r =
     (let r' = (case r of None \<Rightarrow> ResolveConfig Y None None | Some r' \<Rightarrow> r')
      in \<lparr>cfg = Platform r', resolved = Some r'\<rparr>)"

definition spireEnabledStr :: "bool \<Rightarrow> string" where
  "spireEnabledStr b = (if b then ''true'' else ''false'')"

text \<open>\<^verbatim>\<open>path.Dir\<close>: everything up to the last slash, cleaned.\<close>

definition path_Dir :: "string \<Rightarrow> string" where
  "path_Dir s = Clean (rev (dropWhile (\<lambda>c. c \<noteq> CHR ''/'') (rev s)))"

definition spireSocketDir :: "string \<Rightarrow> string" where
  "spireSocketDir socketPath =
     (let dir = path_Dir (trim_prefix socketPath ''unix://'')
      in if dir = ''.'' \<or> dir = ''/'' then [] else dir)"

definition spire_mounts :: "ContainerBuilder \<Rightarrow> VolumeMount list" where
  "spire_mounts b =
     [mount_rw ''svid-output'' ''/opt'',
      mount_ro ''spiffe-helper-config'' ''/etc/spiffe-helper'',
      mount_ro ''spire-agent-socket'' (spireSocketDir (SocketPath (Spiffe (cfg b))))]"

definition proxy_security :: "ContainerBuilder \<Rightarrow> SecurityContext" where
  "proxy_security b =
     \<lparr>RunAsUser = Some (UID (Proxy (cfg b))), RunAsGroup = Some (UID (Proxy (cfg b))),
      RunAsNonRoot = Some True, AllowPrivilegeEscalation = Some False, Privileged = None,
      CapAdd = [], CapDrop = []\<rparr>"

definition AuthProxyRoutesFile :: string where
  "AuthProxyRoutesFile = ''/etc/authproxy/routes.yaml''"

definition buildEnvoyProxyEnvResolved :: "ResolvedConfig \<Rightarrow> EnvVar list" where
  "buildEnvoyProxyEnvResolved r =
     [env ''KEYCLOAK_URL'' (RKeycloakURL r),
      env ''KEYCLOAK_REALM'' (RKeycloakRealm r),
      env ''TOKEN_URL'' (RTokenURL r),
      env ''ISSUER'' (RIssuer r),
      env ''EXPECTED_AUDIENCE'' (RExpectedAudience r),
      env ''TARGET_AUDIENCE'' (RTargetAudience r),
      env ''TARGET_SCOPES'' (RTargetScopes r),
      env ''CLIENT_ID_FILE'' ''/shared/client-id.txt'',
      env ''CLIENT_SECRET_FILE'' ''/shared/client-secret.txt'',
      env ''ROUTES_CONFIG_PATH'' AuthProxyRoutesFile,
      env ''DEFAULT_OUTBOUND_POLICY'' (RDefaultOutboundPolicy r)]"

definition cm_env :: "string \<Rightarrow> bool \<Rightarrow> EnvVar" where
  "cm_env k opt = env_from k (ConfigMapKeyRef ''authbridge-config'' k (Some opt))"

definition buildEnvoyProxyEnvLegacy :: "EnvVar list" where
  "buildEnvoyProxyEnvLegacy =
     [cm_env ''KEYCLOAK_URL'' True,
      cm_env ''KEYCLOAK_REALM'' True,
      cm_env ''TOKEN_URL'' True,
      cm_env ''ISSUER'' False,
      cm_env ''EXPECTED_AUDIENCE'' True,
      cm_env ''TARGET_AUDIENCE'' True,
      cm_env ''TARGET_SCOPES'' True,
      env ''CLIENT_ID_FILE'' ''/shared/client-id.txt'',
      env ''CLIENT_SECRET_FILE'' ''/shared/client-secret.txt'',
      env ''ROUTES_CONFIG_PATH'' AuthProxyRoutesFile,
      cm_env ''DEFAULT_OUTBOUND_POLICY'' True]"

definition BuildEnvoyProxyContainerWithSpireOption :: "ContainerBuilder \<Rightarrow> bool \<Rightarrow> Container" where
  "BuildEnvoyProxyContainerWithSpireOption b spireEnabled =
     \<lparr>cName = EnvoyProxyContainerName,
      cImage = ImgEnvoyProxy (Images (cfg b)),
      cImagePullPolicy = PullPolicy (Images (cfg b)),
      cArgs = [''--config'', ''/etc/authbridge/config.yaml''],
      cEnv = (case resolved b of Some r \<Rightarrow> buildEnvoyProxyEnvResolved r | None \<Rightarrow> buildEnvoyProxyEnvLegacy) @
             [env ''SPIRE_ENABLED'' (spireEnabledStr spireEnabled)],
      cPorts = [tcp ''envoy-outbound'' (Port (Proxy (cfg b))),
                tcp ''envoy-inbound'' (InboundProxyPort (Proxy (cfg b))),
                tcp ''envoy-admin'' (AdminPort (Proxy (cfg b))),
                tcp ''ext-proc'' 9090],
      cResources = ResEnvoyProxy (Resources (cfg b)),
      cSecurityContext = Some (proxy_security b),
      cVolumeMounts =
        [mount_ro ''envoy-config'' ''/etc/envoy'',
         mount_rw ''shared-data'' ''/shared'',
         mount_ro ''authproxy-routes'' ''/etc/authproxy'',
         mount_ro ''authbridge-runtime-config'' ''/etc/authbridge''] @
        (if spireEnabled then spire_mounts b else [])\<rparr>"

definition buildProxySidecarContainer ::
    "ContainerBuilder \<Rightarrow> bool \<Rightarrow> string \<Rightarrow> string \<Rightarrow> int \<Rightarrow> int \<Rightarrow> Container" where
  "buildProxySidecarContainer b spireEnabled img inboundPortName inboundPort forwardProxyPort =
     \<lparr>cName = AuthBridgeProxyContainerName,
      cImage = img,
      cImagePullPolicy = PullPolicy (Images (cfg b)),
      cArgs = [''--config'', ''/etc/authbridge/config.yaml''],
      cEnv = [env ''SPIRE_ENABLED'' (spireEnabledStr spireEnabled)],
      cPorts = [tcp inboundPortName inboundPort, tcp ''forward-proxy'' forwardProxyPort],
      cResources = ResAuthBridge (Resources (cfg b)),
      cSecurityContext = Some (proxy_security b),
      cVolumeMounts =
        [mount_rw ''shared-data'' ''/shared'',
         mount_ro ''authbridge-runtime-config'' ''/etc/authbridge'',
         mount_ro ''authproxy-routes'' ''/etc/authproxy''] @
        (if spireEnabled then spire_mounts b else [])\<rparr>"

definition BuildProxySidecarContainerWithPorts ::
    "ContainerBuilder \<Rightarrow> bool \<Rightarrow> string \<Rightarrow> int \<Rightarrow> int \<Rightarrow> Container" where
  "BuildProxySidecarContainerWithPorts b spireEnabled img reverseProxyPort forwardProxyPort =
     buildProxySidecarContainer b spireEnabled img ''reverse-proxy'' reverseProxyPort forwardProxyPort"

definition BuildProxySidecarContainerTransparent ::
    "ContainerBuilder \<Rightarrow> bool \<Rightarrow> string \<Rightarrow> int \<Rightarrow> int \<Rightarrow> Container" where
  "BuildProxySidecarContainerTransparent b spireEnabled img transparentInboundPort forwardProxyPort =
     buildProxySidecarContainer b spireEnabled img ''transparent-in'' transparentInboundPort forwardProxyPort"

section \<open>Port exclusions\<close>

definition valid_port :: "string \<Rightarrow> string option" where
  "valid_port tok =
     (case atoi tok of
        None \<Rightarrow> None
      | Some p \<Rightarrow> if p < 1 \<or> p > 65535 then None else Some (itoa p))"

fun collect_ports :: "string list \<Rightarrow> string list \<Rightarrow> string list" where
  "collect_ports ports [] = ports"
| "collect_ports ports (raw # toks) =
     (let tok = trim_space raw in
      if tok = [] then collect_ports ports toks
      else case valid_port tok of
        None \<Rightarrow> collect_ports ports toks
      | Some n \<Rightarrow> if n \<in> set ports then collect_ports ports toks else collect_ports (ports @ [n]) toks)"

definition validateAndDeduplicatePorts :: "string \<Rightarrow> string list \<Rightarrow> string list" where
  "validateAndDeduplicatePorts raw initialPorts = collect_ports initialPorts (split (CHR '','') raw)"

definition buildOutboundExcludeValue :: "string \<Rightarrow> string" where
  "buildOutboundExcludeValue extra =
     (if extra = [] then ''8080'' else join '','' (validateAndDeduplicatePorts extra [''8080'']))"

definition buildPortExcludeValue :: "string \<Rightarrow> string" where
  "buildPortExcludeValue raw = (if raw = [] then [] else join '','' (validateAndDeduplicatePorts raw []))"

record ProxyInitInbound =
  iPort :: int
  SidecarPortsExclude :: string
  PortsExclude :: string

definition no_inbound :: ProxyInitInbound where
  "no_inbound = \<lparr>iPort = 0, SidecarPortsExclude = [], PortsExclude = []\<rparr>"

definition enforce_env :: "ContainerBuilder \<Rightarrow> ProxyInitInbound \<Rightarrow> EnvVar list" where
  "enforce_env b inbound =
     [env ''MODE'' EnforceRedirect,
      env ''PROXY_UID'' (itoa (UID (Proxy (cfg b)))),
      env ''TRANSPARENT_PORT'' (itoa (TransparentPort (Proxy (cfg b))))] @
     (if iPort inbound > 0 then
        [env ''INBOUND_TRANSPARENT_PORT'' (itoa (iPort inbound)),
         env_from ''POD_IP'' (FieldRef ''status.podIP''),
         env_from ''POD_IPS'' (FieldRef ''status.podIPs'')] @
        (if SidecarPortsExclude inbound \<noteq> [] then
           [env ''SIDECAR_PORTS_EXCLUDE'' (SidecarPortsExclude inbound)] else []) @
        (let v = buildPortExcludeValue (PortsExclude inbound)
         in if v \<noteq> [] then [env ''INBOUND_PORTS_EXCLUDE'' v] else [])
      else [])"

definition redirect_env :: "ContainerBuilder \<Rightarrow> string \<Rightarrow> string \<Rightarrow> EnvVar list" where
  "redirect_env b outboundPortsExclude inboundPortsExclude =
     [env ''PROXY_PORT'' (itoa (Port (Proxy (cfg b)))),
      env ''INBOUND_PROXY_PORT'' (itoa (InboundProxyPort (Proxy (cfg b)))),
      env ''PROXY_UID'' (itoa (UID (Proxy (cfg b)))),
      env ''OUTBOUND_PORTS_EXCLUDE'' (buildOutboundExcludeValue outboundPortsExclude),
      env_from ''POD_IP'' (FieldRef ''status.podIP'')] @
     (let v = buildPortExcludeValue inboundPortsExclude
      in if v \<noteq> [] then [env ''INBOUND_PORTS_EXCLUDE'' v] else [])"

definition BuildProxyInitContainerWithInbound ::
    "ContainerBuilder \<Rightarrow> string \<Rightarrow> string \<Rightarrow> string \<Rightarrow> ProxyInitInbound \<Rightarrow> Container" where
  "BuildProxyInitContainerWithInbound b mode outboundPortsExclude inboundPortsExclude inbound =
     (if mode \<noteq> EnforceRedirect \<and> mode \<noteq> ''redirect'' then zero_container
      else
        \<lparr>cName = ProxyInitContainerName,
         cImage = ImgProxyInit (Images (cfg b)),
         cImagePullPolicy = PullPolicy (Images (cfg b)),
         cArgs = [],
         cEnv = (if mode = EnforceRedirect then enforce_env b inbound
                 else redirect_env b outboundPortsExclude inboundPortsExclude) @
                (if IptablesCmd (Proxy (cfg b)) \<noteq> [] then [env ''IPTABLES_CMD'' (IptablesCmd (Proxy (cfg b)))] else []),
         cPorts = [],
         cResources = ResProxyInit (Resources (cfg b)),
         cSecurityContext = Some
           \<lparr>RunAsUser = Some 0, RunAsGroup = None, RunAsNonRoot = Some False, AllowPrivilegeEscalation = None,
            Privileged = Some False, CapAdd = [''NET_ADMIN'', ''NET_RAW''], CapDrop = [''ALL'']\<rparr>,
         cVolumeMounts = []\<rparr>)"

definition BuildProxyInitContainer :: "ContainerBuilder \<Rightarrow> string \<Rightarrow> string \<Rightarrow> string \<Rightarrow> Container" where
  "BuildProxyInitContainer b mode outboundPortsExclude inboundPortsExclude =
     BuildProxyInitContainerWithInbound b mode outboundPortsExclude inboundPortsExclude no_inbound"

section \<open>Volumes\<close>

definition cm_volume :: "string \<Rightarrow> string \<Rightarrow> Volume" where
  "cm_volume n cm = volume n (ConfigMapVol cm (Some True))"

definition spire_volumes :: "Volume list" where
  "spire_volumes =
     [volume ''spire-agent-socket'' (CSI ''csi.spiffe.io'' (Some True)),
      volume ''spiffe-helper-config'' (ConfigMapVol ''spiffe-helper-config'' None),
      volume ''svid-output'' EmptyDir]"

definition BuildRequiredVolumes :: "Volume list" where
  "BuildRequiredVolumes =
     volume ''shared-data'' EmptyDir # spire_volumes @
     [cm_volume ''envoy-config'' ''envoy-config'',
      cm_volume ''authproxy-routes'' ''authproxy-routes'',
      cm_volume ''authbridge-runtime-config'' ''authbridge-runtime-config'']"

definition BuildRequiredVolumesNoSpire :: "Volume list" where
  "BuildRequiredVolumesNoSpire =
     [volume ''shared-data'' EmptyDir,
      cm_volume ''envoy-config'' ''envoy-config'',
      cm_volume ''authproxy-routes'' ''authproxy-routes'',
      cm_volume ''authbridge-runtime-config'' ''authbridge-runtime-config'']"

definition BuildResolvedVolumes :: "bool \<Rightarrow> string \<Rightarrow> Volume list" where
  "BuildResolvedVolumes spireEnabled envoyConfigMapName =
     volume ''shared-data'' EmptyDir #
     (if spireEnabled then spire_volumes else []) @
     [cm_volume ''envoy-config'' (if envoyConfigMapName = [] then ''envoy-config'' else envoyConfigMapName),
      cm_volume ''authproxy-routes'' ''authproxy-routes'',
      cm_volume ''authbridge-runtime-config'' ''authbridge-runtime-config'']"

text \<open>Pointing the ConfigMap volume of a given name at another ConfigMap.\<close>

definition override_cm :: "string \<Rightarrow> (bool option \<Rightarrow> bool option) \<Rightarrow> string \<Rightarrow> Volume list \<Rightarrow> Volume list" where
  "override_cm vol opt cm vs =
     map (\<lambda>v. case vSource v of
           ConfigMapVol old o' \<Rightarrow> if vName v = vol then v\<lparr>vSource := ConfigMapVol cm (opt o')\<rparr> else v
         | _ \<Rightarrow> v) vs"

definition overrideAuthBridgeConfigMapInVolumes :: "Volume list \<Rightarrow> string \<Rightarrow> Volume list" where
  "overrideAuthBridgeConfigMapInVolumes vs cmName = override_cm ''authbridge-runtime-config'' id cmName vs"

definition overrideRoutesConfigMapInVolumes :: "Volume list \<Rightarrow> string \<Rightarrow> Volume list" where
  "overrideRoutesConfigMapInVolumes vs routesCMName =
     override_cm ''authproxy-routes'' (\<lambda>_. Some False) routesCMName vs"

definition overrideEnvoyConfigMapInVolumes :: "Volume list \<Rightarrow> string \<Rightarrow> Volume list" where
  "overrideEnvoyConfigMapInVolumes vs cmName = override_cm ''envoy-config'' id cmName vs"

definition add_volume :: "Volume \<Rightarrow> PodSpec \<Rightarrow> PodSpec" where
  "add_volume v p = (if volumeExists (Volumes p) (vName v) then p else p\<lparr>Volumes := Volumes p @ [v]\<rparr>)"

definition add_volumes :: "Volume list \<Rightarrow> PodSpec \<Rightarrow> PodSpec" where
  "add_volumes vs p = fold add_volume vs p"

section \<open>TLS bridge\<close>

definition TLSBridgeCAVolumeName :: string where
  "TLSBridgeCAVolumeName = ''tls-bridge-ca''"

definition TLSBridgeCACertVolumeName :: string where
  "TLSBridgeCACertVolumeName = ''tls-bridge-ca-cert''"

definition TLSBridgeCAMountPath :: string where
  "TLSBridgeCAMountPath = ''/etc/authbridge/tls-bridge-ca''"

definition tlsBridgeTrustEnvVars :: "string list" where
  "tlsBridgeTrustEnvVars =
     [''NODE_EXTRA_CA_CERTS'', ''SSL_CERT_FILE'', ''REQUESTS_CA_BUNDLE'', ''CURL_CA_BUNDLE'',
      ''GIT_SSL_CAINFO'', ''AWS_CA_BUNDLE'', ''GRPC_DEFAULT_SSL_ROOTS_FILE_PATH'']"

definition addVolumeMountIfMissing :: "VolumeMount \<Rightarrow> Container \<Rightarrow> Container" where
  "addVolumeMountIfMissing vm c =
     (if list_ex (\<lambda>m. mName m = mName vm) (cVolumeMounts c) then c
      else c\<lparr>cVolumeMounts := cVolumeMounts c @ [vm]\<rparr>)"

definition tls_bridge_container :: "Container \<Rightarrow> Container" where
  "tls_bridge_container c =
     (if cName c = AuthBridgeProxyContainerName then
        addVolumeMountIfMissing (mount_ro TLSBridgeCAVolumeName TLSBridgeCAMountPath) c
      else
        fold (\<lambda>e. setOrAddEnv e (TLSBridgeCAMountPath @ ''/ca.crt'')) tlsBridgeTrustEnvVars
          (addVolumeMountIfMissing (mount_ro TLSBridgeCACertVolumeName TLSBridgeCAMountPath) c))"

definition applyTLSBridgeMounts :: "string \<Rightarrow> PodSpec \<Rightarrow> PodSpec" where
  "applyTLSBridgeMounts workloadName p =
     (let secretName = workloadName @ ''-tls-bridge-ca'';
          keypair = volume TLSBridgeCAVolumeName (SecretVol
            \<lparr>sSecretName = secretName, sDefaultMode = Some 292, sItems = [], sOptional = None\<rparr>);
          caOnly = volume TLSBridgeCACertVolumeName (SecretVol
            \<lparr>sSecretName = secretName, sDefaultMode = Some 292, sItems = [(''ca.crt'', ''ca.crt'')],
             sOptional = None\<rparr>);
          p' = add_volume caOnly (add_volume keypair p)
      in p'\<lparr>Containers := map tls_bridge_container (Containers p')\<rparr>)"

section \<open>Keycloak client credentials\<close>

definition AnnotationKeycloakClientSecretName :: string where
  "AnnotationKeycloakClientSecretName = ''rossoctl.io/keycloak-client-credentials-secret-name''"

definition containerVolumeMountExists :: "VolumeMount list \<Rightarrow> string \<Rightarrow> bool" where
  "containerVolumeMountExists ms n \<longleftrightarrow> list_ex (\<lambda>m. mName m = n) ms"

definition containerHasKeycloakCredentialsMount :: "Container \<Rightarrow> string \<Rightarrow> string \<Rightarrow> bool" where
  "containerHasKeycloakCredentialsMount c volumeName mountPath \<longleftrightarrow>
     list_ex (\<lambda>m. mName m = volumeName \<and> mMountPath m = mountPath) (cVolumeMounts c)"

definition appendSubPathMount :: "string \<Rightarrow> string \<Rightarrow> string \<Rightarrow> Container \<Rightarrow> Container" where
  "appendSubPathMount vol subPath mountPath c =
     (if list_ex (\<lambda>m. mName m = vol \<and> mMountPath m = mountPath) (cVolumeMounts c) then c
      else c\<lparr>cVolumeMounts := cVolumeMounts c @
        [\<lparr>mName = vol, mMountPath = mountPath, mSubPath = subPath, mReadOnly = True\<rparr>]\<rparr>)"

definition credentials_secret :: "(string, string) gomap \<Rightarrow> string" where
  "credentials_secret annotations = trim_space (str_of annotations AnnotationKeycloakClientSecretName)"

definition NeedsKeycloakClientCredentialsVolumePatch :: "PodSpec \<Rightarrow> (string, string) gomap \<Rightarrow> bool" where
  "NeedsKeycloakClientCredentialsVolumePatch p annotations =
     (let secretName = credentials_secret annotations in
      if secretName = [] then False
      else if \<not> volumeExists (Volumes p) secretName then True
      else list_ex (\<lambda>c.
        containerVolumeMountExists (cVolumeMounts c) ''shared-data'' \<and>
        (\<not> containerHasKeycloakCredentialsMount c secretName ''/shared/client-secret.txt'' \<or>
         \<not> containerHasKeycloakCredentialsMount c secretName ''/shared/client-id.txt'')) (Containers p))"

definition credentials_container :: "string \<Rightarrow> Container \<Rightarrow> Container" where
  "credentials_container vol c =
     (if containerVolumeMountExists (cVolumeMounts c) ''shared-data'' then
        appendSubPathMount vol ''client-id.txt'' ''/shared/client-id.txt''
          (appendSubPathMount vol ''client-secret.txt'' ''/shared/client-secret.txt'' c)
      else c)"

definition ApplyKeycloakClientCredentialsSecretVolumes :: "(string, string) gomap \<Rightarrow> PodSpec \<Rightarrow> PodSpec" where
  "ApplyKeycloakClientCredentialsSecretVolumes annotations p =
     (let secretName = credentials_secret annotations in
      if secretName = [] then p
      else
        (let p' = add_volume (volume secretName (SecretVol
               \<lparr>sSecretName = secretName, sDefaultMode = None, sItems = [], sOptional = Some False\<rparr>)) p
         in p'\<lparr>Containers := map (credentials_container secretName) (Containers p')\<rparr>))"

section \<open>Lemmas\<close>

named_theorems pod_simps \<open>what each step keeps of a pod\<close>

lemma containerExists_iff: "containerExists cs n \<longleftrightarrow> n \<in> cName ` set cs"
  by (auto simp: containerExists_def list_ex_iff)

lemma volumeExists_iff: "volumeExists vs n \<longleftrightarrow> n \<in> vName ` set vs"
  by (auto simp: volumeExists_def list_ex_iff)

lemma add_volume_keeps [pod_simps]:
  "Containers (add_volume v p) = Containers p" "InitContainers (add_volume v p) = InitContainers p"
  "ServiceAccountName (add_volume v p) = ServiceAccountName p" "PodSecurity (add_volume v p) = PodSecurity p"
  by (simp_all add: add_volume_def)

lemma add_volume_names: "vName ` set (Volumes (add_volume v p)) = insert (vName v) (vName ` set (Volumes p))"
  by (auto simp: add_volume_def volumeExists_iff)

lemma add_volumes_keeps [pod_simps]:
  "Containers (add_volumes vs p) = Containers p" "InitContainers (add_volumes vs p) = InitContainers p"
  unfolding add_volumes_def by (induction vs arbitrary: p) (simp_all add: pod_simps)

lemma setOrAddEnv_keeps [pod_simps]:
  "cName (setOrAddEnv n v c) = cName c" "cPorts (setOrAddEnv n v c) = cPorts c"
  "cVolumeMounts (setOrAddEnv n v c) = cVolumeMounts c"
  by (simp_all add: setOrAddEnv_def)

lemma fold_setOrAddEnv_keeps [pod_simps]:
  "cName (fold (\<lambda>e. setOrAddEnv e v) es c) = cName c" "cPorts (fold (\<lambda>e. setOrAddEnv e v) es c) = cPorts c"
  "cVolumeMounts (fold (\<lambda>e. setOrAddEnv e v) es c) = cVolumeMounts c"
  by (induction es arbitrary: c) (simp_all add: pod_simps)

lemma injectHTTPProxyEnv_keeps [pod_simps]:
  "cName (injectHTTPProxyEnv port c) = cName c" "cPorts (injectHTTPProxyEnv port c) = cPorts c"
  "cVolumeMounts (injectHTTPProxyEnv port c) = cVolumeMounts c"
  by (simp_all add: injectHTTPProxyEnv_def Let_def)

lemma credentials_container_keeps [pod_simps]:
  "cName (credentials_container v c) = cName c" "cPorts (credentials_container v c) = cPorts c"
  "cEnv (credentials_container v c) = cEnv c"
  by (simp_all add: credentials_container_def appendSubPathMount_def)

lemma addVolumeMountIfMissing_keeps [pod_simps]:
  "cName (addVolumeMountIfMissing m c) = cName c" "cPorts (addVolumeMountIfMissing m c) = cPorts c"
  by (simp_all add: addVolumeMountIfMissing_def)

lemma tls_bridge_container_keeps [pod_simps]:
  "cName (tls_bridge_container c) = cName c" "cPorts (tls_bridge_container c) = cPorts c"
  by (simp_all add: tls_bridge_container_def pod_simps)

lemma credentials_apply_keeps [pod_simps]:
  "map cName (Containers (ApplyKeycloakClientCredentialsSecretVolumes ann p)) = map cName (Containers p)"
  "map cPorts (Containers (ApplyKeycloakClientCredentialsSecretVolumes ann p)) = map cPorts (Containers p)"
  "InitContainers (ApplyKeycloakClientCredentialsSecretVolumes ann p) = InitContainers p"
  by (simp_all add: ApplyKeycloakClientCredentialsSecretVolumes_def Let_def pod_simps)

lemma tls_bridge_keeps [pod_simps]:
  "map cName (Containers (applyTLSBridgeMounts w p)) = map cName (Containers p)"
  "map cPorts (Containers (applyTLSBridgeMounts w p)) = map cPorts (Containers p)"
  "InitContainers (applyTLSBridgeMounts w p) = InitContainers p"
  by (simp_all add: applyTLSBridgeMounts_def Let_def pod_simps)

lemma ensureFSGroup_keeps [pod_simps]:
  "Containers (ensureFSGroup p) = Containers p" "InitContainers (ensureFSGroup p) = InitContainers p"
  "Volumes (ensureFSGroup p) = Volumes p"
  by (simp_all add: ensureFSGroup_def split: option.splits)

text \<open>Mounts only accumulate, which keeps a container's credentials mounted.\<close>

lemma mounts_append:
  "set (cVolumeMounts (appendSubPathMount v sub path c)) \<supseteq> set (cVolumeMounts c)"
  "m \<in> set (cVolumeMounts (appendSubPathMount v sub path c)) \<Longrightarrow> m \<in> set (cVolumeMounts c) \<or> mName m = v"
  "containerHasKeycloakCredentialsMount (appendSubPathMount v sub path c) v path"
  by (auto simp: appendSubPathMount_def containerHasKeycloakCredentialsMount_def list_ex_iff split: if_splits)

lemma has_mount_mono:
  "containerHasKeycloakCredentialsMount c v path \<Longrightarrow> set (cVolumeMounts c) \<subseteq> set (cVolumeMounts c') \<Longrightarrow>
   containerHasKeycloakCredentialsMount c' v path"
  by (auto simp: containerHasKeycloakCredentialsMount_def list_ex_iff)

lemma credentials_container_mounts:
  assumes "containerVolumeMountExists (cVolumeMounts c) ''shared-data''"
  shows "containerHasKeycloakCredentialsMount (credentials_container v c) v ''/shared/client-secret.txt''"
    and "containerHasKeycloakCredentialsMount (credentials_container v c) v ''/shared/client-id.txt''"
  using assms mounts_append(3) has_mount_mono [OF mounts_append(3) mounts_append(1)]
  by (simp_all add: credentials_container_def)

lemma credentials_container_shared:
  "containerVolumeMountExists (cVolumeMounts (credentials_container v c)) ''shared-data'' \<Longrightarrow>
   containerVolumeMountExists (cVolumeMounts c) ''shared-data''"
  by (simp add: credentials_container_def split: if_splits)

definition credentials_done :: "string \<Rightarrow> PodSpec \<Rightarrow> bool" where
  "credentials_done v p \<longleftrightarrow>
     v \<in> vName ` set (Volumes p) \<and>
     (\<forall>c \<in> set (Containers p). containerVolumeMountExists (cVolumeMounts c) ''shared-data'' \<longrightarrow>
        containerHasKeycloakCredentialsMount c v ''/shared/client-secret.txt'' \<and>
        containerHasKeycloakCredentialsMount c v ''/shared/client-id.txt'')"

lemma needs_patch_iff:
  "NeedsKeycloakClientCredentialsVolumePatch p ann \<longleftrightarrow>
     credentials_secret ann \<noteq> [] \<and> \<not> credentials_done (credentials_secret ann) p"
  by (auto simp: NeedsKeycloakClientCredentialsVolumePatch_def credentials_done_def Let_def
      volumeExists_iff list_ex_iff)

lemma credentials_applied:
  assumes "credentials_secret ann \<noteq> []"
  shows "credentials_done (credentials_secret ann) (ApplyKeycloakClientCredentialsSecretVolumes ann p)"
proof -
  let ?v = "credentials_secret ann"
  let ?q = "ApplyKeycloakClientCredentialsSecretVolumes ann p"
  have cs: "Containers ?q = map (credentials_container ?v) (Containers p)"
    using assms by (simp add: ApplyKeycloakClientCredentialsSecretVolumes_def Let_def pod_simps)
  have "?v \<in> vName ` set (Volumes ?q)"
    using assms by (simp add: ApplyKeycloakClientCredentialsSecretVolumes_def Let_def add_volume_names volume_def)
  moreover have "containerHasKeycloakCredentialsMount c ?v ''/shared/client-secret.txt'' \<and>
      containerHasKeycloakCredentialsMount c ?v ''/shared/client-id.txt''"
    if "c \<in> set (Containers ?q)" "containerVolumeMountExists (cVolumeMounts c) ''shared-data''" for c
    using that credentials_container_shared credentials_container_mounts by (auto simp: cs)
  ultimately show ?thesis by (simp add: credentials_done_def)
qed

lemma bridge_mounts:
  "set (cVolumeMounts c) \<subseteq> set (cVolumeMounts (tls_bridge_container c))"
  "m \<in> set (cVolumeMounts (tls_bridge_container c)) \<Longrightarrow> m \<in> set (cVolumeMounts c) \<or>
     m = mount_ro (if cName c = AuthBridgeProxyContainerName then TLSBridgeCAVolumeName else TLSBridgeCACertVolumeName)
       TLSBridgeCAMountPath"
  by (auto simp: tls_bridge_container_def addVolumeMountIfMissing_def pod_simps split: if_splits)

lemma bridge_shared:
  "containerVolumeMountExists (cVolumeMounts (tls_bridge_container c)) ''shared-data'' \<Longrightarrow>
   containerVolumeMountExists (cVolumeMounts c) ''shared-data''"
  unfolding containerVolumeMountExists_def list_ex_iff
  using bridge_mounts(2) [of _ c]
  by (fastforce simp: mount_ro_def TLSBridgeCAVolumeName_def TLSBridgeCACertVolumeName_def split: if_splits)

lemma credentials_done_bridge:
  assumes "credentials_done v p" shows "credentials_done v (applyTLSBridgeMounts w p)"
proof -
  let ?q = "applyTLSBridgeMounts w p"
  have cs: "Containers ?q = map tls_bridge_container (Containers p)"
    by (simp add: applyTLSBridgeMounts_def Let_def pod_simps)
  have "v \<in> vName ` set (Volumes ?q)"
    using assms by (simp add: credentials_done_def applyTLSBridgeMounts_def Let_def add_volume_names)
  moreover have "containerHasKeycloakCredentialsMount c v ''/shared/client-secret.txt'' \<and>
      containerHasKeycloakCredentialsMount c v ''/shared/client-id.txt''"
    if c: "c \<in> set (Containers ?q)" "containerVolumeMountExists (cVolumeMounts c) ''shared-data''" for c
  proof -
    obtain d where d: "d \<in> set (Containers p)" "c = tls_bridge_container d" using c(1) by (auto simp: cs)
    then show ?thesis
      using assms bridge_shared c(2) has_mount_mono [OF _ bridge_mounts(1)] by (auto simp: credentials_done_def)
  qed
  ultimately show ?thesis by (simp add: credentials_done_def)
qed

lemma credentials_done_fsgroup: "credentials_done v (ensureFSGroup p) = credentials_done v p"
  by (simp add: credentials_done_def pod_simps)

end
