(* ===== verification/WH_Mutator.thy ===== *)
theory WH_Mutator
  imports WH_Pod WH_Pipeline
begin

text \<open>
  \<^verbatim>\<open>PodMutator\<close> (\<^verbatim>\<open>pod_mutator.go\<close>, \<^verbatim>\<open>envoy_template.go\<close>): the decision what to inject into a pod,
  the assignment of ports, the per-agent ConfigMaps and the mutated specification.  Answers of
  the API server are an argument, the \<open>api\<close>; what an admission writes to the cluster is a log
  that the operations extend, so that answers may depend on earlier writes.  A panic is a
  result of its own.  Log messages are not modelled, nor the source labels that only they use.
\<close>

section \<open>The cluster\<close>

record OwnerReference =
  ORKind :: string
  ORAPIVersion :: string
  ORName :: string
  ORUID :: string

datatype cwrite =
    CreateServiceAccount string string
  | ApplyConfigMap string string "string \<times> string" "OwnerReference option"

datatype create_result = Created | AlreadyExists | CreateErr goerr

record api =
  create_sa :: "cwrite list \<Rightarrow> string \<Rightarrow> string \<Rightarrow> create_result"
  get_sa :: "cwrite list \<Rightarrow> string \<Rightarrow> string \<Rightarrow> goerr option"
  get_cm :: "string \<Rightarrow> cm_reader"
  list_runtimes :: "string \<Rightarrow> goerr + AgentRuntime list"
  get_workload :: "cwrite list \<Rightarrow> string \<Rightarrow> string \<Rightarrow> string \<Rightarrow> goerr + string \<times> string"
  apply_cm :: "cwrite list \<Rightarrow> string \<Rightarrow> string \<Rightarrow> goerr option"

text \<open>
  \<open>get_workload\<close> returns name and UID of a workload of the given kind.  Labels and field
  ownership of the written objects are constants and left out.
\<close>

datatype 'a outcome = Panic | Fail goerr | Done 'a

definition ensureServiceAccount :: "api \<Rightarrow> string \<Rightarrow> string \<Rightarrow> cwrite list \<Rightarrow> cwrite list \<times> goerr option" where
  "ensureServiceAccount A ns name ws =
     (case create_sa A ws ns name of
        Created \<Rightarrow> (ws @ [CreateServiceAccount ns name], None)
      | AlreadyExists \<Rightarrow>
          (case get_sa A ws ns name of
             Some e \<Rightarrow> (ws, Some (Errorf [Lit ''failed to fetch existing ServiceAccount '', Lit ns, Lit ''/'', Lit name,
               Lit '': '', Wrap e]))
           | None \<Rightarrow> (ws, None))
      | CreateErr e \<Rightarrow>
          (ws, Some (Errorf [Lit ''failed to create ServiceAccount '', Lit ns, Lit ''/'', Lit name, Lit '': '', Wrap e])))"

definition perAgentConfigMapName :: "string \<Rightarrow> string" where
  "perAgentConfigMapName crName = ''authbridge-config-'' @ crName"

definition perAgentEnvoyConfigMapName :: "string \<Rightarrow> string" where
  "perAgentEnvoyConfigMapName crName = ''envoy-config-'' @ crName"

definition buildOwnerReference :: "api \<Rightarrow> cwrite list \<Rightarrow> string \<Rightarrow> string \<Rightarrow> OwnerReference option" where
  "buildOwnerReference A ws ns crName =
     (let ref = (\<lambda>kind version r. \<lparr>ORKind = kind, ORAPIVersion = version, ORName = fst r, ORUID = snd r\<rparr>) in
      case get_workload A ws ''Deployment'' ns crName of
        Inr r \<Rightarrow> Some (ref ''Deployment'' ''apps/v1'' r)
      | Inl e1 \<Rightarrow>
          (case get_workload A ws ''StatefulSet'' ns crName of
             Inr r \<Rightarrow> Some (ref ''StatefulSet'' ''apps/v1'' r)
           | Inl e2 \<Rightarrow>
               (case get_workload A ws ''Sandbox'' ns crName of
                  Inr r \<Rightarrow> Some (ref ''Sandbox'' ''agents.x-k8s.io/v1alpha1'' r)
                | Inl e3 \<Rightarrow> None)))"

definition apply_configmap ::
    "api \<Rightarrow> string \<Rightarrow> string \<Rightarrow> string \<Rightarrow> string \<times> string \<Rightarrow> cwrite list \<Rightarrow> cwrite list \<times> goerr option" where
  "apply_configmap A ns crName cmName data ws =
     (let owner = buildOwnerReference A ws ns crName in
      case apply_cm A ws ns cmName of
        Some e \<Rightarrow> (ws, Some e)
      | None \<Rightarrow> (ws @ [ApplyConfigMap ns cmName data owner], None))"

section \<open>Envoy configuration\<close>

text \<open>The template of \<^verbatim>\<open>envoy.yaml.tmpl\<close> is an argument, applied to the data computed here.\<close>

record envoyTemplateData =
  ETAdminPort :: int
  ETOutboundPort :: int
  ETInboundPort :: int
  ETExtProcPort :: int
  ETMTLSEnabled :: bool
  ETMTLSPermissive :: bool
  ETMTLSStrict :: bool

definition RenderEnvoyConfig :: "(envoyTemplateData \<Rightarrow> goerr + string) \<Rightarrow> ResolvedConfig \<Rightarrow> goerr + string" where
  "RenderEnvoyConfig tmpl c =
     (let effectiveMode = (if RMTLSMode c = [] then MTLSModePermissive else RMTLSMode c);
          px = Proxy (Platform c)
      in case tmpl \<lparr>ETAdminPort = AdminPort px, ETOutboundPort = Port px, ETInboundPort = InboundProxyPort px,
                ETExtProcPort = 9090, ETMTLSEnabled = (effectiveMode \<noteq> ModeDisabled),
                ETMTLSPermissive = (effectiveMode = MTLSModePermissive),
                ETMTLSStrict = (effectiveMode = MTLSModeStrict)\<rparr> of
           Inl e \<Rightarrow> Inl (Errorf [Lit ''executing envoy template: '', Wrap e])
         | Inr s \<Rightarrow> Inr s)"

section \<open>The mutator\<close>

text \<open>
  Besides the libraries, the mutator has the configuration getters.  They read the hot-reloaded
  snapshot anew each time: \<open>mConfig\<close> is what \<^verbatim>\<open>InjectAuthBridge\<close> reads first, \<open>mLater\<close> what the
  rendering of the ConfigMap reads afterwards.
\<close>

record mutator =
  mApi :: api
  mYaml :: yaml
  mTmpl :: "envoyTemplateData \<Rightarrow> goerr + string"
  mConfig :: PlatformConfig
  mLater :: PlatformConfig
  mGates :: FeatureGates

text \<open>Everything \<^verbatim>\<open>InjectAuthBridge\<close> has settled before it branches on the mode.\<close>

record plan =
  plNamespace :: string
  plName :: string
  plAnnotations :: "(string, string) gomap"
  plNs :: NamespaceConfig
  plRuntime :: "AgentRuntime option"
  plDecision :: InjectionDecision
  plMTLS :: string
  plEgress :: string
  plBridge :: string
  plSpire :: bool
  plBuilder :: ContainerBuilder
  plVolumes :: "Volume list"
  plMode :: string
  plInbound :: string

subsection \<open>Per-agent ConfigMap\<close>

definition base_config :: "yaml \<Rightarrow> string \<Rightarrow> (string, json) gomap option" where
  "base_config Y baseYAML =
     (if baseYAML = [] then Some []
      else case y_map Y baseYAML of Inl e \<Rightarrow> Some [] | Inr m \<Rightarrow> m)"

definition with_pipeline :: "NamespaceConfig \<Rightarrow> (string, json) gomap \<Rightarrow> (string, json) gomap" where
  "with_pipeline ns c =
     (if is_nil (map_of c ''pipeline'') then AList.update ''pipeline'' (JObj (synthesizePipeline ns)) c else c)"

definition with_preset ::
    "mutator \<Rightarrow> string \<Rightarrow> string \<Rightarrow> AgentRuntime option \<Rightarrow> (string, json) gomap \<Rightarrow> goerr + (string, json) gomap" where
  "with_preset M ns crName rt c =
     (case rt of
        None \<Rightarrow> Inr c
      | Some r \<Rightarrow>
          if PluginPreset (Spec r) = [] then Inr c
          else case synthesizePresetPipeline (as_obj (map_of c ''pipeline'')) (PluginPreset (Spec r))
                      (Plugins (Spec r)) (OnError (Spec r)) (IBAC (mLater M)) of
            Inl e \<Rightarrow> Inl (Errorf [Lit ''failed to render plugin preset '', Lit (quote (PluginPreset (Spec r))),
              Lit '' for '', Lit ns, Lit ''/'', Lit crName, Lit '': '', Wrap e])
          | Inr (pl, warnings) \<Rightarrow> Inr (AList.update ''pipeline'' (JObj pl) c))"

definition with_listener :: "(string \<times> string) list \<Rightarrow> (string, json) gomap \<Rightarrow> (string, json) gomap" where
  "with_listener overrides c =
     (if overrides = [] then c
      else
        (let l0 = (case as_obj (map_of c ''listener'') of None \<Rightarrow> [] | Some l \<Rightarrow> l)
         in AList.update ''listener'' (JObj (fold (\<lambda>(k, v) l. AList.update k (JStr v) l) overrides l0)) c))"

definition with_mtls :: "string \<Rightarrow> (string, json) gomap \<Rightarrow> (string, json) gomap" where
  "with_mtls mtlsMode c =
     (if mtlsMode \<noteq> [] \<and> mtlsMode \<noteq> ModeDisabled
      then AList.update ''mtls'' (JObj [(''mode'', JStr mtlsMode)]) c
      else AList.delete ''mtls'' c)"

definition with_bridge :: "string \<Rightarrow> (string, json) gomap \<Rightarrow> (string, json) gomap" where
  "with_bridge tlsBridgeMode c =
     (if tlsBridgeMode = ModeEnabled then
        AList.update ''tls_bridge''
          (JObj [(''mode'', JStr ModeEnabled), (''ca_dir'', JStr TLSBridgeCAMountPath)]) c
      else AList.delete ''tls_bridge'' c)"

definition with_spiffe :: "mutator \<Rightarrow> bool \<Rightarrow> (string, json) gomap \<Rightarrow> (string, json) gomap" where
  "with_spiffe M spireEnabled c =
     (if spireEnabled then
        AList.update ''spiffe'' (JObj [(''socket'', JStr (SocketPath (Spiffe (mLater M))))]) c
      else AList.delete ''spiffe'' c)"

definition outbound_routes :: "AgentRuntime option \<Rightarrow> OutboundRoute list" where
  "outbound_routes rt =
     (case rt of
        None \<Rightarrow> []
      | Some r \<Rightarrow> (case Auth (Spec r) of None \<Rightarrow> [] | Some rs \<Rightarrow> rs))"

definition with_routes :: "AgentRuntime option \<Rightarrow> (string, json) gomap \<Rightarrow> (string, json) gomap" where
  "with_routes rt c = (if outbound_routes rt = [] then c else point_at_routes AuthProxyRoutesFile c)"

text \<open>The rendered configuration; \<^const>\<open>None\<close> is the panic of a write to a nil map.\<close>

definition render_config ::
    "mutator \<Rightarrow> string \<Rightarrow> string \<Rightarrow> string \<Rightarrow> string \<Rightarrow> NamespaceConfig \<Rightarrow> (string \<times> string) list \<Rightarrow> string \<Rightarrow>
     string \<Rightarrow> bool \<Rightarrow> AgentRuntime option \<Rightarrow> (goerr + (string, json) gomap) option" where
  "render_config M ns crName mode baseYAML nsc overrides mtlsMode tlsBridgeMode spireEnabled rt =
     (case base_config (mYaml M) baseYAML of
        None \<Rightarrow> None
      | Some c \<Rightarrow>
          (case with_preset M ns crName rt (with_pipeline nsc c) of
             Inl e \<Rightarrow> Some (Inl e)
           | Inr c1 \<Rightarrow>
               Some (Inr (with_routes rt (with_spiffe M spireEnabled (with_bridge tlsBridgeMode
                 (with_mtls mtlsMode (with_listener overrides (AList.update ''mode'' (JStr mode) c1)))))))))"

definition routes_data :: "mutator \<Rightarrow> string \<Rightarrow> string \<Rightarrow> AgentRuntime option \<Rightarrow> goerr + string" where
  "routes_data M ns crName rt =
     (if outbound_routes rt = [] then Inr []
      else case y_marshal (mYaml M) (JArr (map route_entry (outbound_routes rt))) of
        Inl e \<Rightarrow> Inl (Errorf [Lit ''failed to marshal routes for '', Lit ns, Lit ''/'', Lit crName, Lit '': '', Wrap e])
      | Inr s \<Rightarrow> Inr s)"

definition apply_routes ::
    "mutator \<Rightarrow> string \<Rightarrow> string \<Rightarrow> string \<Rightarrow> cwrite list \<Rightarrow> cwrite list \<times> (string \<times> string) outcome" where
  "apply_routes M ns crName routes ws =
     (if routes = [] then (ws, Done (perAgentConfigMapName crName, []))
      else
        (let routesCMName = ''authbridge-routes-'' @ crName in
         case apply_configmap (mApi M) ns crName routesCMName (''routes.yaml'', routes) ws of
           (ws', Some e) \<Rightarrow> (ws', Fail (Errorf [Lit ''failed to apply routes ConfigMap '', Lit ns, Lit ''/'',
             Lit routesCMName, Lit '': '', Wrap e]))
         | (ws', None) \<Rightarrow> (ws', Done (perAgentConfigMapName crName, routesCMName))))"

text \<open>The names of the two ConfigMaps, the second empty if there are no routes.\<close>

definition ensurePerAgentConfigMap ::
    "mutator \<Rightarrow> string \<Rightarrow> string \<Rightarrow> string \<Rightarrow> string \<Rightarrow> NamespaceConfig \<Rightarrow> (string \<times> string) list \<Rightarrow> string \<Rightarrow>
     string \<Rightarrow> bool \<Rightarrow> AgentRuntime option \<Rightarrow> cwrite list \<Rightarrow> cwrite list \<times> (string \<times> string) outcome" where
  "ensurePerAgentConfigMap M ns crName mode baseYAML nsc overrides mtlsMode tlsBridgeMode spireEnabled rt ws =
     (case render_config M ns crName mode baseYAML nsc overrides mtlsMode tlsBridgeMode spireEnabled rt of
        None \<Rightarrow> (ws, Panic)
      | Some (Inl e) \<Rightarrow> (ws, Fail e)
      | Some (Inr c) \<Rightarrow>
          (case routes_data M ns crName rt of
             Inl e \<Rightarrow> (ws, Fail e)
           | Inr routes \<Rightarrow>
               (case y_marshal (mYaml M) (JObj c) of
                  Inl e \<Rightarrow> (ws, Fail (Errorf [Lit ''failed to marshal per-agent config for '', Lit ns, Lit ''/'',
                    Lit crName, Lit '': '', Wrap e]))
                | Inr data \<Rightarrow>
                    (case apply_configmap (mApi M) ns crName (perAgentConfigMapName crName) (''config.yaml'', data) ws of
                       (ws', Some e) \<Rightarrow> (ws', Fail (Errorf [Lit ''failed to apply per-agent ConfigMap '', Lit ns,
                         Lit ''/'', Lit (perAgentConfigMapName crName), Lit '': '', Wrap e]))
                     | (ws', None) \<Rightarrow> apply_routes M ns crName routes ws'))))"

definition ensurePerAgentEnvoyConfigMap ::
    "mutator \<Rightarrow> string \<Rightarrow> string \<Rightarrow> ResolvedConfig \<Rightarrow> cwrite list \<Rightarrow> cwrite list \<times> string outcome" where
  "ensurePerAgentEnvoyConfigMap M ns crName r ws =
     (let cmName = perAgentEnvoyConfigMapName crName in
      case RenderEnvoyConfig (mTmpl M) r of
        Inl e \<Rightarrow> (ws, Fail (Errorf [Lit ''rendering per-agent envoy.yaml for '', Lit ns, Lit ''/'', Lit crName,
          Lit '': '', Wrap e]))
      | Inr envoyYAML \<Rightarrow>
          (case apply_configmap (mApi M) ns crName cmName (''envoy.yaml'', envoyYAML) ws of
             (ws', Some e) \<Rightarrow> (ws', Fail (Errorf [Lit ''failed to apply per-agent envoy ConfigMap '', Lit ns,
               Lit ''/'', Lit cmName, Lit '': '', Wrap e]))
           | (ws', None) \<Rightarrow> (ws', Done cmName)))"

subsection \<open>Ports\<close>

definition wrap32 :: "int \<Rightarrow> int" where
  "wrap32 i = (i + 2 ^ 31) mod 2 ^ 32 - 2 ^ 31"

function next_free :: "int list \<Rightarrow> int \<Rightarrow> int" where
  "next_free used p = (if p \<in> set used \<and> p \<le> 65535 then next_free used (p + 1) else p)"
  by auto
termination
  by (relation "measure (\<lambda>(used, p). nat (65536 - p))") auto

declare next_free.simps [simp del]

definition findFreePort :: "int list \<Rightarrow> int \<Rightarrow> goerr + int" where
  "findFreePort used start =
     (let p = next_free used start in
      if p > 65535 then Inl (Errorf [Lit ''no free port available starting from '', Lit (itoa start)]) else Inr p)"

definition declared_ports :: "Container list \<Rightarrow> int list" where
  "declared_ports cs = concat (map (\<lambda>c. map pContainerPort (cPorts c)) cs)"

fun agent_index :: "Container list \<Rightarrow> nat option" where
  "agent_index [] = None"
| "agent_index (c # cs) =
     (if cName c \<noteq> AuthBridgeProxyContainerName \<and> cPorts c \<noteq> [] then Some 0 else map_option Suc (agent_index cs))"

definition original_port :: "Container list \<Rightarrow> int" where
  "original_port cs =
     (let p = (case agent_index cs of Some i \<Rightarrow> pContainerPort (hd (cPorts (cs ! i))) | None \<Rightarrow> 0)
      in if p = 0 then 8000 else p)"

definition sidecar_ports :: "PlatformConfig \<Rightarrow> int list" where
  "sidecar_ports c = [TransparentPort (Proxy c), TransparentInboundPort (Proxy c), 9091, 9093, 9094]"

definition init_armed :: "Container list \<Rightarrow> bool" where
  "init_armed inits =
     (case find (\<lambda>c. cName c = ProxyInitContainerName) inits of
        None \<Rightarrow> True
      | Some c \<Rightarrow> list_ex (\<lambda>e. eName e = ''INBOUND_TRANSPARENT_PORT'' \<and> eValue e \<noteq> []) (cEnv c))"

definition sidecar_clash :: "PlatformConfig \<Rightarrow> Container list \<Rightarrow> bool" where
  "sidecar_clash c cs \<longleftrightarrow>
     list_ex (\<lambda>k. cName k \<noteq> AuthBridgeProxyContainerName \<and>
       list_ex (\<lambda>p. pContainerPort p \<in> set (sidecar_ports c)) (cPorts k)) cs"

definition transparent_inbound :: "plan \<Rightarrow> PodSpec \<Rightarrow> bool" where
  "transparent_inbound pl p \<longleftrightarrow>
     plInbound pl = Transparent \<and> init_armed (InitContainers p) \<and>
     \<not> sidecar_clash (cfg (plBuilder pl)) (Containers p)"

record ports =
  poTransparent :: bool
  poOriginal :: int
  poAgent :: int
  poForward :: int

definition assign_ports :: "plan \<Rightarrow> PodSpec \<Rightarrow> goerr + ports" where
  "assign_ports pl p =
     (let orig = original_port (Containers p);
          used = sidecar_ports (cfg (plBuilder pl)) @ orig # declared_ports (Containers p);
          tr = transparent_inbound pl p;
          err = (\<lambda>e. Inl (Errorf [Lit ''proxy-sidecar port assignment: '', Wrap e]))
      in case (if tr then Inr 0 else findFreePort used (wrap32 (orig + 1))) of
           Inl e \<Rightarrow> err e
         | Inr agent \<Rightarrow>
             (case findFreePort (if tr then used else agent # used) 8081 of
                Inl e \<Rightarrow> err e
              | Inr fwd \<Rightarrow> Inr \<lparr>poTransparent = tr, poOriginal = orig, poAgent = agent, poForward = fwd\<rparr>))"

definition relocate_container :: "int \<Rightarrow> Container \<Rightarrow> Container" where
  "relocate_container new c =
     setOrAddEnv ''PORT'' (itoa new) (c\<lparr>cPorts := (hd (cPorts c))\<lparr>pContainerPort := new\<rparr> # tl (cPorts c)\<rparr>)"

definition relocate :: "ports \<Rightarrow> PodSpec \<Rightarrow> PodSpec" where
  "relocate po p =
     (if poTransparent po then p
      else case agent_index (Containers p) of
        None \<Rightarrow> p
      | Some i \<Rightarrow> p\<lparr>Containers := (Containers p)[i := relocate_container (poAgent po) (Containers p ! i)]\<rparr>)"

definition listener_overrides :: "plan \<Rightarrow> ports \<Rightarrow> (string \<times> string) list" where
  "listener_overrides pl po =
     (''forward_proxy_addr'', '':'' @ itoa (poForward po)) #
     (if poTransparent po then
        [(''inbound_interception'', Transparent),
         (''transparent_inbound_addr'', '':'' @ itoa (TransparentInboundPort (Proxy (cfg (plBuilder pl)))))]
      else
        [(''reverse_proxy_addr'', '':'' @ itoa (poOriginal po)),
         (''reverse_proxy_backend'', ''http://127.0.0.1:'' @ itoa (poAgent po))])"

subsection \<open>Sidecars\<close>

fun update_first :: "(Container \<Rightarrow> bool) \<Rightarrow> (Container \<Rightarrow> Container) \<Rightarrow> Container list \<Rightarrow> Container list" where
  "update_first P f [] = []"
| "update_first P f (c # cs) = (if P c then f c # cs else c # update_first P f cs)"

definition add_sidecar :: "plan \<Rightarrow> ports \<Rightarrow> PodSpec \<Rightarrow> PodSpec" where
  "add_sidecar pl po p =
     (let b = plBuilder pl;
          img = (if plMode pl = ModeLite then ImgAuthBridgeLite (Images (cfg b)) else ImgAuthBridge (Images (cfg b)))
      in if containerExists (Containers p) AuthBridgeProxyContainerName then p
         else p\<lparr>Containers := Containers p @
           [if poTransparent po then
              BuildProxySidecarContainerTransparent b (plSpire pl) img (TransparentInboundPort (Proxy (cfg b))) (poForward po)
            else BuildProxySidecarContainerWithPorts b (plSpire pl) img (poOriginal po) (poForward po)]\<rparr>)"

definition set_mtls_env :: "string \<Rightarrow> string \<Rightarrow> PodSpec \<Rightarrow> PodSpec" where
  "set_mtls_env name mtlsMode p =
     p\<lparr>Containers := update_first (\<lambda>c. cName c = name) (setOrAddEnv ''MTLS_MODE'' mtlsMode) (Containers p)\<rparr>"

definition add_proxy_env :: "int \<Rightarrow> PodSpec \<Rightarrow> PodSpec" where
  "add_proxy_env fwd p =
     p\<lparr>Containers := map (\<lambda>c. if cName c = AuthBridgeProxyContainerName then c else injectHTTPProxyEnv fwd c) (Containers p)\<rparr>"

definition add_proxy_init :: "plan \<Rightarrow> ports \<Rightarrow> PodSpec \<Rightarrow> PodSpec" where
  "add_proxy_init pl po p =
     (if plEgress pl \<noteq> EnforceRedirect \<or> containerExists (InitContainers p) ProxyInitContainerName then p
      else
        (let inbound = (if poTransparent po then
               \<lparr>iPort = TransparentInboundPort (Proxy (cfg (plBuilder pl))),
                SidecarPortsExclude = itoa (poForward po) @ '',9091,9093,9094'',
                PortsExclude = str_of (plAnnotations pl) ''rossoctl.io/inbound-ports-exclude''\<rparr>
             else no_inbound)
         in p\<lparr>InitContainers := InitContainers p @
              [BuildProxyInitContainerWithInbound (plBuilder pl) EnforceRedirect [] [] inbound]\<rparr>))"

definition config_volumes :: "plan \<Rightarrow> string \<times> string \<Rightarrow> Volume list" where
  "config_volumes pl cms =
     (let vs = overrideAuthBridgeConfigMapInVolumes (plVolumes pl) (fst cms)
      in if snd cms \<noteq> [] then overrideRoutesConfigMapInVolumes vs (snd cms) else vs)"

definition finish_pod :: "plan \<Rightarrow> Volume list \<Rightarrow> bool \<Rightarrow> PodSpec \<Rightarrow> PodSpec" where
  "finish_pod pl vols bridge p =
     (let p1 = ApplyKeycloakClientCredentialsSecretVolumes (plAnnotations pl) (add_volumes vols p);
          p2 = (if bridge then applyTLSBridgeMounts (plName pl) p1 else p1)
      in if plSpire pl then ensureFSGroup p2 else p2)"

text \<open>The pod of the proxy-sidecar and lite modes.\<close>

definition proxy_pod :: "plan \<Rightarrow> ports \<Rightarrow> string \<times> string \<Rightarrow> PodSpec \<Rightarrow> PodSpec" where
  "proxy_pod pl po cms p =
     finish_pod pl (config_volumes pl cms) (plBridge pl = ModeEnabled)
       (add_proxy_init pl po (add_proxy_env (poForward po)
         (set_mtls_env AuthBridgeProxyContainerName (plMTLS pl) (add_sidecar pl po (relocate po p)))))"

definition inject_proxy :: "mutator \<Rightarrow> plan \<Rightarrow> PodSpec \<Rightarrow> cwrite list \<Rightarrow> cwrite list \<times> (bool \<times> PodSpec) outcome" where
  "inject_proxy M pl p ws =
     (case assign_ports pl p of
        Inl e \<Rightarrow> (ws, Fail e)
      | Inr po \<Rightarrow>
          (case ensurePerAgentConfigMap M (plNamespace pl) (plName pl) ModeProxySidecar (AuthBridgeRuntimeYAML (plNs pl))
                  (plNs pl) (listener_overrides pl po) (plMTLS pl) (plBridge pl) (plSpire pl) (plRuntime pl) ws of
             (ws', Panic) \<Rightarrow> (ws', Panic)
           | (ws', Fail e) \<Rightarrow> (ws', Fail (Errorf [Lit ''proxy-sidecar per-agent ConfigMap: '', Wrap e]))
           | (ws', Done cms) \<Rightarrow> (ws', Done (True, proxy_pod pl po cms p))))"

definition add_envoy :: "plan \<Rightarrow> PodSpec \<Rightarrow> PodSpec" where
  "add_envoy pl p =
     (if Inject (DEnvoyProxy (plDecision pl)) \<and> \<not> containerExists (Containers p) EnvoyProxyContainerName
      then p\<lparr>Containers := Containers p @ [BuildEnvoyProxyContainerWithSpireOption (plBuilder pl) (plSpire pl)]\<rparr>
      else p)"

definition add_envoy_init :: "plan \<Rightarrow> PodSpec \<Rightarrow> PodSpec" where
  "add_envoy_init pl p =
     (if Inject (DProxyInit (plDecision pl)) \<and> \<not> containerExists (InitContainers p) ProxyInitContainerName
      then p\<lparr>InitContainers := InitContainers p @ [BuildProxyInitContainer (plBuilder pl) ''redirect''
             (str_of (plAnnotations pl) ''rossoctl.io/outbound-ports-exclude'')
             (str_of (plAnnotations pl) ''rossoctl.io/inbound-ports-exclude'')]\<rparr>
      else p)"

text \<open>The pod of the envoy-sidecar mode.\<close>

definition envoy_pod :: "plan \<Rightarrow> string \<times> string \<Rightarrow> string \<Rightarrow> PodSpec \<Rightarrow> PodSpec" where
  "envoy_pod pl cms envoyCM p =
     finish_pod pl (overrideEnvoyConfigMapInVolumes (config_volumes pl cms) envoyCM) False
       (add_envoy_init pl (set_mtls_env EnvoyProxyContainerName (plMTLS pl) (add_envoy pl p)))"

definition inject_envoy :: "mutator \<Rightarrow> plan \<Rightarrow> PodSpec \<Rightarrow> cwrite list \<Rightarrow> cwrite list \<times> (bool \<times> PodSpec) outcome" where
  "inject_envoy M pl p ws =
     (case ensurePerAgentConfigMap M (plNamespace pl) (plName pl) ModeEnvoySidecar (AuthBridgeRuntimeYAML (plNs pl))
             (plNs pl) [] (plMTLS pl) [] (plSpire pl) (plRuntime pl) ws of
        (ws', Panic) \<Rightarrow> (ws', Panic)
      | (ws', Fail e) \<Rightarrow> (ws', Fail (Errorf [Lit ''envoy-sidecar per-agent ConfigMap: '', Wrap e]))
      | (ws', Done cms) \<Rightarrow>
          (case ensurePerAgentEnvoyConfigMap M (plNamespace pl) (plName pl)
                  ((ResolveConfig (mYaml M) (Some (mConfig M)) (Some (plNs pl)))\<lparr>RMTLSMode := plMTLS pl\<rparr>) ws' of
             (ws'', Panic) \<Rightarrow> (ws'', Panic)
           | (ws'', Fail e) \<Rightarrow> (ws'', Fail (Errorf [Lit ''envoy-sidecar per-agent envoy ConfigMap: '', Wrap e]))
           | (ws'', Done envoyCM) \<Rightarrow> (ws'', Done (True, envoy_pod pl cms envoyCM p))))"

subsection \<open>InjectAuthBridge\<close>

definition spire_account ::
    "mutator \<Rightarrow> string \<Rightarrow> string \<Rightarrow> string \<Rightarrow> bool \<Rightarrow> PodSpec \<Rightarrow> cwrite list \<Rightarrow> cwrite list \<times> PodSpec outcome" where
  "spire_account M msg ns crName need p ws =
     (if need \<and> (ServiceAccountName p = [] \<or> ServiceAccountName p = ''default'') then
        (case ensureServiceAccount (mApi M) ns crName ws of
           (ws', Some e) \<Rightarrow> (ws', Fail (Errorf [Lit msg, Wrap e]))
         | (ws', None) \<Rightarrow> (ws', Done (p\<lparr>ServiceAccountName := crName\<rparr>)))
      else (ws, Done p))"

definition find_runtime :: "api \<Rightarrow> string \<Rightarrow> string \<Rightarrow> string \<Rightarrow> AgentRuntime option" where
  "find_runtime A ns crName workloadKind =
     (case list_runtimes A ns of
        Inl e \<Rightarrow> None
      | Inr items \<Rightarrow>
          find (\<lambda>rt. TName (SpecTargetRef (Spec rt)) = crName \<and> Kind (SpecTargetRef (Spec rt)) = workloadKind) items)"

definition builder_for :: "mutator \<Rightarrow> NamespaceConfig \<Rightarrow> ContainerBuilder" where
  "builder_for M nsc =
     (if PerWorkloadConfigResolution (mGates M)
      then NewResolvedContainerBuilder (mYaml M) (Some (ResolveConfig (mYaml M) (Some (mConfig M)) (Some nsc)))
      else NewContainerBuilder (Some (mConfig M)))"

definition volumes_for :: "mutator \<Rightarrow> bool \<Rightarrow> Volume list" where
  "volumes_for M spireEnabled =
     (if PerWorkloadConfigResolution (mGates M) then BuildResolvedVolumes spireEnabled []
      else if spireEnabled then BuildRequiredVolumes else BuildRequiredVolumesNoSpire)"

definition make_plan ::
    "mutator \<Rightarrow> string \<Rightarrow> string \<Rightarrow> string \<Rightarrow> (string, string) gomap \<Rightarrow> (string, string) gomap \<Rightarrow> plan option" where
  "make_plan M ns crName workloadKind labels annotations =
     (let nsc = ReadNamespaceConfig (get_cm (mApi M) ns);
          doc = AuthBridgeRuntimeYAML nsc;
          d = Evaluate (Some (mGates M)) labels;
          mtls = resolve_mtls (mYaml M) doc;
          spire = (Inject (DSpiffeHelper d) \<or> mtls \<noteq> ModeDisabled)
      in case resolve_egress (mYaml M) (mConfig M) doc of
           None \<Rightarrow> None
         | Some egress \<Rightarrow> Some
             \<lparr>plNamespace = ns, plName = crName, plAnnotations = annotations, plNs = nsc,
              plRuntime = find_runtime (mApi M) ns crName workloadKind, plDecision = d,
              plMTLS = mtls, plEgress = egress, plBridge = resolve_tls_bridge (mYaml M) doc,
              plSpire = spire, plBuilder = builder_for M nsc, plVolumes = volumes_for M spire,
              plMode = resolve_mode (mYaml M) doc annotations,
              plInbound = resolve_inbound (mYaml M) (mConfig M) doc egress\<rparr>)"

definition inject_planned :: "mutator \<Rightarrow> plan option \<Rightarrow> PodSpec \<Rightarrow> cwrite list \<Rightarrow> cwrite list \<times> (bool \<times> PodSpec) outcome" where
  "inject_planned M plan p ws =
     (case plan of
        None \<Rightarrow> (ws, Panic)
      | Some pl \<Rightarrow>
          if plMode pl = ModeWaypoint then (ws, Done (False, p))
          else if plMode pl = ModeProxySidecar \<or> plMode pl = ModeLite then inject_proxy M pl p ws
          else inject_envoy M pl p ws)"

definition InjectAuthBridge ::
    "mutator \<Rightarrow> PodSpec \<Rightarrow> string \<Rightarrow> string \<Rightarrow> string \<Rightarrow> (string, string) gomap \<Rightarrow> (string, string) gomap \<Rightarrow>
     cwrite list \<Rightarrow> cwrite list \<times> (bool \<times> PodSpec) outcome" where
  "InjectAuthBridge M p ns crName workloadKind labels annotations ws =
     (let d = Evaluate (Some (mGates M)) labels;
          spire = Inject (DSpiffeHelper d)
      in if \<not> prefilter (mGates M) labels \<or> \<not> AnyInjected d then (ws, Done (False, p))
         else case spire_account M ''failed to ensure service account: '' ns crName spire p ws of
           (ws1, Panic) \<Rightarrow> (ws1, Panic)
         | (ws1, Fail e) \<Rightarrow> (ws1, Fail e)
         | (ws1, Done p1) \<Rightarrow>
             (let mtls = resolve_mtls (mYaml M) (AuthBridgeRuntimeYAML (ReadNamespaceConfig (get_cm (mApi M) ns)))
              in case spire_account M ''failed to ensure service account for mtls auto-spire: '' ns crName
                        (mtls \<noteq> ModeDisabled \<and> \<not> spire) p1 ws1 of
                   (ws2, Panic) \<Rightarrow> (ws2, Panic)
                 | (ws2, Fail e) \<Rightarrow> (ws2, Fail e)
                 | (ws2, Done p2) \<Rightarrow>
                     inject_planned M (make_plan M ns crName workloadKind labels annotations) p2 ws2))"

section \<open>Ports are disjoint\<close>

lemma next_free_spec:
  "p \<le> next_free used p \<and> (next_free used p \<le> 65535 \<longrightarrow> next_free used p \<notin> set used) \<and>
   (\<forall>q. p \<le> q \<and> q < next_free used p \<longrightarrow> q \<in> set used)"
proof (induction used p rule: next_free.induct)
  case (1 used p)
  show ?case
  proof (cases "p \<in> set used \<and> p \<le> 65535")
    case True
    have "q \<in> set used" if "p \<le> q" "q < next_free used (p + 1)" for q
      using 1 [OF True] that True by (cases "q = p") auto
    then show ?thesis using 1 [OF True] True by (auto simp: next_free.simps [of used p])
  qed (auto simp: next_free.simps [of used p])
qed

lemma findFreePort_spec:
  "findFreePort used start = Inr p \<Longrightarrow> start \<le> p \<and> p \<le> 65535 \<and> p \<notin> set used"
  using next_free_spec [of start used] by (auto simp: findFreePort_def Let_def split: if_splits)

lemma findFreePort_fails:
  "findFreePort used start = Inl e \<Longrightarrow> start \<le> 65535 \<Longrightarrow> {start..65535} \<subseteq> set used"
  using next_free_spec [of start used] by (auto simp: findFreePort_def Let_def split: if_splits)

lemma wrap32_id: "- (2 ^ 31) \<le> i \<Longrightarrow> i < 2 ^ 31 \<Longrightarrow> wrap32 i = i"
  by (simp add: wrap32_def)

lemma transparent_disjoint:
  assumes "transparent_inbound pl p" "\<not> containerExists (Containers p) AuthBridgeProxyContainerName"
  shows "set (declared_ports (Containers p)) \<inter> set (sidecar_ports (cfg (plBuilder pl))) = {}"
proof (rule ccontr)
  assume "\<not> ?thesis"
  then obtain c q where "c \<in> set (Containers p)" "q \<in> set (cPorts c)"
    "pContainerPort q \<in> set (sidecar_ports (cfg (plBuilder pl)))"
    unfolding declared_ports_def by auto
  moreover from this have "cName c \<noteq> AuthBridgeProxyContainerName" using assms(2) by (metis containerExists_iff image_eqI)
  ultimately have "sidecar_clash (cfg (plBuilder pl)) (Containers p)"
    unfolding sidecar_clash_def list_ex_iff by blast
  then show False using assms(1) by (simp add: transparent_inbound_def)
qed

lemma assign_ports_spec:
  assumes "assign_ports pl p = Inr po"
  shows "poTransparent po = transparent_inbound pl p" "poOriginal po = original_port (Containers p)"
    "8081 \<le> poForward po" "poForward po \<le> 65535"
    "poForward po \<notin> set (sidecar_ports (cfg (plBuilder pl)) @ poOriginal po # declared_ports (Containers p))"
    "\<not> poTransparent po \<Longrightarrow> wrap32 (poOriginal po + 1) \<le> poAgent po \<and> poAgent po \<le> 65535 \<and>
       poAgent po \<notin> set (sidecar_ports (cfg (plBuilder pl)) @ poOriginal po # declared_ports (Containers p)) \<and>
       poForward po \<noteq> poAgent po"
  using assms
  by (auto simp: assign_ports_def Let_def split: if_splits sum.splits dest!: findFreePort_spec)

section \<open>How an injection ends\<close>

lemma spire_account_done:
  "spire_account M msg ns cr need p ws = (ws', Done p') \<Longrightarrow>
   Containers p' = Containers p \<and> InitContainers p' = InitContainers p \<and> Volumes p' = Volumes p"
  by (auto simp: spire_account_def split: if_splits prod.splits option.splits)

lemma inject_envoy_done:
  assumes "inject_envoy M pl p ws = (ws', Done (b, p'))"
  shows "b \<and> (\<exists>cms envoyCM. p' = envoy_pod pl cms envoyCM p)"
proof -
  obtain ws1 o1 where e1: "ensurePerAgentConfigMap M (plNamespace pl) (plName pl) ModeEnvoySidecar
      (AuthBridgeRuntimeYAML (plNs pl)) (plNs pl) [] (plMTLS pl) [] (plSpire pl) (plRuntime pl) ws = (ws1, o1)"
    by fastforce
  obtain cms where o1: "o1 = Done cms" using assms e1 by (cases o1) (auto simp: inject_envoy_def)
  obtain ws2 o2 where e2: "ensurePerAgentEnvoyConfigMap M (plNamespace pl) (plName pl)
      ((ResolveConfig (mYaml M) (Some (mConfig M)) (Some (plNs pl)))\<lparr>RMTLSMode := plMTLS pl\<rparr>) ws1 = (ws2, o2)"
    by fastforce
  obtain cm where "o2 = Done cm" using assms e1 o1 e2 by (cases o2) (auto simp: inject_envoy_def)
  then have "b" "p' = envoy_pod pl cms cm p" using assms e1 o1 e2 by (auto simp: inject_envoy_def)
  then show ?thesis by blast
qed

lemma inject_proxy_done:
  assumes "inject_proxy M pl p ws = (ws', Done (b, p'))"
  shows "b \<and> (\<exists>po cms. assign_ports pl p = Inr po \<and> p' = proxy_pod pl po cms p)"
proof -
  obtain po where po: "assign_ports pl p = Inr po"
    using assms by (auto simp: inject_proxy_def split: sum.splits)
  obtain ws1 o1 where e1: "ensurePerAgentConfigMap M (plNamespace pl) (plName pl) ModeProxySidecar
      (AuthBridgeRuntimeYAML (plNs pl)) (plNs pl) (listener_overrides pl po) (plMTLS pl) (plBridge pl)
      (plSpire pl) (plRuntime pl) ws = (ws1, o1)"
    by fastforce
  obtain cms where "o1 = Done cms" using assms po e1 by (cases o1) (auto simp: inject_proxy_def)
  then have "b" "p' = proxy_pod pl po cms p" using assms po e1 by (auto simp: inject_proxy_def)
  then show ?thesis using po by blast
qed

lemma make_plan_fields:
  assumes "make_plan M ns cr kind labels ann = Some pl"
  shows "plMode pl = resolve_mode (mYaml M) (AuthBridgeRuntimeYAML (plNs pl)) ann"
    "plInbound pl = resolve_inbound (mYaml M) (mConfig M) (AuthBridgeRuntimeYAML (plNs pl)) (plEgress pl)"
    "resolve_egress (mYaml M) (mConfig M) (AuthBridgeRuntimeYAML (plNs pl)) = Some (plEgress pl)"
    "plNs pl = ReadNamespaceConfig (get_cm (mApi M) ns)" "plName pl = cr" "plAnnotations pl = ann"
    "cfg (plBuilder pl) = mConfig M" "plVolumes pl = volumes_for M (plSpire pl)"
    "plDecision pl = Evaluate (Some (mGates M)) labels"
  using assms
  by (auto simp: make_plan_def Let_def builder_for_def NewResolvedContainerBuilder_def NewContainerBuilder_def
      ResolveConfig_def split: option.splits)

text \<open>An injection that mutates the pod ends in one of the two shapes.\<close>

lemma inject_cases:
  assumes "InjectAuthBridge M p ns cr kind labels ann ws = (ws', Done (True, p'))"
  obtains pl p0 where "make_plan M ns cr kind labels ann = Some pl" "prefilter (mGates M) labels"
      "Containers p0 = Containers p" "InitContainers p0 = InitContainers p" "Volumes p0 = Volumes p"
      "(plMode pl = ModeProxySidecar \<or> plMode pl = ModeLite) \<and>
         (\<exists>po cms. assign_ports pl p0 = Inr po \<and> p' = proxy_pod pl po cms p0) \<or>
       plMode pl = ModeEnvoySidecar \<and> (\<exists>cms envoyCM. p' = envoy_pod pl cms envoyCM p0)"
proof -
  let ?spire = "Inject (DSpiffeHelper (Evaluate (Some (mGates M)) labels))"
  let ?mtls = "resolve_mtls (mYaml M) (AuthBridgeRuntimeYAML (ReadNamespaceConfig (get_cm (mApi M) ns)))"
  have pre: "prefilter (mGates M) labels" "AnyInjected (Evaluate (Some (mGates M)) labels)"
    using assms by (auto simp: InjectAuthBridge_def Let_def split: if_splits)
  obtain ws1 o1 where s1: "spire_account M ''failed to ensure service account: '' ns cr ?spire p ws = (ws1, o1)"
    by fastforce
  obtain p1 where o1: "o1 = Done p1"
    using assms pre s1 by (cases o1) (auto simp: InjectAuthBridge_def Let_def)
  obtain ws2 o2 where s2: "spire_account M ''failed to ensure service account for mtls auto-spire: '' ns cr
      (?mtls \<noteq> ModeDisabled \<and> \<not> ?spire) p1 ws1 = (ws2, o2)"
    by fastforce
  obtain p2 where o2: "o2 = Done p2"
    using assms pre s1 o1 s2 by (cases o2) (auto simp: InjectAuthBridge_def Let_def)
  have inj: "inject_planned M (make_plan M ns cr kind labels ann) p2 ws2 = (ws', Done (True, p'))"
    using assms pre s1 o1 s2 o2 by (simp add: InjectAuthBridge_def Let_def)
  then obtain pl where pl: "make_plan M ns cr kind labels ann = Some pl"
    by (auto simp: inject_planned_def split: option.splits)
  have mode: "plMode pl \<in> {ModeProxySidecar, ModeEnvoySidecar, ModeLite, ModeWaypoint}"
    using make_plan_fields(1) [OF pl] resolve_mode_cases by simp
  have shape: "(plMode pl = ModeProxySidecar \<or> plMode pl = ModeLite) \<and>
         (\<exists>po cms. assign_ports pl p2 = Inr po \<and> p' = proxy_pod pl po cms p2) \<or>
       plMode pl = ModeEnvoySidecar \<and> (\<exists>cms envoyCM. p' = envoy_pod pl cms envoyCM p2)"
    using inj pl mode inject_proxy_done [of M pl p2 ws2 ws' True p'] inject_envoy_done [of M pl p2 ws2 ws' True p']
    by (auto simp: inject_planned_def split: if_splits)
  have "Containers p2 = Containers p" "InitContainers p2 = InitContainers p" "Volumes p2 = Volumes p"
    using spire_account_done [OF s1 [unfolded o1]] spire_account_done [OF s2 [unfolded o2]] by auto
  then show thesis using that pl pre(1) shape by blast
qed

section \<open>What the steps keep\<close>

text \<open>Names and ports of containers, which most steps leave alone.\<close>

definition face :: "Container \<Rightarrow> string \<times> ContainerPort list" where
  "face c = (cName c, cPorts c)"

lemma face_eq: "map face cs = map face ds \<longleftrightarrow> map cName cs = map cName ds \<and> map cPorts cs = map cPorts ds"
proof (induction cs arbitrary: ds)
  case (Cons c cs)
  then show ?case by (cases ds) (auto simp: face_def)
qed auto

lemma declared_ports_of_face: "declared_ports cs = concat (map (\<lambda>f. map pContainerPort (snd f)) (map face cs))"
  by (simp add: declared_ports_def face_def comp_def)

lemma declared_ports_face: "map face cs = map face ds \<Longrightarrow> declared_ports cs = declared_ports ds"
  unfolding declared_ports_of_face by simp

lemma update_first_face: "(\<And>c. face (f c) = face c) \<Longrightarrow> map face (update_first P f cs) = map face cs"
  by (induction cs) auto

lemma set_mtls_env_keeps [pod_simps]:
  "map face (Containers (set_mtls_env n v p)) = map face (Containers p)"
  "InitContainers (set_mtls_env n v p) = InitContainers p" "Volumes (set_mtls_env n v p) = Volumes p"
  by (simp_all add: set_mtls_env_def update_first_face face_def pod_simps)

lemma add_proxy_env_keeps [pod_simps]:
  "map face (Containers (add_proxy_env port p)) = map face (Containers p)"
  "InitContainers (add_proxy_env port p) = InitContainers p" "Volumes (add_proxy_env port p) = Volumes p"
  by (simp_all add: add_proxy_env_def face_def pod_simps)

lemma add_proxy_init_keeps [pod_simps]:
  "Containers (add_proxy_init pl po p) = Containers p" "Volumes (add_proxy_init pl po p) = Volumes p"
  by (simp_all add: add_proxy_init_def Let_def)

lemma add_envoy_init_keeps [pod_simps]:
  "Containers (add_envoy_init pl p) = Containers p" "Volumes (add_envoy_init pl p) = Volumes p"
  by (simp_all add: add_envoy_init_def)

lemma add_sidecar_keeps [pod_simps]:
  "InitContainers (add_sidecar pl po p) = InitContainers p" "Volumes (add_sidecar pl po p) = Volumes p"
  by (simp_all add: add_sidecar_def Let_def)

lemma add_envoy_keeps [pod_simps]:
  "InitContainers (add_envoy pl p) = InitContainers p" "Volumes (add_envoy pl p) = Volumes p"
  by (simp_all add: add_envoy_def)

lemma relocate_keeps [pod_simps]:
  "InitContainers (relocate po p) = InitContainers p" "Volumes (relocate po p) = Volumes p"
  "length (Containers (relocate po p)) = length (Containers p)"
  by (simp_all add: relocate_def split: option.splits)

lemma finish_pod_keeps [pod_simps]:
  "map face (Containers (finish_pod pl vs b p)) = map face (Containers p)"
  "InitContainers (finish_pod pl vs b p) = InitContainers p"
  by (simp_all add: finish_pod_def Let_def face_eq pod_simps)

lemma proxy_pod_face:
  "map face (Containers (proxy_pod pl po cms p)) = map face (Containers (add_sidecar pl po (relocate po p)))"
  "InitContainers (proxy_pod pl po cms p) = InitContainers (add_proxy_init pl po
     (add_proxy_env (poForward po) (set_mtls_env AuthBridgeProxyContainerName (plMTLS pl) (add_sidecar pl po (relocate po p)))))"
  by (simp_all add: proxy_pod_def pod_simps)

lemma envoy_pod_face:
  "map face (Containers (envoy_pod pl cms cm p)) = map face (Containers (add_envoy pl p))"
  by (simp add: envoy_pod_def pod_simps)

lemma names_of_face: "map face cs = map face ds \<Longrightarrow> map cName cs = map cName ds"
  by (simp add: face_eq)

lemma relocate_names [pod_simps]: "map cName (Containers (relocate po p)) = map cName (Containers p)"
proof -
  have "map cName (cs[i := relocate_container a (cs ! i)]) = map cName cs" for i a cs
    by (simp add: map_update relocate_container_def pod_simps)
      (metis list_update_id map_update)
  then show ?thesis by (simp add: relocate_def split: option.splits)
qed

lemma agent_index_ports:
  assumes "\<not> containerExists cs AuthBridgeProxyContainerName"
  shows "case agent_index cs of
      None \<Rightarrow> declared_ports cs = []
    | Some i \<Rightarrow> i < length cs \<and> (\<exists>rest. declared_ports cs = pContainerPort (hd (cPorts (cs ! i))) # rest \<and>
        declared_ports (cs[i := relocate_container a (cs ! i)]) = a # rest)"
  using assms
proof (induction cs)
  case Nil
  then show ?case by (simp add: declared_ports_def)
next
  case (Cons c cs)
  have n: "cName c \<noteq> AuthBridgeProxyContainerName" "\<not> containerExists cs AuthBridgeProxyContainerName"
    using Cons.prems by (auto simp: containerExists_iff)
  show ?case
  proof (cases "cPorts c = []")
    case True
    then show ?thesis using Cons.IH [OF n(2)] by (auto simp: declared_ports_def split: option.splits)
  next
    case False
    then obtain q qs where "cPorts c = q # qs" by (cases "cPorts c") auto
    then show ?thesis using n by (simp add: declared_ports_def relocate_container_def pod_simps)
  qed
qed

lemma add_sidecar_last:
  assumes "\<not> containerExists (Containers p) AuthBridgeProxyContainerName"
  shows "map face (Containers (add_sidecar pl po p)) = map face (Containers p) @
    [(AuthBridgeProxyContainerName,
      [if poTransparent po then tcp ''transparent-in'' (TransparentInboundPort (Proxy (cfg (plBuilder pl))))
       else tcp ''reverse-proxy'' (poOriginal po), tcp ''forward-proxy'' (poForward po)])]"
  using assms
  by (simp add: add_sidecar_def Let_def face_def BuildProxySidecarContainerTransparent_def
      BuildProxySidecarContainerWithPorts_def buildProxySidecarContainer_def)

lemma containerExists_names: "map cName cs = map cName ds \<Longrightarrow> containerExists cs n = containerExists ds n"
  by (metis containerExists_iff list.set_map)

end
