(* ===== verification/WH_Inject.thy ===== *)
theory WH_Inject
  imports WH_Mutator
begin

text \<open>
  Properties of the mutated pod: its ports, the guards of interception, who can read the key of
  the TLS bridge, which settings an injection depends on, and when it fails.  A concrete
  admission at hand serves as witness.
\<close>

section \<open>Ports of the mutated pod\<close>

lemma relocated_ports:
  assumes "\<not> containerExists (Containers p) AuthBridgeProxyContainerName" "\<not> poTransparent po"
  shows "declared_ports (Containers (relocate po p)) =
    (case declared_ports (Containers p) of [] \<Rightarrow> [] | _ # rest \<Rightarrow> poAgent po # rest)"
proof (cases "agent_index (Containers p)")
  case None
  then show ?thesis using agent_index_ports [OF assms(1)] assms(2) by (simp add: relocate_def)
next
  case (Some i)
  then obtain rest where "declared_ports (Containers p) = pContainerPort (hd (cPorts (Containers p ! i))) # rest"
    "declared_ports ((Containers p)[i := relocate_container (poAgent po) (Containers p ! i)]) = poAgent po # rest"
    using agent_index_ports [OF assms(1), of "poAgent po"] by auto
  then show ?thesis using Some assms(2) by (simp add: relocate_def)
qed

lemma original_port_first:
  assumes "\<not> containerExists cs AuthBridgeProxyContainerName" "declared_ports cs = q # rest" "q \<noteq> 0"
  shows "original_port cs = q"
proof (cases "agent_index cs")
  case None
  then show ?thesis using agent_index_ports [OF assms(1)] assms(2) by simp
next
  case (Some i)
  then show ?thesis using agent_index_ports [OF assms(1)] assms(2,3) by (auto simp: original_port_def Let_def)
qed

lemma proxy_pod_ports:
  assumes po: "assign_ports pl p = Inr po"
    and fresh: "\<not> containerExists (Containers p) AuthBridgeProxyContainerName"
  defines "inb \<equiv> if poTransparent po then TransparentInboundPort (Proxy (cfg (plBuilder pl))) else poOriginal po"
  shows "declared_ports (Containers (proxy_pod pl po cms p)) =
      declared_ports (Containers (relocate po p)) @ [inb, poForward po]"
    and "face (last (Containers (proxy_pod pl po cms p))) =
      (AuthBridgeProxyContainerName,
       [tcp (if poTransparent po then ''transparent-in'' else ''reverse-proxy'') inb, tcp ''forward-proxy'' (poForward po)])"
proof -
  let ?q = "proxy_pod pl po cms p"
  let ?side = "(AuthBridgeProxyContainerName,
    [tcp (if poTransparent po then ''transparent-in'' else ''reverse-proxy'') inb, tcp ''forward-proxy'' (poForward po)])"
  have "\<not> containerExists (Containers (relocate po p)) AuthBridgeProxyContainerName"
    using fresh containerExists_names [OF relocate_names] by simp
  then have f: "map face (Containers ?q) = map face (Containers (relocate po p)) @ [?side]"
    unfolding proxy_pod_face(1) by (simp add: add_sidecar_last inb_def)
  show "declared_ports (Containers ?q) = declared_ports (Containers (relocate po p)) @ [inb, poForward po]"
    unfolding declared_ports_of_face f by (simp add: tcp_def)
  have "map face (Containers ?q) \<noteq> []" unfolding f by simp
  then have "Containers ?q \<noteq> []" by (metis map_is_Nil_conv)
  then have "face (last (Containers ?q)) = last (map face (Containers ?q))" by (rule last_map [symmetric])
  also have "\<dots> = ?side" unfolding f by simp
  finally show "face (last (Containers ?q)) = ?side" .
qed

lemma envoy_pod_no_authbridge:
  "\<not> containerExists (Containers p) AuthBridgeProxyContainerName \<Longrightarrow>
   \<not> containerExists (Containers (envoy_pod pl cms cm p)) AuthBridgeProxyContainerName"
  using containerExists_names [OF names_of_face [OF envoy_pod_face]]
  by (auto simp: add_envoy_def containerExists_iff BuildEnvoyProxyContainerWithSpireOption_def container_names)

lemma proxy_ports_distinct:
  assumes po: "assign_ports pl p = Inr po"
    and fresh: "\<not> containerExists (Containers p) AuthBridgeProxyContainerName"
    and dist: "distinct (declared_ports (Containers p))" "0 \<notin> set (declared_ports (Containers p))"
  shows "distinct (declared_ports (Containers (proxy_pod pl po cms p)))"
proof (cases "poTransparent po")
  case True
  then have tr: "transparent_inbound pl p" using assign_ports_spec(1) [OF po] by simp
  have "TransparentInboundPort (Proxy (cfg (plBuilder pl))) \<notin> set (declared_ports (Containers p))"
    using transparent_disjoint [OF tr fresh] by (auto simp: sidecar_ports_def)
  moreover have "declared_ports (Containers (proxy_pod pl po cms p)) = declared_ports (Containers p) @
      [TransparentInboundPort (Proxy (cfg (plBuilder pl))), poForward po]"
    using proxy_pod_ports(1) [OF po fresh] True by (simp add: relocate_def)
  ultimately show ?thesis
    using dist assign_ports_spec(5) [OF po] by (simp add: sidecar_ports_def)
next
  case False
  have q: "declared_ports (Containers (proxy_pod pl po cms p)) =
      declared_ports (Containers (relocate po p)) @ [poOriginal po, poForward po]"
    using proxy_pod_ports(1) [OF po fresh] False by simp
  note a = assign_ports_spec(5) [OF po] assign_ports_spec(6) [OF po False] assign_ports_spec(2) [OF po]
  show ?thesis
  proof (cases "declared_ports (Containers p)")
    case Nil
    then show ?thesis using q a relocated_ports [OF fresh False] by simp
  next
    case (Cons first rest)
    then have "first = original_port (Containers p)" using original_port_first [OF fresh Cons] dist(2) by simp
    then show ?thesis using q a dist(1) relocated_ports [OF fresh False] Cons by simp
  qed
qed

lemma proxy_shape:
  assumes inj: "InjectAuthBridge M p ns cr kind labels ann ws = (ws', Done (True, p'))"
    and fresh: "\<not> containerExists (Containers p) AuthBridgeProxyContainerName"
    and side: "containerExists (Containers p') AuthBridgeProxyContainerName"
  obtains pl p0 po cms where "make_plan M ns cr kind labels ann = Some pl" "assign_ports pl p0 = Inr po"
    "p' = proxy_pod pl po cms p0" "Containers p0 = Containers p" "InitContainers p0 = InitContainers p"
    "Volumes p0 = Volumes p" "cfg (plBuilder pl) = mConfig M"
    "face (last (Containers p')) = (AuthBridgeProxyContainerName,
       [if poTransparent po then tcp ''transparent-in'' (TransparentInboundPort (Proxy (mConfig M)))
        else tcp ''reverse-proxy'' (original_port (Containers p)), tcp ''forward-proxy'' (poForward po)])"
proof -
  obtain pl p0 where pl: "make_plan M ns cr kind labels ann = Some pl"
    and same: "Containers p0 = Containers p" "InitContainers p0 = InitContainers p" "Volumes p0 = Volumes p"
    and shape: "(plMode pl = ModeProxySidecar \<or> plMode pl = ModeLite) \<and>
         (\<exists>po cms. assign_ports pl p0 = Inr po \<and> p' = proxy_pod pl po cms p0) \<or>
       plMode pl = ModeEnvoySidecar \<and> (\<exists>cms envoyCM. p' = envoy_pod pl cms envoyCM p0)"
    using inject_cases [OF inj] by metis
  have fresh0: "\<not> containerExists (Containers p0) AuthBridgeProxyContainerName" using fresh same by simp
  obtain po cms where po: "assign_ports pl p0 = Inr po" and p': "p' = proxy_pod pl po cms p0"
    using shape side envoy_pod_no_authbridge [OF fresh0] by auto
  have c: "cfg (plBuilder pl) = mConfig M" using make_plan_fields(7) [OF pl] .
  have "face (last (Containers p')) = (AuthBridgeProxyContainerName,
       [if poTransparent po then tcp ''transparent-in'' (TransparentInboundPort (Proxy (mConfig M)))
        else tcp ''reverse-proxy'' (original_port (Containers p)), tcp ''forward-proxy'' (poForward po)])"
    using proxy_pod_ports(2) [OF po fresh0, of cms] assign_ports_spec(2) [OF po] by (simp add: p' c same)
  then show thesis using that pl po p' same c by blast
qed


text \<open>
  C38. The relocation does not resolve a collision of the application's port with a port of
  the sidecar, although the code relies on it: if a declared first port is one the sidecar
  binds itself, such as its health port, the sidecar's reverse proxy is told to listen on that
  same port.
\<close>

theorem reverse_proxy_port_collides:
  assumes inj: "InjectAuthBridge M p ns cr kind labels ann ws = (ws', Done (True, p'))"
    and fresh: "\<not> containerExists (Containers p) AuthBridgeProxyContainerName"
    and side: "containerExists (Containers p') AuthBridgeProxyContainerName"
    and own: "original_port (Containers p) \<in> set (declared_ports (Containers p))"
      "original_port (Containers p) \<in> set (sidecar_ports (mConfig M))"
  shows "\<exists>fwd. face (last (Containers p')) = (AuthBridgeProxyContainerName,
      [tcp ''reverse-proxy'' (original_port (Containers p)), tcp ''forward-proxy'' fwd])"
proof -
  obtain pl p0 po cms where pl: "assign_ports pl p0 = Inr po" "Containers p0 = Containers p"
    "cfg (plBuilder pl) = mConfig M"
    and last: "face (last (Containers p')) = (AuthBridgeProxyContainerName,
       [if poTransparent po then tcp ''transparent-in'' (TransparentInboundPort (Proxy (mConfig M)))
        else tcp ''reverse-proxy'' (original_port (Containers p)), tcp ''forward-proxy'' (poForward po)])"
    using proxy_shape [OF inj fresh side] by metis
  have "\<not> transparent_inbound pl p0"
    using transparent_disjoint [of pl p0] own fresh pl(2,3) by auto
  then show ?thesis using last assign_ports_spec(1) [OF pl(1)] by auto
qed

section \<open>Interception is guarded\<close>

text \<open>The value of an environment variable, and an init container that enforces the redirection of egress.\<close>

definition env_value :: "Container \<Rightarrow> string \<Rightarrow> string option" where
  "env_value c n = map_option eValue (find (\<lambda>e. eName e = n) (cEnv c))"

definition enforces :: "PlatformConfig \<Rightarrow> Container \<Rightarrow> bool" where
  "enforces conf c \<longleftrightarrow> cName c = ProxyInitContainerName \<and> cImage c = ImgProxyInit (Images conf) \<and>
     (\<exists>sc. cSecurityContext c = Some sc \<and> ''NET_ADMIN'' \<in> set (CapAdd sc)) \<and>
     env_value c ''MODE'' = Some ''enforce-redirect'' \<and>
     env_value c ''TRANSPARENT_PORT'' = Some (itoa (TransparentPort (Proxy conf))) \<and>
     env_value c ''PROXY_UID'' = Some (itoa (UID (Proxy conf)))"

lemma built_enforces: "enforces (cfg b) (BuildProxyInitContainerWithInbound b EnforceRedirect o' i inb)"
  by (simp add: enforces_def env_value_def BuildProxyInitContainerWithInbound_def enforce_env_def env_def mode_defs)

lemma built_captures:
  fixes b o' i x
  assumes "0 < port" "excl \<noteq> []"
  defines "c \<equiv> BuildProxyInitContainerWithInbound b EnforceRedirect o' i \<lparr>iPort = port, SidecarPortsExclude = excl, PortsExclude = x\<rparr>"
  shows "env_value c ''INBOUND_TRANSPARENT_PORT'' = Some (itoa port)" "env_value c ''SIDECAR_PORTS_EXCLUDE'' = Some excl"
  using assms
  by (simp_all add: env_value_def BuildProxyInitContainerWithInbound_def enforce_env_def env_def env_from_def mode_defs Let_def)

lemma relocate_security: "map cSecurityContext (Containers (relocate po p)) = map cSecurityContext (Containers p)"
proof -
  have "map cSecurityContext (cs[i := relocate_container a (cs ! i)]) = map cSecurityContext cs" for i a cs
    by (simp add: map_update relocate_container_def setOrAddEnv_def) (metis list_update_id map_update)
  then show ?thesis by (simp add: relocate_def split: option.splits)
qed

lemma fold_env_security: "cSecurityContext (fold (\<lambda>e. setOrAddEnv e v) es c) = cSecurityContext c"
  by (induction es arbitrary: c) (simp_all add: setOrAddEnv_def)

lemma finish_pod_security: "map cSecurityContext (Containers (finish_pod pl vs b p)) = map cSecurityContext (Containers p)"
proof -
  have cred: "cSecurityContext (credentials_container v c) = cSecurityContext c" for v c
    by (simp add: credentials_container_def appendSubPathMount_def)
  have bridge: "cSecurityContext (tls_bridge_container c) = cSecurityContext c" for c
    by (simp add: tls_bridge_container_def addVolumeMountIfMissing_def fold_env_security)
  have "map cSecurityContext (Containers (ApplyKeycloakClientCredentialsSecretVolumes ann q)) = map cSecurityContext (Containers q)"
    "map cSecurityContext (Containers (applyTLSBridgeMounts w q)) = map cSecurityContext (Containers q)" for ann w q
    by (simp_all add: ApplyKeycloakClientCredentialsSecretVolumes_def applyTLSBridgeMounts_def Let_def pod_simps cred bridge)
  then show ?thesis by (simp add: finish_pod_def Let_def pod_simps)
qed

lemma sidecar_security:
  assumes "\<not> containerExists (Containers p) AuthBridgeProxyContainerName"
  shows "cSecurityContext (last (Containers (proxy_pod pl po cms p))) = Some (proxy_security (plBuilder pl))"
proof -
  let ?q = "add_sidecar pl po (relocate po p)"
  have env: "map cSecurityContext (Containers (set_mtls_env n v r)) = map cSecurityContext (Containers r)"
    "map cSecurityContext (Containers (add_proxy_env port r)) = map cSecurityContext (Containers r)" for n v port r
  proof -
    have "map cSecurityContext (update_first P (setOrAddEnv m w) cs) = map cSecurityContext cs" for P m w cs
      by (induction cs) (simp_all add: setOrAddEnv_def)
    then show "map cSecurityContext (Containers (set_mtls_env n v r)) = map cSecurityContext (Containers r)"
      by (simp add: set_mtls_env_def)
    show "map cSecurityContext (Containers (add_proxy_env port r)) = map cSecurityContext (Containers r)"
      by (simp add: add_proxy_env_def injectHTTPProxyEnv_def Let_def)
  qed
  have all: "map cSecurityContext (Containers (proxy_pod pl po cms p)) = map cSecurityContext (Containers ?q)"
    by (simp add: proxy_pod_def finish_pod_security pod_simps env)
  have "\<not> containerExists (Containers (relocate po p)) AuthBridgeProxyContainerName"
    using assms containerExists_names [OF relocate_names] by simp
  then have "Containers ?q \<noteq> [] \<and> cSecurityContext (last (Containers ?q)) = Some (proxy_security (plBuilder pl))"
    by (simp add: add_sidecar_def Let_def BuildProxySidecarContainerTransparent_def
        BuildProxySidecarContainerWithPorts_def buildProxySidecarContainer_def)
  then show ?thesis using all by (metis last_map map_is_Nil_conv)
qed


lemma proxy_pod_has_sidecar: "containerExists (Containers (proxy_pod pl po cms p)) AuthBridgeProxyContainerName"
proof -
  have "containerExists (Containers (add_sidecar pl po q)) AuthBridgeProxyContainerName" for q
    by (simp add: add_sidecar_def Let_def containerExists_iff BuildProxySidecarContainerTransparent_def
        BuildProxySidecarContainerWithPorts_def buildProxySidecarContainer_def)
  then show ?thesis using containerExists_names [OF names_of_face [OF proxy_pod_face(1)]] by simp
qed

section \<open>A concrete admission\<close>

text \<open>
  A cluster that grants every write and has no AgentRuntime, a namespace whose runtime
  configuration sets the inbound interception and the TLS bridge, and an agent that declares one port.
\<close>

definition demo_api :: "(string, string) gomap \<Rightarrow> api" where
  "demo_api runtime_cm =
     \<lparr>create_sa = (\<lambda>ws ns n. Created), get_sa = (\<lambda>ws ns n. None),
      get_cm = (\<lambda>ns n. if n = ''authbridge-runtime-config'' then Inr runtime_cm else Inl (Sentinel ''not found'')),
      list_runtimes = (\<lambda>ns. Inr []), get_workload = (\<lambda>ws k ns n. Inl (Sentinel ''not found'')),
      apply_cm = (\<lambda>ws ns n. None)\<rparr>"

definition demo_yaml :: "string \<Rightarrow> string \<Rightarrow> yaml" where
  "demo_yaml v b =
     \<lparr>y_string = (\<lambda>p doc. Inr (if p = [''inboundInterception''] then v else if p = [''tls_bridge'', ''mode''] then b else [])), y_map = (\<lambda>doc. Inr (Some [])),
      y_marshal = (\<lambda>j. Inr ''yaml'')\<rparr>"

definition demo_mutator :: "string \<Rightarrow> string \<Rightarrow> mutator" where
  "demo_mutator v b =
     \<lparr>mApi = demo_api [(''config.yaml'', ''doc'')], mYaml = demo_yaml v b, mTmpl = (\<lambda>d. Inr ''envoy''),
      mConfig = CompiledDefaults, mLater = CompiledDefaults, mGates = DefaultFeatureGates\<rparr>"

definition demo_pod :: "int \<Rightarrow> PodSpec" where
  "demo_pod port =
     \<lparr>Containers = [zero_container\<lparr>cName := ''agent'', cPorts := [tcp ''http'' port]\<rparr>], InitContainers = [],
      Volumes = [], ServiceAccountName = ''agent-sa'', PodSecurity = None\<rparr>"

definition demo_labels :: "(string, string) gomap" where
  "demo_labels = [(''rossoctl.io/type'', ''agent'')]"

definition demo_plan :: "string \<Rightarrow> string \<Rightarrow> plan" where
  "demo_plan v b =
     \<lparr>plNamespace = ''team1'', plName = ''weather'', plAnnotations = [],
      plNs = empty_ns\<lparr>AuthBridgeRuntimeYAML := ''doc''\<rparr>,
      plRuntime = None, plDecision = Evaluate (Some DefaultFeatureGates) demo_labels,
      plMTLS = MTLSModePermissive, plEgress = EnforceRedirect, plBridge = b,
      plSpire = True, plBuilder = NewContainerBuilder (Some CompiledDefaults), plVolumes = BuildRequiredVolumes,
      plMode = ModeProxySidecar, plInbound = v\<rparr>"

lemma demo_decision:
  "prefilter DefaultFeatureGates demo_labels" "AnyInjected (Evaluate (Some DefaultFeatureGates) demo_labels)"
  "Inject (DSpiffeHelper (Evaluate (Some DefaultFeatureGates) demo_labels))"
  by (simp_all add: prefilter_def demo_labels_def DefaultFeatureGates_def AnyInjected_def Evaluate_def Let_def
      str_of_def evaluateSpiffeHelper_def)

lemma demo_fields:
  "mGates (demo_mutator v b) = DefaultFeatureGates" "mConfig (demo_mutator v b) = CompiledDefaults"
  "PerWorkloadConfigResolution DefaultFeatureGates = False"
  by (simp_all add: demo_mutator_def DefaultFeatureGates_def)

lemma demo_ns: "ReadNamespaceConfig (get_cm (mApi (demo_mutator v b)) ns) = empty_ns\<lparr>AuthBridgeRuntimeYAML := ''doc''\<rparr>"
  by (simp add: ReadNamespaceConfig_def demo_mutator_def demo_api_def read_authbridge_config_def str_of_def)

lemma demo_make_plan:
  assumes "v \<in> {ReverseProxy, Transparent}" "b \<in> {ModeDisabled, ModeEnabled}"
  shows "make_plan (demo_mutator v b) ''team1'' ''weather'' ''Deployment'' demo_labels [] = Some (demo_plan v b)"
proof -
  let ?Y = "mYaml (demo_mutator v b)"
  have ex: "ExtractMTLSMode ?Y ''doc'' = []" "ExtractEgressEnforcement ?Y ''doc'' = []"
    "ExtractTLSBridgeMode ?Y ''doc'' = b" "ExtractMode ?Y ''doc'' = []" "ExtractInboundInterception ?Y ''doc'' = v"
    by (simp_all add: ExtractMTLSMode_def ExtractEgressEnforcement_def ExtractTLSBridgeMode_def ExtractMode_def
        ExtractInboundInterception_def extract_str_def demo_mutator_def demo_yaml_def)
  have "resolve_mtls ?Y ''doc'' = MTLSModePermissive" "resolve_egress ?Y CompiledDefaults ''doc'' = Some EnforceRedirect"
    "resolve_tls_bridge ?Y ''doc'' = b" "resolve_mode ?Y ''doc'' [] = ModeProxySidecar"
    "resolve_inbound ?Y CompiledDefaults ''doc'' EnforceRedirect = v"
    using assms
    by (auto simp: resolve_mtls_def resolve_egress_def resolve_tls_bridge_def resolve_mode_def resolve_inbound_def
        resolve_value_def str_of_def ex CompiledDefaults_def mode_defs Let_def)
  moreover have "find_runtime (mApi (demo_mutator v b)) ''team1'' ''weather'' ''Deployment'' = None"
    by (simp add: find_runtime_def demo_mutator_def demo_api_def)
  ultimately show ?thesis
    using demo_decision
    by (simp add: make_plan_def demo_ns demo_plan_def Let_def builder_for_def volumes_for_def demo_fields)
qed

lemma demo_config_map:
  "ensurePerAgentConfigMap (demo_mutator v b) ns cr m d nsc ovs mtls br sp None ws =
     (ws @ [ApplyConfigMap ns (perAgentConfigMapName cr) (''config.yaml'', ''yaml'') None],
      Done (perAgentConfigMapName cr, []))"
  by (simp add: ensurePerAgentConfigMap_def render_config_def base_config_def with_preset_def routes_data_def
      outbound_routes_def apply_configmap_def apply_routes_def buildOwnerReference_def Let_def demo_mutator_def
      demo_api_def demo_yaml_def)

lemma demo_inject:
  assumes "v \<in> {ReverseProxy, Transparent}" "b \<in> {ModeDisabled, ModeEnabled}" "assign_ports (demo_plan v b) (demo_pod port) = Inr po"
  shows "\<exists>ws'. InjectAuthBridge (demo_mutator v b) (demo_pod port) ''team1'' ''weather'' ''Deployment'' demo_labels [] [] =
    (ws', Done (True, proxy_pod (demo_plan v b) po (perAgentConfigMapName ''weather'', []) (demo_pod port)))"
proof -
  have acc: "spire_account (demo_mutator v b) msg ns cr need (demo_pod port) ws = (ws, Done (demo_pod port))" for msg ns cr need ws
    by (simp add: spire_account_def demo_pod_def)
  have "inject_planned (demo_mutator v b) (Some (demo_plan v b)) (demo_pod port) [] =
      inject_proxy (demo_mutator v b) (demo_plan v b) (demo_pod port) []"
    by (simp add: inject_planned_def demo_plan_def mode_defs)
  moreover have "\<exists>ws'. inject_proxy (demo_mutator v b) (demo_plan v b) (demo_pod port) [] =
      (ws', Done (True, proxy_pod (demo_plan v b) po (perAgentConfigMapName ''weather'', []) (demo_pod port)))"
    using assms(3) by (simp add: inject_proxy_def demo_config_map) (simp add: demo_plan_def demo_config_map)
  ultimately show ?thesis
    by (simp add: InjectAuthBridge_def Let_def demo_fields demo_decision acc demo_make_plan [OF assms(1,2)])
qed

lemma demo_ports:
  "assign_ports (demo_plan Transparent ModeDisabled) (demo_pod 8000) =
     Inr \<lparr>poTransparent = True, poOriginal = 8000, poAgent = 0, poForward = 8081\<rparr>"
  "assign_ports (demo_plan ReverseProxy ModeDisabled) (demo_pod 9091) =
     Inr \<lparr>poTransparent = False, poOriginal = 9091, poAgent = 9092, poForward = 8081\<rparr>"
  by (simp_all add: assign_ports_def demo_plan_def demo_pod_def transparent_inbound_def original_port_def
      declared_ports_def sidecar_ports_def sidecar_clash_def init_armed_def findFreePort_def next_free.simps
      NewContainerBuilder_def CompiledDefaults_def wrap32_def tcp_def container_names mode_defs Let_def)

lemma demo_pod_fresh:
  "\<not> containerExists (Containers (demo_pod port)) AuthBridgeProxyContainerName"
  "declared_ports (Containers (demo_pod port)) = [port]"
  "port \<noteq> 0 \<Longrightarrow> original_port (Containers (demo_pod port)) = port"
  by (simp_all add: demo_pod_def containerExists_def container_names declared_ports_def original_port_def tcp_def)


theorem reverse_proxy_port_collides_witness:
  "\<exists>ws' p' fwd. InjectAuthBridge (demo_mutator ReverseProxy ModeDisabled) (demo_pod 9091) ''team1'' ''weather'' ''Deployment''
      demo_labels [] [] = (ws', Done (True, p')) \<and>
    face (last (Containers p')) = (AuthBridgeProxyContainerName, [tcp ''reverse-proxy'' 9091, tcp ''forward-proxy'' fwd])"
proof -
  obtain ws' p' where i: "InjectAuthBridge (demo_mutator ReverseProxy ModeDisabled) (demo_pod 9091) ''team1'' ''weather''
      ''Deployment'' demo_labels [] [] = (ws', Done (True, p'))"
    and c: "containerExists (Containers p') AuthBridgeProxyContainerName"
    using demo_inject [OF _ _ demo_ports(2)] proxy_pod_has_sidecar by blast
  have o: "original_port (Containers (demo_pod 9091)) = 9091" using demo_pod_fresh(3) by simp
  have "original_port (Containers (demo_pod 9091)) \<in> set (declared_ports (Containers (demo_pod 9091)))"
    "original_port (Containers (demo_pod 9091)) \<in> set (sidecar_ports (mConfig (demo_mutator ReverseProxy ModeDisabled)))"
    by (simp_all add: o demo_pod_fresh(2) sidecar_ports_def)
  from reverse_proxy_port_collides [OF i demo_pod_fresh(1) c this] i show ?thesis by (auto simp: o)
qed


section \<open>The key of the TLS bridge\<close>

text \<open>
  A volume exposes the private key of a secret if it projects all of the secret or the key;
  the readers of the key are the containers that mount such a volume.
\<close>

definition exposes :: "string \<Rightarrow> Volume \<Rightarrow> bool" where
  "exposes s v =
     (case vSource v of
        SecretVol src \<Rightarrow> sSecretName src = s \<and> (sItems src = [] \<or> ''tls.key'' \<in> set (map fst (sItems src)))
      | _ \<Rightarrow> False)"

definition key_readers :: "string \<Rightarrow> PodSpec \<Rightarrow> string list" where
  "key_readers s p =
     map cName (filter (\<lambda>c. list_ex (\<lambda>m. list_ex (\<lambda>v. vName v = mName m \<and> exposes s v) (Volumes p)) (cVolumeMounts c))
       (Containers p))"

definition calm :: "Container \<Rightarrow> bool" where
  "calm c \<longleftrightarrow> cName c = AuthBridgeProxyContainerName \<or> (\<forall>m \<in> set (cVolumeMounts c). mName m \<noteq> TLSBridgeCAVolumeName)"

definition confined :: "string \<Rightarrow> PodSpec \<Rightarrow> bool" where
  "confined s p \<longleftrightarrow> (\<forall>v \<in> set (Volumes p). exposes s v \<longrightarrow> vName v = TLSBridgeCAVolumeName) \<and>
     (\<forall>c \<in> set (Containers p). calm c)"

lemma confined_readers: "confined s p \<Longrightarrow> set (key_readers s p) \<subseteq> {AuthBridgeProxyContainerName}"
  by (fastforce simp: confined_def key_readers_def calm_def list_ex_iff)

lemma confined_map:
  "confined s p \<Longrightarrow> Volumes q = Volumes p \<Longrightarrow> (\<And>c. c \<in> set (Containers q) \<Longrightarrow> c \<in> set (Containers p) \<or> calm c) \<Longrightarrow>
   confined s q"
  unfolding confined_def by auto

lemma calm_same: "cName d = cName c \<Longrightarrow> cVolumeMounts d = cVolumeMounts c \<Longrightarrow> calm d = calm c"
  by (simp add: calm_def)

lemma agent_index_bound: "agent_index cs = Some i \<Longrightarrow> i < length cs"
  by (induction cs arbitrary: i) (auto split: if_splits)

lemma confined_relocate: "confined s p \<Longrightarrow> confined s (relocate po p)"
proof (rule confined_map [of s p])
  fix c
  assume conf: "confined s p" and c: "c \<in> set (Containers (relocate po p))"
  show "c \<in> set (Containers p) \<or> calm c"
  proof (cases "agent_index (Containers p)")
    case (Some i)
    then have "i < length (Containers p)" by (rule agent_index_bound)
    then have "calm (relocate_container n (Containers p ! i))" for n
      using conf calm_same [of "relocate_container n (Containers p ! i)" "Containers p ! i"]
      by (simp add: confined_def relocate_container_def pod_simps)
    then show ?thesis
      using c Some set_update_subset_insert [of "Containers p" i]
      by (auto simp: relocate_def split: if_splits)
  qed (use c in \<open>simp add: relocate_def split: if_splits\<close>)
qed (simp_all add: pod_simps)

lemma confined_add_sidecar: "confined s p \<Longrightarrow> confined s (add_sidecar pl po p)"
  by (rule confined_map [of s p])
    (auto simp: add_sidecar_def Let_def calm_def BuildProxySidecarContainerTransparent_def
      BuildProxySidecarContainerWithPorts_def buildProxySidecarContainer_def split: if_splits)

lemma update_first_set: "d \<in> set (update_first P f cs) \<Longrightarrow> d \<in> set cs \<or> (\<exists>c \<in> set cs. d = f c)"
  by (induction cs) (auto split: if_splits)

lemma confined_mtls_env: "confined s p \<Longrightarrow> confined s (set_mtls_env n v p)"
proof (rule confined_map [of s p])
  fix d
  assume conf: "confined s p" and "d \<in> set (Containers (set_mtls_env n v p))"
  then have "d \<in> set (Containers p) \<or> (\<exists>c \<in> set (Containers p). d = setOrAddEnv ''MTLS_MODE'' v c)"
    using update_first_set by (fastforce simp: set_mtls_env_def)
  then show "d \<in> set (Containers p) \<or> calm d"
    using conf by (auto simp: confined_def calm_def pod_simps)
qed (simp_all add: pod_simps)

lemma confined_proxy_env: "confined s p \<Longrightarrow> confined s (add_proxy_env port p)"
  by (auto simp: confined_def add_proxy_env_def calm_def pod_simps)

lemma confined_init:
  "confined s (add_proxy_init pl po p) = confined s p" "confined s (add_envoy_init pl p) = confined s p"
  "confined s (ensureFSGroup p) = confined s p"
  by (simp_all add: confined_def pod_simps)

lemma confined_add_envoy: "confined s p \<Longrightarrow> confined s (add_envoy pl p)"
  by (rule confined_map [of s p])
    (auto simp: add_envoy_def calm_def BuildEnvoyProxyContainerWithSpireOption_def mount_ro_def mount_rw_def
      spire_mounts_def TLSBridgeCAVolumeName_def split: if_splits)

lemma confined_add_volume: "confined s p \<Longrightarrow> \<not> exposes s v \<or> vName v = TLSBridgeCAVolumeName \<Longrightarrow> confined s (add_volume v p)"
  by (auto simp: confined_def add_volume_def)

lemma confined_add_volumes: "confined s p \<Longrightarrow> list_all (\<lambda>v. \<not> exposes s v) vs \<Longrightarrow> confined s (add_volumes vs p)"
  unfolding add_volumes_def by (induction vs arbitrary: p) (simp_all add: confined_add_volume)

lemma exposes_override: "list_all (\<lambda>v. \<not> exposes s v) vs \<Longrightarrow> list_all (\<lambda>v. \<not> exposes s v) (override_cm n f cm vs)"
  by (auto simp: override_cm_def list_all_iff exposes_def split: VolumeSource.splits)

lemma exposes_volumes: "list_all (\<lambda>v. \<not> exposes s v) (volumes_for M spire)"
  by (simp add: volumes_for_def BuildResolvedVolumes_def BuildRequiredVolumes_def BuildRequiredVolumesNoSpire_def
      spire_volumes_def cm_volume_def volume_def exposes_def)

lemma credentials_mount_names:
  "m \<in> set (cVolumeMounts (credentials_container v c)) \<Longrightarrow> m \<in> set (cVolumeMounts c) \<or> mName m = v"
  by (cases "containerVolumeMountExists (cVolumeMounts c) ''shared-data''")
    (auto simp: credentials_container_def dest!: mounts_append(2))

lemma confined_credentials:
  assumes "confined s p" "credentials_secret ann \<noteq> s" "credentials_secret ann \<noteq> TLSBridgeCAVolumeName"
  shows "confined s (ApplyKeycloakClientCredentialsSecretVolumes ann p)"
proof -
  let ?v = "credentials_secret ann"
  have calm: "calm (credentials_container ?v c)" if "calm c" for c
    using that assms(3) credentials_mount_names [of _ ?v c] unfolding calm_def pod_simps by metis
  have "confined s (add_volume (volume ?v (SecretVol
      \<lparr>sSecretName = ?v, sDefaultMode = None, sItems = [], sOptional = Some False\<rparr>)) p)"
    using assms(1,2) by (intro confined_add_volume) (auto simp: exposes_def volume_def)
  then show ?thesis
    using calm assms(1)
    by (cases "?v = []")
      (auto simp: ApplyKeycloakClientCredentialsSecretVolumes_def Let_def confined_def pod_simps)
qed

lemma confined_bridge:
  assumes "confined s p" shows "confined s (applyTLSBridgeMounts w p)"
proof -
  have calm: "calm (tls_bridge_container c)" if "calm c" for c
    using that bridge_mounts(2) [of _ c]
    unfolding calm_def pod_simps
    by (cases "cName c = AuthBridgeProxyContainerName")
      (fastforce simp: mount_ro_def TLSBridgeCAVolumeName_def TLSBridgeCACertVolumeName_def)+
  have "confined s (add_volume b (add_volume a p))"
    if "\<not> exposes s a \<or> vName a = TLSBridgeCAVolumeName" "\<not> exposes s b \<or> vName b = TLSBridgeCAVolumeName" for a b
    using assms that by (simp add: confined_add_volume)
  from this [of "volume TLSBridgeCAVolumeName (SecretVol
        \<lparr>sSecretName = w @ ''-tls-bridge-ca'', sDefaultMode = Some 292, sItems = [], sOptional = None\<rparr>)"
      "volume TLSBridgeCACertVolumeName (SecretVol
        \<lparr>sSecretName = w @ ''-tls-bridge-ca'', sDefaultMode = Some 292, sItems = [(''ca.crt'', ''ca.crt'')], sOptional = None\<rparr>)"]
  show ?thesis
    using calm by (auto simp: applyTLSBridgeMounts_def Let_def confined_def volume_def exposes_def pod_simps)
qed

lemma finish_pod_confined:
  assumes "confined s p" "list_all (\<lambda>v. \<not> exposes s v) vs"
    and "credentials_secret (plAnnotations pl) \<noteq> s" "credentials_secret (plAnnotations pl) \<noteq> TLSBridgeCAVolumeName"
  shows "confined s (finish_pod pl vs b p)"
  using confined_credentials [OF confined_add_volumes [OF assms(1,2)] assms(3,4)]
  by (simp add: finish_pod_def Let_def confined_init confined_bridge)



section \<open>When an injection fails\<close>

lemma spire_account_no_panic: "snd (spire_account M msg ns cr need p ws) \<noteq> Panic"
  by (simp add: spire_account_def split: prod.splits option.splits)

lemma config_map_panic:
  "snd (ensurePerAgentConfigMap M ns cr m d nsc ovs mtls br sp rt ws) = Panic \<longleftrightarrow> base_config (mYaml M) d = None"
proof -
  have "snd (apply_routes M ns cr r ws') \<noteq> Panic" for r ws'
    by (simp add: apply_routes_def Let_def split: prod.splits option.splits)
  then show ?thesis
    by (auto simp: ensurePerAgentConfigMap_def render_config_def split: option.splits sum.splits prod.splits)
qed

lemma envoy_map_no_panic: "snd (ensurePerAgentEnvoyConfigMap M ns cr r ws) \<noteq> Panic"
  by (simp add: ensurePerAgentEnvoyConfigMap_def Let_def split: sum.splits prod.splits option.splits)

lemma base_config_panic: "base_config Y d = None \<longleftrightarrow> d \<noteq> [] \<and> y_map Y d = Inr None"
  by (auto simp: base_config_def split: sum.splits)

lemma inject_proxy_panic:
  "snd (inject_proxy M pl p ws) = Panic \<Longrightarrow> base_config (mYaml M) (AuthBridgeRuntimeYAML (plNs pl)) = None"
  unfolding inject_proxy_def
  by (auto split: sum.splits prod.splits outcome.splits)
    (metis config_map_panic snd_conv)

lemma inject_envoy_panic:
  "snd (inject_envoy M pl p ws) = Panic \<Longrightarrow> base_config (mYaml M) (AuthBridgeRuntimeYAML (plNs pl)) = None"
  unfolding inject_envoy_def
  by (auto split: sum.splits prod.splits outcome.splits)
    (metis config_map_panic envoy_map_no_panic snd_conv)+

lemma inject_panics:
  assumes "snd (InjectAuthBridge M p ns cr kind labels ann ws) = Panic"
    and "AllowedEgressEnforcement (Proxy (mConfig M)) \<noteq> []"
  defines "doc \<equiv> AuthBridgeRuntimeYAML (ReadNamespaceConfig (get_cm (mApi M) ns))"
  shows "doc \<noteq> [] \<and> y_map (mYaml M) doc = Inr None"
proof -
  have "\<exists>p2 ws2. snd (inject_planned M (make_plan M ns cr kind labels ann) p2 ws2) = Panic"
    using assms(1) spire_account_no_panic
    by (auto simp: InjectAuthBridge_def Let_def split: if_splits prod.splits outcome.splits)
      (metis snd_conv)+
  moreover obtain pl where pl: "make_plan M ns cr kind labels ann = Some pl"
    using resolve_egress_defined [OF assms(2)] by (fastforce simp: make_plan_def Let_def split: option.splits)
  ultimately obtain p2 ws2 where "snd (inject_proxy M pl p2 ws2) = Panic \<or> snd (inject_envoy M pl p2 ws2) = Panic"
    by (auto simp: inject_planned_def split: if_splits)
  then have "base_config (mYaml M) (AuthBridgeRuntimeYAML (plNs pl)) = None"
    using inject_proxy_panic inject_envoy_panic by blast
  then show ?thesis using make_plan_fields(4) [OF pl] by (simp add: base_config_panic doc_def)
qed

lemma findFreePort_succeeds:
  assumes "0 \<le> start" "start + int (length used) \<le> 65535" shows "\<exists>p. findFreePort used start = Inr p"
proof (cases "findFreePort used start")
  case (Inl e)
  then have "{start..65535} \<subseteq> set used" using assms by (intro findFreePort_fails) auto
  then have "card {start..65535} \<le> length used" using card_mono card_length order_trans by (metis List.finite_set)
  then show ?thesis using assms by simp
qed blast

lemma assign_ports_succeeds:
  assumes "0 \<le> original_port (Containers p)" "original_port (Containers p) \<le> 64000"
    and "length (declared_ports (Containers p)) \<le> 1000"
  shows "\<exists>po. assign_ports pl p = Inr po"
proof -
  let ?used = "sidecar_ports (cfg (plBuilder pl)) @ original_port (Containers p) # declared_ports (Containers p)"
  have n: "length ?used \<le> 1006" using assms(3) by (simp add: sidecar_ports_def)
  have w: "wrap32 (original_port (Containers p) + 1) = original_port (Containers p) + 1"
    using assms by (intro wrap32_id) simp_all
  obtain a where a: "findFreePort ?used (wrap32 (original_port (Containers p) + 1)) = Inr a"
    using findFreePort_succeeds [of "wrap32 (original_port (Containers p) + 1)" ?used] n assms w by auto
  obtain f g where "findFreePort ?used 8081 = Inr f" "findFreePort (a # ?used) 8081 = Inr g"
    using findFreePort_succeeds [of 8081 ?used] findFreePort_succeeds [of 8081 "a # ?used"] n by auto
  then show ?thesis using a by (auto simp: assign_ports_def Let_def)
qed

lemma spire_account_granted:
  assumes "ServiceAccountName p \<notin> {[], ''default''} \<or> (\<forall>ws. snd (ensureServiceAccount (mApi M) ns cr ws) = None)"
  obtains ws' q where "spire_account M msg ns cr need p ws = (ws', Done q)"
    "Containers q = Containers p"
proof (cases "need \<and> ServiceAccountName p \<in> {[], ''default''}")
  case True
  then obtain ws' where "ensureServiceAccount (mApi M) ns cr ws = (ws', None)"
    using assms by (metis surjective_pairing)
  then show ?thesis using True that by (auto simp: spire_account_def)
next
  case False
  then show ?thesis using that by (auto simp: spire_account_def)
qed

text \<open>
  C39. A runtime configuration that is not empty text but holds no YAML content, such as a
  comment, stops the admissions of the namespace: the decoder leaves a nil map and the webhook
  panics when it writes to it, where an empty or unreadable configuration is treated as an empty
  map.  This happens to every pod that is to be injected, is not in waypoint mode, has or is given
  a service account, and declares at most a thousand ports, the first of them at most 64000, so
  that port assignment does not fail first.
\<close>

theorem contentless_config_panics:
  assumes doc: "AuthBridgeRuntimeYAML (ReadNamespaceConfig (get_cm (mApi M) ns)) = doc" "doc \<noteq> []"
    and yaml: "y_map (mYaml M) doc = Inr None" "\<And>path. y_string (mYaml M) path doc = Inr []"
    and pod: "prefilter (mGates M) labels" "AnyInjected (Evaluate (Some (mGates M)) labels)"
    and account: "ServiceAccountName p \<notin> {[], ''default''} \<or> (\<forall>ws. snd (ensureServiceAccount (mApi M) ns cr ws) = None)"
    and ports: "0 \<le> original_port (Containers p)" "original_port (Containers p) \<le> 64000"
      "length (declared_ports (Containers p)) \<le> 1000"
    and mode: "str_of ann ''rossoctl.io/authbridge-mode'' \<noteq> ModeWaypoint"
    and valid: "Platform_Validate (mConfig M) = None"
  shows "snd (InjectAuthBridge M p ns cr kind labels ann ws) = Panic"
proof -
  obtain pl where pl: "make_plan M ns cr kind labels ann = Some pl"
    using resolve_egress_defined [OF valid_allowed(1) [OF valid]] by (fastforce simp: make_plan_def Let_def split: option.splits)
  have ns: "plNs pl = ReadNamespaceConfig (get_cm (mApi M) ns)" using make_plan_fields(4) [OF pl] .
  have base: "base_config (mYaml M) (AuthBridgeRuntimeYAML (plNs pl)) = None"
    using doc yaml(1) by (simp add: base_config_panic ns)
  have wp: "plMode pl \<noteq> ModeWaypoint"
    using mode make_plan_fields(1) [OF pl] yaml(2) doc(1)
    by (auto simp: ns resolve_mode_def resolve_value_def ExtractMode_def extract_str_def Let_def mode_defs split: if_splits)
  have e: "ensurePerAgentConfigMap M a b m (AuthBridgeRuntimeYAML (plNs pl)) c ovs mtls br sp rt ws = (ws, Panic)"
    for a b m c ovs mtls br sp rt ws
    using base by (simp add: ensurePerAgentConfigMap_def render_config_def)
  have planned: "snd (inject_planned M (Some pl) q ws) = Panic" if q: "Containers q = Containers p" for q ws
  proof -
    obtain po where "assign_ports pl q = Inr po" using assign_ports_succeeds [of q pl] ports q by auto
    then show ?thesis using wp e by (simp add: inject_planned_def inject_proxy_def inject_envoy_def)
  qed
  let ?spire = "Inject (DSpiffeHelper (Evaluate (Some (mGates M)) labels))"
  obtain ws1 p1 where 1: "spire_account M ''failed to ensure service account: '' ns cr ?spire p ws = (ws1, Done p1)"
    "Containers p1 = Containers p"
    using spire_account_granted [OF account] by blast
  let ?need = "resolve_mtls (mYaml M) (AuthBridgeRuntimeYAML (ReadNamespaceConfig (get_cm (mApi M) ns))) \<noteq> ModeDisabled \<and> \<not> ?spire"
  obtain ws2 p2 where 2: "spire_account M ''failed to ensure service account for mtls auto-spire: '' ns cr ?need p1 ws1 = (ws2, Done p2)"
    "Containers p2 = Containers p1"
  proof (cases "?spire")
    case True
    then show ?thesis using that by (simp add: spire_account_def)
  next
    case False
    then have "p1 = p" using 1(1) by (simp add: spire_account_def)
    then show ?thesis using spire_account_granted [OF account] that by blast
  qed
  show ?thesis using pod pl 1(1) 2 planned [of p2] 1(2) by (simp add: InjectAuthBridge_def Let_def)
qed

definition contentless_yaml :: yaml where
  "contentless_yaml =
     \<lparr>y_string = (\<lambda>path d. Inr (if d = ''# none'' then [] else d)),
      y_map = (\<lambda>d. Inr (if d = ''# none'' then None else Some [(''mode'', JStr d)])), y_marshal = (\<lambda>j. Inr ''yaml'')\<rparr>"

definition contentless_mutator :: mutator where
  "contentless_mutator =
     (demo_mutator ReverseProxy ModeDisabled)\<lparr>mApi := demo_api [(''config.yaml'', ''# none'')], mYaml := contentless_yaml\<rparr>"

theorem contentless_config_panics_witness:
  "snd (InjectAuthBridge contentless_mutator (demo_pod 8000) ''team1'' ''weather'' ''Deployment'' demo_labels [] []) = Panic"
proof -
  have "AuthBridgeRuntimeYAML (ReadNamespaceConfig (get_cm (mApi contentless_mutator) ''team1'')) = ''# none''"
    by (simp add: ReadNamespaceConfig_def contentless_mutator_def demo_api_def read_authbridge_config_def str_of_def)
  then show ?thesis
    by (rule contentless_config_panics)
      (use demo_decision CompiledDefaults_valid demo_pod_fresh(2,3) [of 8000]
       in \<open>simp_all add: contentless_mutator_def contentless_yaml_def demo_mutator_def demo_pod_def str_of_def mode_defs\<close>)
qed

section \<open>Settings an injection does not depend on\<close>

definition forget_modes :: "AgentRuntime \<Rightarrow> AgentRuntime" where
  "forget_modes rt = rt\<lparr>Spec := (Spec rt)\<lparr>SpecAuthBridgeMode := [], SpecMTLSMode := [], SpecTLSBridgeMode := [],
     SpecEgressEnforcement := []\<rparr>\<rparr>"

definition without_modes :: "mutator \<Rightarrow> mutator" where
  "without_modes M =
     M\<lparr>mApi := (mApi M)\<lparr>list_runtimes := (\<lambda>ns. map_sum id (map forget_modes) (list_runtimes (mApi M) ns))\<rparr>\<rparr>"

abbreviation plan_without_modes :: "plan \<Rightarrow> plan" where
  "plan_without_modes pl \<equiv> pl\<lparr>plRuntime := map_option forget_modes (plRuntime pl)\<rparr>"

lemmas case_congs = option.case_cong sum.case_cong prod.case_cong create_result.case_cong outcome.case_cong

lemma without_modes_fields:
  "mYaml (without_modes M) = mYaml M" "mTmpl (without_modes M) = mTmpl M" "mConfig (without_modes M) = mConfig M"
  "mLater (without_modes M) = mLater M" "mGates (without_modes M) = mGates M"
  "get_cm (mApi (without_modes M)) = get_cm (mApi M)" "create_sa (mApi (without_modes M)) = create_sa (mApi M)"
  "get_sa (mApi (without_modes M)) = get_sa (mApi M)" "get_workload (mApi (without_modes M)) = get_workload (mApi M)"
  "apply_cm (mApi (without_modes M)) = apply_cm (mApi M)"
  by (simp_all add: without_modes_def)

lemma find_runtime_without_modes:
  "find_runtime (mApi (without_modes M)) ns cr kind = map_option forget_modes (find_runtime (mApi M) ns cr kind)"
proof -
  have "find (\<lambda>rt. TName (SpecTargetRef (Spec rt)) = cr \<and> Kind (SpecTargetRef (Spec rt)) = kind) (map forget_modes rts) =
      map_option forget_modes (find (\<lambda>rt. TName (SpecTargetRef (Spec rt)) = cr \<and> Kind (SpecTargetRef (Spec rt)) = kind) rts)"
    for rts
    by (induction rts) (auto simp: forget_modes_def)
  then show ?thesis by (simp add: find_runtime_def without_modes_def split: sum.splits)
qed

lemma apply_configmap_without_modes:
  "apply_configmap (mApi (without_modes M)) = apply_configmap (mApi M)"
  by (rule ext)+ (simp add: apply_configmap_def buildOwnerReference_def without_modes_fields
      cong: case_congs)

lemma config_map_without_modes:
  "ensurePerAgentConfigMap (without_modes M) ns cr m d nsc ovs mtls br sp (map_option forget_modes rt) ws =
   ensurePerAgentConfigMap M ns cr m d nsc ovs mtls br sp rt ws"
proof -
  have r: "outbound_routes (map_option forget_modes rt) = outbound_routes rt"
    by (cases rt) (simp_all add: outbound_routes_def forget_modes_def)
  have p: "with_preset (without_modes M) ns cr (map_option forget_modes rt) c = with_preset M ns cr rt c" for c
    by (cases rt) (simp_all add: with_preset_def forget_modes_def without_modes_fields cong: case_congs)
  have "with_spiffe (without_modes M) = with_spiffe M" "with_routes (map_option forget_modes rt) = with_routes rt"
    by (simp_all add: fun_eq_iff with_spiffe_def with_routes_def without_modes_fields r)
  then have "render_config (without_modes M) ns cr m d nsc ovs mtls br sp (map_option forget_modes rt) =
      render_config M ns cr m d nsc ovs mtls br sp rt"
    by (simp add: render_config_def without_modes_fields p cong: case_congs)
  moreover have "routes_data (without_modes M) ns cr (map_option forget_modes rt) = routes_data M ns cr rt"
    by (simp add: routes_data_def without_modes_fields r)
  moreover have "apply_routes (without_modes M) = apply_routes M"
    by (simp add: fun_eq_iff apply_routes_def apply_configmap_without_modes split: option.splits)
  ultimately show ?thesis
    by (simp add: ensurePerAgentConfigMap_def without_modes_fields apply_configmap_without_modes cong: case_congs)
qed

lemma inject_without_modes:
  "inject_proxy (without_modes M) (plan_without_modes pl) p ws = inject_proxy M pl p ws"
  "inject_envoy (without_modes M) (plan_without_modes pl) p ws = inject_envoy M pl p ws"
proof -
  have "assign_ports (plan_without_modes pl) p = assign_ports pl p"
    by (simp add: assign_ports_def transparent_inbound_def)
  moreover have pod: "add_proxy_init (plan_without_modes pl) = add_proxy_init pl"
    "add_sidecar (plan_without_modes pl) = add_sidecar pl" "add_envoy (plan_without_modes pl) = add_envoy pl"
    "add_envoy_init (plan_without_modes pl) = add_envoy_init pl" "config_volumes (plan_without_modes pl) = config_volumes pl"
    "finish_pod (plan_without_modes pl) = finish_pod pl"
    by (simp_all add: fun_eq_iff finish_pod_def config_volumes_def add_proxy_init_def add_sidecar_def
        add_envoy_init_def add_envoy_def Let_def cong: if_cong)
  moreover have "proxy_pod (plan_without_modes pl) = proxy_pod pl" "envoy_pod (plan_without_modes pl) = envoy_pod pl"
    by (simp_all add: fun_eq_iff proxy_pod_def envoy_pod_def pod)
  ultimately show "inject_proxy (without_modes M) (plan_without_modes pl) p ws = inject_proxy M pl p ws"
    "inject_envoy (without_modes M) (plan_without_modes pl) p ws = inject_envoy M pl p ws"
    by (simp_all add: inject_proxy_def inject_envoy_def listener_overrides_def config_map_without_modes
        without_modes_fields ensurePerAgentEnvoyConfigMap_def apply_configmap_without_modes cong: case_congs if_cong)
qed

lemma make_plan_without_modes:
  "make_plan (without_modes M) ns cr kind labels ann = map_option plan_without_modes (make_plan M ns cr kind labels ann)"
  by (simp add: make_plan_def Let_def without_modes_fields find_runtime_without_modes builder_for_def volumes_for_def
      split: option.splits)

text \<open>
  C27. The mutating webhook ignores the deployment modes of an AgentRuntime: erasing
  \<^verbatim>\<open>authBridgeMode\<close>, \<^verbatim>\<open>mtlsMode\<close>, \<^verbatim>\<open>tlsBridgeMode\<close> and \<^verbatim>\<open>egressEnforcement\<close> from every AgentRuntime of
  the cluster changes neither the pod nor any write nor any error, although the documentation
  of these fields says that they take precedence over the namespace.
\<close>

theorem runtime_modes_ignored:
  "InjectAuthBridge (without_modes M) p ns cr kind labels ann ws = InjectAuthBridge M p ns cr kind labels ann ws"
proof -
  have "ensureServiceAccount (mApi (without_modes M)) = ensureServiceAccount (mApi M)"
    by (simp add: fun_eq_iff ensureServiceAccount_def without_modes_fields cong: case_congs)
  then have acc: "spire_account (without_modes M) = spire_account M"
    by (intro ext) (simp only: spire_account_def)
  have "inject_planned (without_modes M) (map_option plan_without_modes po) q w = inject_planned M po q w" for po q w
    by (cases po) (simp_all add: inject_planned_def inject_without_modes)
  then show ?thesis
    by (simp add: InjectAuthBridge_def without_modes_fields acc make_plan_without_modes cong: case_congs if_cong)
qed

end
