(* ===== verification/WH_Webhook.thy ===== *)
theory WH_Webhook
  imports WH_Inject
begin

text \<open>
  The admission webhooks (\<^verbatim>\<open>internal/webhook/v1alpha1\<close>) and what they share with the
  controllers: which workload owns a pod (\<^verbatim>\<open>internal/workload\<close>) and the eligibility and naming
  of client registration (\<^verbatim>\<open>internal/clientreg\<close>).  Decoding and encoding of the pod are
  arguments; a patch response is represented by the pod it leads to.
\<close>

section \<open>Ownership\<close>

record PodOwner =
  oKind :: string
  oName :: string
  oController :: "bool option"

record Pod =
  PodName :: string
  GenerateName :: string
  PodUID :: string
  PodLabels :: "(string, string) gomap option"
  PodAnnotations :: "(string, string) gomap option"
  OwnerReferences :: "PodOwner list"
  PodSpecOf :: PodSpec

text \<open>A nil map reads as an empty one.\<close>

definition of_nil :: "('k, 'v) gomap option \<Rightarrow> ('k, 'v) gomap" where
  "of_nil m = (case m of None \<Rightarrow> [] | Some m' \<Rightarrow> m')"

record OwnerInfo =
  OName :: string
  OKind :: string

definition deploymentNameFromReplicaSet :: "string \<Rightarrow> (string, string) gomap \<Rightarrow> string" where
  "deploymentNameFromReplicaSet rsName labels =
     (let hash = str_of labels ''pod-template-hash'' in
      if hash \<noteq> [] \<and> has_suffix rsName (''-'' @ hash) then trim_suffix rsName (''-'' @ hash) else [])"

definition owner_of_ref :: "(string, string) gomap \<Rightarrow> PodOwner \<Rightarrow> OwnerInfo option" where
  "owner_of_ref labels ref =
     (if oController ref \<noteq> Some True then None
      else if oKind ref = ''StatefulSet'' then Some \<lparr>OName = oName ref, OKind = ''StatefulSet''\<rparr>
      else if oKind ref = ''Sandbox'' then Some \<lparr>OName = oName ref, OKind = ''Sandbox''\<rparr>
      else if oKind ref = ''ReplicaSet'' then
        (let name = deploymentNameFromReplicaSet (oName ref) labels in
         if name \<noteq> [] then Some \<lparr>OName = name, OKind = ''Deployment''\<rparr>
         else Some \<lparr>OName = oName ref, OKind = []\<rparr>)
      else None)"

text \<open>\<^verbatim>\<open>strings.TrimRight(s, "-")\<close>\<close>

definition trim_dashes :: "string \<Rightarrow> string" where
  "trim_dashes s = rev (dropWhile (\<lambda>c. c = CHR ''-'') (rev s))"

fun first_some :: "('a \<Rightarrow> 'b option) \<Rightarrow> 'a list \<Rightarrow> 'b option" where
  "first_some f [] = None"
| "first_some f (x # xs) = (case f x of Some y \<Rightarrow> Some y | None \<Rightarrow> first_some f xs)"

definition owner_by_name :: "Pod \<Rightarrow> OwnerInfo" where
  "owner_by_name pod =
     (if GenerateName pod \<noteq> [] then
        (let rsName = trim_dashes (GenerateName pod);
             name = deploymentNameFromReplicaSet rsName (of_nil (PodLabels pod))
         in if name \<noteq> [] then \<lparr>OName = name, OKind = ''Deployment''\<rparr> else \<lparr>OName = rsName, OKind = []\<rparr>)
      else \<lparr>OName = PodName pod, OKind = []\<rparr>)"

definition ResolveOwner :: "Pod \<Rightarrow> OwnerInfo" where
  "ResolveOwner pod =
     (case first_some (owner_of_ref (of_nil (PodLabels pod))) (OwnerReferences pod) of
        Some info \<Rightarrow> info
      | None \<Rightarrow> owner_by_name pod)"

text \<open>\<^verbatim>\<open>strings.LastIndex(s, "-")\<close>\<close>

definition last_dash :: "string \<Rightarrow> nat option" where
  "last_dash s = map_option (\<lambda>i. length s - 1 - i) (index_of (CHR ''-'') (rev s))"

definition IsPodOwnedBy :: "Pod \<Rightarrow> string \<Rightarrow> bool" where
  "IsPodOwnedBy pod workloadName \<longleftrightarrow>
     list_ex (\<lambda>ref. oController ref = Some True \<and>
       (oKind ref = ''ReplicaSet'' \<and>
          (case last_dash (oName ref) of Some i \<Rightarrow> i > 0 \<and> take i (oName ref) = workloadName | None \<Rightarrow> False) \<or>
        (oKind ref = ''StatefulSet'' \<or> oKind ref = ''Sandbox'') \<and> oName ref = workloadName)) (OwnerReferences pod)"

section \<open>Client registration\<close>

definition KeycloakClientCredentialsSecretName :: "string \<Rightarrow> string \<Rightarrow> string" where
  "KeycloakClientCredentialsSecretName ns workload =
     ''rossoctl-keycloak-client-credentials-'' @
     hex_encode (take 8 (Sum256 (ns @ [CHR 0x00] @ workload @ [CHR 0x00] @ ''rossoctl-keycloak-client-credentials'')))"

definition SkipReason :: "(string, string) gomap option \<Rightarrow> bool \<Rightarrow> string" where
  "SkipReason labels injectTools =
     (case labels of
        None \<Rightarrow> ''pod template has no labels''
      | Some l \<Rightarrow>
          (let t = str_of l ''rossoctl.io/type'' in
           if t = ''agent'' then []
           else if t = ''tool'' then
             (if \<not> injectTools then ''rossoctl.io/type is tool but cluster injectTools feature gate is disabled'' else [])
           else if t = [] then ''rossoctl.io/type label is missing or not agent/tool''
           else ''rossoctl.io/type='' @ quote t @ '' is not agent or tool''))"

definition WorkloadWantsOperatorClientReg :: "(string, string) gomap option \<Rightarrow> bool \<Rightarrow> bool" where
  "WorkloadWantsOperatorClientReg labels injectTools \<longleftrightarrow> SkipReason labels injectTools = []"

section \<open>Mutating webhook\<close>

definition deriveWorkloadInfo :: "Pod \<Rightarrow> string \<times> string" where
  "deriveWorkloadInfo pod =
     (let info = ResolveOwner pod in
      if OName info \<noteq> [] then (OName info, OKind info) else (PodUID pod, []))"

definition isAlreadyInjected :: "PodSpec \<Rightarrow> bool" where
  "isAlreadyInjected p \<longleftrightarrow>
     list_ex (\<lambda>c. cName c = EnvoyProxyContainerName \<or> cName c = AuthBridgeProxyContainerName) (Containers p) \<or>
     list_ex (\<lambda>c. cName c = ProxyInitContainerName) (InitContainers p)"

record request =
  reqKind :: string
  reqGroup :: string
  reqNamespace :: string
  reqPod :: "goerr + Pod"

datatype response = Allowed string | Errored nat goerr | Patched Pod

definition with_credentials_annotation :: "bool \<Rightarrow> string \<Rightarrow> Pod \<Rightarrow> Pod" where
  "with_credentials_annotation injectTools ns pod =
     (if str_of (of_nil (PodAnnotations pod)) AnnotationKeycloakClientSecretName = [] \<and>
         WorkloadWantsOperatorClientReg (PodLabels pod) injectTools
      then pod\<lparr>PodAnnotations := Some (AList.update AnnotationKeycloakClientSecretName
             (KeycloakClientCredentialsSecretName ns (fst (deriveWorkloadInfo pod))) (of_nil (PodAnnotations pod)))\<rparr>
      else pod)"

definition patch_response :: "goerr option \<Rightarrow> Pod \<Rightarrow> response" where
  "patch_response marshalErr pod = (case marshalErr of Some e \<Rightarrow> Errored 500 e | None \<Rightarrow> Patched pod)"

text \<open>The feature gate is read once more here; \<open>gates\<close> is that snapshot.\<close>

definition Handle ::
    "mutator \<Rightarrow> FeatureGates \<Rightarrow> (Pod \<Rightarrow> goerr option) \<Rightarrow> request \<Rightarrow> cwrite list \<Rightarrow> cwrite list \<times> response outcome" where
  "Handle M gates marshal req ws =
     (if reqKind req \<noteq> ''Pod'' \<or> reqGroup req \<noteq> [] then (ws, Done (Allowed ''not a Pod''))
      else case reqPod req of
        Inl e \<Rightarrow> (ws, Done (Errored 400 e))
      | Inr pod0 \<Rightarrow>
          (let (name, kind) = deriveWorkloadInfo pod0;
               pod = with_credentials_annotation (InjectTools gates) (reqNamespace req) pod0;
               ann = of_nil (PodAnnotations pod)
           in if isAlreadyInjected (PodSpecOf pod) then
                (if NeedsKeycloakClientCredentialsVolumePatch (PodSpecOf pod) ann then
                   (let pod' = pod\<lparr>PodSpecOf := ApplyKeycloakClientCredentialsSecretVolumes ann (PodSpecOf pod)\<rparr>
                    in (ws, Done (patch_response (marshal pod') pod')))
                 else (ws, Done (Allowed ''already injected'')))
              else case InjectAuthBridge M (PodSpecOf pod) (reqNamespace req) name kind (of_nil (PodLabels pod)) ann ws of
                (ws', Panic) \<Rightarrow> (ws', Panic)
              | (ws', Fail e) \<Rightarrow> (ws', Done (Errored 500 e))
              | (ws', Done (False, p)) \<Rightarrow> (ws', Done (Allowed ''injection not enabled''))
              | (ws', Done (True, p)) \<Rightarrow>
                  (let pod' = pod\<lparr>PodSpecOf := p\<rparr> in (ws', Done (patch_response (marshal pod') pod')))))"

section \<open>Validating webhooks\<close>

text \<open>
  The reader is nil (\<^const>\<open>None\<close>), fails, or lists the objects of the namespace.  The validators
  return no warnings.
\<close>

type_synonym 'a reader = "(goerr + 'a list) option"

definition listed :: "'a reader \<Rightarrow> 'a list" where
  "listed rd = (case rd of Some (Inr items) \<Rightarrow> items | _ \<Rightarrow> [])"

definition duplicate_error :: "string \<Rightarrow> TargetRef \<Rightarrow> string \<Rightarrow> string \<Rightarrow> goerr" where
  "duplicate_error what ref ns existing =
     Errorf [Lit ''an '', Lit what, Lit '' already targets '', Lit (Kind ref), Lit '' '', Lit (TName ref),
       Lit '' in namespace '', Lit ns, Lit '': '', Lit existing]"

definition runtime_checkDuplicateTargetRef :: "AgentRuntime reader \<Rightarrow> AgentRuntime \<Rightarrow> goerr option" where
  "runtime_checkDuplicateTargetRef rd rt =
     (let ref = SpecTargetRef (Spec rt) in
      case find (\<lambda>existing. ARName existing \<noteq> ARName rt \<and> SpecTargetRef (Spec existing) = ref) (listed rd) of
        None \<Rightarrow> None
      | Some existing \<Rightarrow> Some (duplicate_error ''AgentRuntime'' ref (ARNamespace rt) (ARName existing)))"

definition checkMTLSCompatibleWithMode :: "AgentRuntime \<Rightarrow> goerr option" where
  "checkMTLSCompatibleWithMode rt = None"

definition checkTLSBridgeCompatibleWithMode :: "AgentRuntime \<Rightarrow> goerr option" where
  "checkTLSBridgeCompatibleWithMode rt =
     (if SpecTLSBridgeMode (Spec rt) \<noteq> ModeEnabled then None
      else if SpecAuthBridgeMode (Spec rt) \<in> {[], ''proxy-sidecar'', ''lite''} then None
      else Some (Errorf [Lit ''tlsBridgeMode=enabled requires authBridgeMode proxy-sidecar or lite '',
        Lit ''(the TLS bridge lives in the Go forward proxy); it is not supported with authBridgeMode '',
        Lit (quote (SpecAuthBridgeMode (Spec rt)))]))"

definition checkPluginPresetValid :: "AgentRuntime \<Rightarrow> goerr option" where
  "checkPluginPresetValid rt = ValidatePlugins (Spec rt)"

text \<open>\<^verbatim>\<open>ValidateCreate\<close> and \<^verbatim>\<open>ValidateUpdate\<close> do the same checks; \<^verbatim>\<open>ValidateDelete\<close> accepts.\<close>

definition runtime_Validate :: "AgentRuntime reader \<Rightarrow> AgentRuntime \<Rightarrow> goerr option" where
  "runtime_Validate rd rt =
     (case runtime_checkDuplicateTargetRef rd rt of
        Some e \<Rightarrow> Some e
      | None \<Rightarrow>
          (case checkMTLSCompatibleWithMode rt of
             Some e \<Rightarrow> Some e
           | None \<Rightarrow>
               (case checkTLSBridgeCompatibleWithMode rt of
                  Some e \<Rightarrow> Some e
                | None \<Rightarrow> checkPluginPresetValid rt)))"

record AgentCard =
  ACName :: string
  ACNamespace :: string
  ACTargetRef :: "TargetRef option"

definition validateAgentCard :: "AgentCard \<Rightarrow> goerr option" where
  "validateAgentCard ac =
     (if ACTargetRef ac = None
      then Some (Errorf [Lit ''spec.targetRef is required: specify the workload backing this agent'']) else None)"

definition card_checkDuplicateTargetRef :: "AgentCard reader \<Rightarrow> AgentCard \<Rightarrow> goerr option" where
  "card_checkDuplicateTargetRef rd ac =
     (case ACTargetRef ac of
        None \<Rightarrow> None
      | Some ref \<Rightarrow>
          (case find (\<lambda>existing. ACName existing \<noteq> ACName ac \<and> ACTargetRef existing = Some ref) (listed rd) of
             None \<Rightarrow> None
           | Some existing \<Rightarrow> Some (duplicate_error ''AgentCard'' ref (ACNamespace ac) (ACName existing))))"

definition card_Validate :: "AgentCard reader \<Rightarrow> AgentCard \<Rightarrow> goerr option" where
  "card_Validate rd ac =
     (case validateAgentCard ac of Some e \<Rightarrow> Some e | None \<Rightarrow> card_checkDuplicateTargetRef rd ac)"

section \<open>Which workload a pod belongs to\<close>

lemma suffix_append [simp]: "has_suffix (s @ t) t" "trim_suffix (s @ t) t = s"
  by (simp_all add: has_suffix_def trim_suffix_def)

lemma dash_append:
  assumes "CHR ''-'' \<notin> set hash"
  shows "last_dash (d @ ''-'' @ hash) = Some (length d)"
    "trim_dashes (d @ ''-'' @ hash @ ''-'') = (if hash = [] then trim_dashes d else d @ ''-'' @ hash)"
proof -
  show "last_dash (d @ ''-'' @ hash) = Some (length d)" using assms by (simp add: last_dash_def)
  show "trim_dashes (d @ ''-'' @ hash @ ''-'') = (if hash = [] then trim_dashes d else d @ ''-'' @ hash)"
  proof (cases "rev hash")
    case (Cons c cs)
    moreover from this have "c \<in> set hash" by (metis list.set_intros(1) set_rev)
    ultimately show ?thesis using assms by (auto simp: trim_dashes_def rev_swap)
  qed (simp add: trim_dashes_def)
qed

lemma first_some_skip: "(\<And>x. x \<in> set xs \<Longrightarrow> f x = None) \<Longrightarrow> first_some f (xs @ ys) = first_some f ys"
  by (induction xs) auto

text \<open>
  C25. A pod of a Deployment is attributed to that Deployment, by the webhook at admission and
  by the controller afterwards, and to no other workload: the name is recovered from the
  controlling ReplicaSet's name by removing the pod-template hash, or from the pod's generated
  name when the owner references are missing.  Names with dashes in them are recovered whole.
\<close>

theorem deployment_pod_owner:
  fixes d hash :: string and pod :: Pod
  assumes "d \<noteq> []" "hash \<noteq> []" "CHR ''-'' \<notin> set hash" "str_of (of_nil (PodLabels pod)) ''pod-template-hash'' = hash"
    and "OwnerReferences pod = pre @ \<lparr>oKind = ''ReplicaSet'', oName = d @ ''-'' @ hash, oController = Some True\<rparr> # post"
    and "list_all (\<lambda>r. oController r \<noteq> Some True) (pre @ post)"
  shows "ResolveOwner pod = \<lparr>OName = d, OKind = ''Deployment''\<rparr> \<and>
    ResolveOwner (pod\<lparr>OwnerReferences := [], GenerateName := d @ ''-'' @ hash @ ''-''\<rparr>) = \<lparr>OName = d, OKind = ''Deployment''\<rparr> \<and>
    (\<forall>w. IsPodOwnedBy pod w \<longleftrightarrow> w = d)"
proof -
  have name: "deploymentNameFromReplicaSet (d @ ''-'' @ hash) (of_nil (PodLabels pod)) = d"
    using assms(2,4) by (simp add: deploymentNameFromReplicaSet_def Let_def del: append.simps)
  have "first_some (owner_of_ref (of_nil (PodLabels pod))) (OwnerReferences pod) = Some \<lparr>OName = d, OKind = ''Deployment''\<rparr>"
    unfolding assms(5) by (subst first_some_skip) (use assms(1,6) name in \<open>auto simp: list_all_iff owner_of_ref_def\<close>)
  then have "ResolveOwner pod = \<lparr>OName = d, OKind = ''Deployment''\<rparr>" by (simp add: ResolveOwner_def)
  moreover have "ResolveOwner (pod\<lparr>OwnerReferences := [], GenerateName := d @ ''-'' @ hash @ ''-''\<rparr>) =
      \<lparr>OName = d, OKind = ''Deployment''\<rparr>"
    using assms(1,2) name dash_append(2) [OF assms(3), of d]
    by (simp add: ResolveOwner_def owner_by_name_def Let_def)
  moreover have "IsPodOwnedBy pod w \<longleftrightarrow> w = d" for w
    using assms(1,6) dash_append(1) [OF assms(3), of d]
    by (auto simp: IsPodOwnedBy_def assms(5) list_ex_iff list_all_iff)
  ultimately show ?thesis by simp
qed

definition demo_workload_pod :: Pod where
  "demo_workload_pod =
     \<lparr>PodName = [], GenerateName = ''web-app-7d4f-'', PodUID = ''u1'',
      PodLabels = Some [(''rossoctl.io/type'', ''agent''), (''pod-template-hash'', ''7d4f'')], PodAnnotations = None,
      OwnerReferences = [\<lparr>oKind = ''ReplicaSet'', oName = ''web-app-7d4f'', oController = Some True\<rparr>],
      PodSpecOf = demo_pod 8000\<rparr>"

theorem deployment_pod_owner_witness:
  "ResolveOwner demo_workload_pod = \<lparr>OName = ''web-app'', OKind = ''Deployment''\<rparr> \<and>
   IsPodOwnedBy demo_workload_pod ''web-app'' \<and> \<not> IsPodOwnedBy demo_workload_pod ''web''"
  using deployment_pod_owner [of "''web-app''" "''7d4f''" demo_workload_pod "[]" "[]"]
  by (simp add: demo_workload_pod_def str_of_def of_nil_def)

section \<open>One object per target\<close>

text \<open>
  The objects of a namespace as the API server keeps them: a create or update is stored when
  the validator accepts it, in place of the object of the same name.  \<open>seen\<close> is what the
  validator's reader returns at that moment.
\<close>

datatype 'o change = Put "'o reader" 'o | Remove string

fun store_step :: "('o \<Rightarrow> string) \<Rightarrow> ('o reader \<Rightarrow> 'o \<Rightarrow> goerr option) \<Rightarrow> 'o list \<Rightarrow> 'o change \<Rightarrow> 'o list" where
  "store_step name validate store (Put seen x) =
     (if validate seen x = None then x # filter (\<lambda>y. name y \<noteq> name x) store else store)"
| "store_step name validate store (Remove n) = filter (\<lambda>y. name y \<noteq> n) store"

text \<open>A history in which every reader is current.\<close>

inductive history ::
    "('o \<Rightarrow> string) \<Rightarrow> ('o reader \<Rightarrow> 'o \<Rightarrow> goerr option) \<Rightarrow> 'o list \<Rightarrow> bool"
  for name validate where
  empty: "history name validate []"
| put: "history name validate store \<Longrightarrow> set items = set store \<Longrightarrow>
    history name validate (store_step name validate store (Put (Some (Inr items)) x))"
| remove: "history name validate store \<Longrightarrow> history name validate (store_step name validate store (Remove n))"

locale target_registry =
  fixes name :: "'o \<Rightarrow> string"
    and target :: "'o \<Rightarrow> TargetRef option"
    and validate :: "'o reader \<Rightarrow> 'o \<Rightarrow> goerr option"
  assumes has_target: "validate seen x = None \<Longrightarrow> target x \<noteq> None"
    and no_rival: "validate (Some (Inr items)) x = None \<Longrightarrow> y \<in> set items \<Longrightarrow> name y \<noteq> name x \<Longrightarrow> target y \<noteq> target x"
begin

definition exclusive :: "'o list \<Rightarrow> bool" where
  "exclusive store \<longleftrightarrow> distinct (map name store) \<and> distinct (map target store) \<and> None \<notin> target ` set store"

lemma exclusive_filter: "exclusive store \<Longrightarrow> exclusive (filter P store)"
  by (auto simp: exclusive_def distinct_map_filter)

lemma history_exclusive: "history name validate store \<Longrightarrow> exclusive store"
proof (induction rule: history.induct)
  case empty
  then show ?case by (simp add: exclusive_def)
next
  case (put store items x)
  show ?case
  proof (cases "validate (Some (Inr items)) x = None")
    case True
    then have "\<forall>y \<in> set store. name y \<noteq> name x \<longrightarrow> target y \<noteq> target x" using no_rival put.hyps(2) by metis
    moreover have "target x \<noteq> None" using has_target True by blast
    moreover have "exclusive (filter (\<lambda>y. name y \<noteq> name x) store)" using put.IH exclusive_filter by blast
    ultimately show ?thesis using True by (fastforce simp: exclusive_def)
  qed (use put.IH in auto)
next
  case (remove store n)
  then show ?case using exclusive_filter by simp
qed

end

interpretation runtimes: target_registry ARName "\<lambda>rt. Some (SpecTargetRef (Spec rt))" runtime_Validate
  by unfold_locales
    (auto simp: runtime_Validate_def runtime_checkDuplicateTargetRef_def listed_def Let_def find_None_iff
      split: option.splits)

interpretation cards: target_registry ACName ACTargetRef card_Validate
  by unfold_locales
    (auto simp: card_Validate_def validateAgentCard_def card_checkDuplicateTargetRef_def listed_def find_None_iff
      split: option.splits if_splits)

text \<open>
  C19. No workload is claimed twice: as long as the validators read the current objects of the
  namespace, in every history of creates, updates and deletes no two AgentRuntimes have the
  same target reference, and no two AgentCards, and every AgentCard has one.
\<close>

theorem targets_unique:
  assumes "history ARName runtime_Validate rts" "history ACName card_Validate acs"
  shows "distinct (map (SpecTargetRef \<circ> Spec) rts) \<and> distinct (map ACTargetRef acs) \<and> None \<notin> ACTargetRef ` set acs"
proof -
  have "distinct (map (\<lambda>rt. Some (SpecTargetRef (Spec rt))) rts)"
    using runtimes.history_exclusive [OF assms(1)] by (simp add: runtimes.exclusive_def)
  then show ?thesis
    using cards.history_exclusive [OF assms(2)] by (auto simp: cards.exclusive_def distinct_map inj_on_def)
qed

definition demo_runtime :: "string \<Rightarrow> string \<Rightarrow> AgentRuntime" where
  "demo_runtime n w =
     \<lparr>ARName = n, ARNamespace = ''team1'',
      Spec = \<lparr>SpecTargetRef = \<lparr>APIVersion = ''apps/v1'', Kind = ''Deployment'', TName = w\<rparr>, SpecAuthBridgeMode = [],
        SpecMTLSMode = [], SpecTLSBridgeMode = [], SpecEgressEnforcement = [], Auth = None,
        PluginPreset = [], Plugins = [], OnError = []\<rparr>\<rparr>"

theorem targets_unique_witness:
  "history ARName runtime_Validate [demo_runtime ''b'' ''web'', demo_runtime ''a'' ''app''] \<and>
   runtime_Validate (Some (Inr [demo_runtime ''a'' ''app''])) (demo_runtime ''b'' ''app'') \<noteq> None \<and>
   distinct (map (SpecTargetRef \<circ> Spec) [demo_runtime ''b'' ''web'', demo_runtime ''a'' ''app''])"
proof -
  note defs = demo_runtime_def runtime_Validate_def runtime_checkDuplicateTargetRef_def listed_def Let_def
    checkMTLSCompatibleWithMode_def checkTLSBridgeCompatibleWithMode_def checkPluginPresetValid_def ValidatePlugins_def mode_defs
  have "history ARName runtime_Validate (store_step ARName runtime_Validate (store_step ARName runtime_Validate []
      (Put (Some (Inr [])) (demo_runtime ''a'' ''app''))) (Put (Some (Inr [demo_runtime ''a'' ''app''])) (demo_runtime ''b'' ''web'')))"
    by (intro history.intros) (simp_all add: defs)
  then have h: "history ARName runtime_Validate [demo_runtime ''b'' ''web'', demo_runtime ''a'' ''app'']"
    by (simp add: defs)
  then show ?thesis using targets_unique [OF h history.empty] by (simp add: defs)
qed

section \<open>Admission of a pod\<close>

lemma injected_is_marked:
  assumes "InjectAuthBridge M p ns cr kind labels ann ws = (ws', Done (True, p'))"
    and "Inject (DEnvoyProxy (Evaluate (Some (mGates M)) labels))"
  shows "isAlreadyInjected p'"
  using assms(1)
proof (cases rule: inject_cases)
  case (1 pl p0)
  have marked: "isAlreadyInjected q" if "containerExists (Containers q) n" "n \<in> {EnvoyProxyContainerName, AuthBridgeProxyContainerName}"
    for q n
    using that by (auto simp: isAlreadyInjected_def containerExists_iff list_ex_iff)
  have "Inject (DEnvoyProxy (plDecision pl))" using make_plan_fields(9) [OF 1(1)] assms(2) by simp
  then have "containerExists (Containers (add_envoy pl p0)) EnvoyProxyContainerName"
    by (simp add: add_envoy_def containerExists_iff BuildEnvoyProxyContainerWithSpireOption_def)
  then have "containerExists (Containers (envoy_pod pl cms cm p0)) EnvoyProxyContainerName" for cms cm
    using containerExists_names [OF names_of_face [OF envoy_pod_face]] by simp
  then show ?thesis using 1(6) proxy_pod_has_sidecar marked by blast
qed

lemma injected_credentials:
  assumes "InjectAuthBridge M p ns cr kind labels ann ws = (ws', Done (True, p'))" "credentials_secret ann \<noteq> []"
  shows "credentials_done (credentials_secret ann) p'"
  using assms(1)
proof (cases rule: inject_cases)
  case (1 pl p0)
  have "credentials_done (credentials_secret ann) (finish_pod pl vs b q)" for vs b q
    using credentials_applied [OF assms(2)] make_plan_fields(6) [OF 1(1)]
    by (simp add: finish_pod_def Let_def credentials_done_fsgroup credentials_done_bridge)
  then show ?thesis using 1(6) by (auto simp: proxy_pod_def envoy_pod_def)
qed

lemma annotation_stable:
  "with_credentials_annotation g ns (with_credentials_annotation g ns pod\<lparr>PodSpecOf := q\<rparr>) =
   with_credentials_annotation g ns pod\<lparr>PodSpecOf := q\<rparr>"
  by (auto simp: with_credentials_annotation_def of_nil_def str_of_def update_conv' KeycloakClientCredentialsSecretName_def)

lemma handle_patched:
  assumes "Handle M gates marshal req ws = (ws', Done (Patched pod'))" "reqPod req = Inr pod"
  defines "apod \<equiv> with_credentials_annotation (InjectTools gates) (reqNamespace req) pod"
  defines "ann \<equiv> of_nil (PodAnnotations apod)"
  shows "reqKind req = ''Pod'' \<and> reqGroup req = [] \<and> (\<exists>q. pod' = apod\<lparr>PodSpecOf := q\<rparr> \<and>
    (isAlreadyInjected (PodSpecOf apod) \<and> ws' = ws \<and> credentials_secret ann \<noteq> [] \<and>
       q = ApplyKeycloakClientCredentialsSecretVolumes ann (PodSpecOf apod) \<or>
     \<not> isAlreadyInjected (PodSpecOf apod) \<and>
       InjectAuthBridge M (PodSpecOf apod) (reqNamespace req) (fst (deriveWorkloadInfo pod)) (snd (deriveWorkloadInfo pod))
         (of_nil (PodLabels apod)) ann ws = (ws', Done (True, q))))"
  using assms(1)
  unfolding Handle_def assms(2) ann_def apod_def
  by (auto simp: Let_def patch_response_def needs_patch_iff split: if_splits option.splits prod.splits outcome.splits bool.splits)

lemma isAlreadyInjected_names:
  "isAlreadyInjected p \<longleftrightarrow>
     list_ex (\<lambda>n. n = EnvoyProxyContainerName \<or> n = AuthBridgeProxyContainerName) (map cName (Containers p)) \<or>
     list_ex (\<lambda>n. n = ProxyInitContainerName) (map cName (InitContainers p))"
proof -
  have ex: "list_ex P (map cName cs) = list_ex (\<lambda>c. P (cName c)) cs" for P cs by (induction cs) auto
  show ?thesis unfolding isAlreadyInjected_def ex ..
qed

lemma injected_names:
  "isAlreadyInjected (ApplyKeycloakClientCredentialsSecretVolumes ann p) = isAlreadyInjected p"
  unfolding isAlreadyInjected_names pod_simps ..


text \<open>
  C40. Whether a pod was injected is decided by container names alone: a pod that comes with a
  container called like a sidecar, or an init container called \<^verbatim>\<open>proxy-init\<close>, is admitted
  without any sidecar.  Nothing is written to the cluster, no error is returned and the
  containers keep their names, so its traffic is not intercepted.
\<close>

theorem named_like_sidecar_bypasses:
  assumes "reqKind req = ''Pod''" "reqGroup req = []" "reqPod req = Inr pod" "isAlreadyInjected (PodSpecOf pod)"
    and "\<And>q. marshal q = None"
  shows "\<exists>r. Handle M gates marshal req ws = (ws, Done r) \<and>
    (r = Allowed ''already injected'' \<or>
     (\<exists>pod'. r = Patched pod' \<and> map cName (Containers (PodSpecOf pod')) = map cName (Containers (PodSpecOf pod)) \<and>
        InitContainers (PodSpecOf pod') = InitContainers (PodSpecOf pod)))"
proof -
  have "PodSpecOf (with_credentials_annotation g ns pod) = PodSpecOf pod" for g ns
    by (simp add: with_credentials_annotation_def)
  then show ?thesis
    using assms by (auto simp: Handle_def Let_def patch_response_def pod_simps split: prod.splits)
qed

definition demo_request :: "Pod \<Rightarrow> request" where
  "demo_request pod = \<lparr>reqKind = ''Pod'', reqGroup = [], reqNamespace = ''team1'', reqPod = Inr pod\<rparr>"

definition demo_named_pod :: Pod where
  "demo_named_pod = demo_workload_pod\<lparr>PodAnnotations := Some [(AnnotationKeycloakClientSecretName, ''creds'')],
     PodSpecOf := (demo_pod 8000)\<lparr>InitContainers := [zero_container\<lparr>cName := ProxyInitContainerName\<rparr>]\<rparr>\<rparr>"

lemma demo_named_pod_facts:
  "isAlreadyInjected (PodSpecOf demo_named_pod)" "map cName (Containers (PodSpecOf demo_named_pod)) = [''agent'']"
  "with_credentials_annotation g ns demo_named_pod = demo_named_pod"
  "NeedsKeycloakClientCredentialsVolumePatch (PodSpecOf demo_named_pod) (of_nil (PodAnnotations demo_named_pod))"
proof -
  have "credentials_secret (of_nil (PodAnnotations demo_named_pod)) = ''creds''"
    unfolding demo_named_pod_def by code_simp
  moreover have "Volumes (PodSpecOf demo_named_pod) = []" by (simp add: demo_named_pod_def demo_pod_def)
  ultimately show "NeedsKeycloakClientCredentialsVolumePatch (PodSpecOf demo_named_pod) (of_nil (PodAnnotations demo_named_pod))"
    by (simp add: needs_patch_iff credentials_done_def)
qed (simp_all add: demo_named_pod_def demo_pod_def isAlreadyInjected_def with_credentials_annotation_def of_nil_def str_of_def)

lemma demo_named_patched:
  "\<exists>pod'. Handle M DefaultFeatureGates (\<lambda>q. None) (demo_request demo_named_pod) [] = ([], Done (Patched pod'))"
  using demo_named_pod_facts by (simp add: Handle_def Let_def demo_request_def patch_response_def split: prod.splits)


theorem named_like_sidecar_bypasses_witness:
  "\<exists>pod'. Handle (demo_mutator Transparent ModeDisabled) DefaultFeatureGates (\<lambda>q. None) (demo_request demo_named_pod) [] =
     ([], Done (Patched pod')) \<and> map cName (Containers (PodSpecOf pod')) = [''agent'']"
  using named_like_sidecar_bypasses [of "demo_request demo_named_pod" demo_named_pod "\<lambda>q. None"
      "demo_mutator Transparent ModeDisabled" DefaultFeatureGates "[]"]
    demo_named_pod_facts(1,2) demo_named_patched [of "demo_mutator Transparent ModeDisabled"]
  by (auto simp: demo_request_def)

end
