(* ===== verification/CS_Canonical.thy ===== *)
theory CS_Canonical
  imports Go_Url
begin

text \<open>
  The payload an agent card is signed over (\<^verbatim>\<open>internal/signature/verifier.go\<close>): the card as a JSON
  value (\<^verbatim>\<open>api/v1alpha1/agentcard_types.go\<close>), without its signatures and without empty fields, in a
  text with sorted keys.  Strings are valid UTF-8, because a card is itself read from JSON.  How a
  number literal reads after a trip through \<^verbatim>\<open>float64\<close> is an argument.
\<close>

section \<open>JSON text\<close>

text \<open>\<^verbatim>\<open>json.Marshal\<close> of a string: HTML characters and the two line separators are escaped too.\<close>

definition json_hex :: "nat \<Rightarrow> string" where
  "json_hex n = [CHR 0x5C] @ ''u00'' @ [''0123456789abcdef'' ! (n div 16), ''0123456789abcdef'' ! (n mod 16)]"

function json_body :: "string \<Rightarrow> string" where
  "json_body [] = []"
| "json_body (c # cs) =
     (let n = of_char c :: nat in
      if c = CHR 0x22 \<or> c = CHR 0x5C then CHR 0x5C # c # json_body cs
      else if n = 8 then [CHR 0x5C] @ ''b'' @ json_body cs
      else if n = 12 then [CHR 0x5C] @ ''f'' @ json_body cs
      else if n = 10 then [CHR 0x5C] @ ''n'' @ json_body cs
      else if n = 13 then [CHR 0x5C] @ ''r'' @ json_body cs
      else if n = 9 then [CHR 0x5C] @ ''t'' @ json_body cs
      else if n < 32 \<or> c = CHR ''<'' \<or> c = CHR ''>'' \<or> c = CHR ''&'' then json_hex n @ json_body cs
      else if n = 226 \<and> take 2 cs = [CHR 0x80, CHR 0xA8] then [CHR 0x5C] @ ''u2028'' @ json_body (drop 2 cs)
      else if n = 226 \<and> take 2 cs = [CHR 0x80, CHR 0xA9] then [CHR 0x5C] @ ''u2029'' @ json_body (drop 2 cs)
      else c # json_body cs)"
  by pat_completeness auto
termination
  by (relation "measure length") auto

definition json_quote :: "string \<Rightarrow> string" where
  "json_quote s = CHR 0x22 # json_body s @ [CHR 0x22]"

text \<open>\<^verbatim>\<open>marshalValue\<close>, \<^verbatim>\<open>marshalCanonical\<close> and \<^verbatim>\<open>marshalArray\<close> on what \<^verbatim>\<open>json.Unmarshal\<close> produces.\<close>

fun marshalValue :: "json \<Rightarrow> string" where
  "marshalValue JNull = ''null''"
| "marshalValue (JBool b) = (if b then ''true'' else ''false'')"
| "marshalValue (JNum l) = l"
| "marshalValue (JStr s) = json_quote s"
| "marshalValue (JArr vs) = ''['' @ join '','' (map marshalValue vs) @ '']''"
| "marshalValue (JObj kvs) =
     ''{'' @ join '','' (map (\<lambda>kv. json_quote (fst kv) @ '':'' @ snd kv)
       (sort_key fst (map (\<lambda>kv. (fst kv, marshalValue (snd kv))) kvs))) @ ''}''"

definition marshalCanonical :: "(string, json) gomap \<Rightarrow> string" where
  "marshalCanonical m = marshalValue (JObj m)"

section \<open>Cleaning\<close>

fun clean_value :: "json \<Rightarrow> json option"
  and removeEmptyFields :: "(string, json) gomap \<Rightarrow> (string, json) gomap"
  and clean_elems :: "json list \<Rightarrow> json list" where
  "clean_value JNull = None"
| "clean_value (JObj m) = (let c = removeEmptyFields m in if c = [] then None else Some (JObj c))"
| "clean_value (JArr vs) = (let c = clean_elems vs in if c = [] then None else Some (JArr c))"
| "clean_value (JStr s) = (if s = [] then None else Some (JStr s))"
| "clean_value (JBool b) = Some (JBool b)"
| "clean_value (JNum l) = Some (JNum l)"
| "removeEmptyFields [] = []"
| "removeEmptyFields ((k, v) # m) =
     (case clean_value v of None \<Rightarrow> removeEmptyFields m | Some w \<Rightarrow> (k, w) # removeEmptyFields m)"
| "clean_elems [] = []"
| "clean_elems (JArr ws # vs) = JArr ws # clean_elems vs"
| "clean_elems (v # vs) = (case clean_value v of None \<Rightarrow> clean_elems vs | Some w \<Rightarrow> w # clean_elems vs)"

section \<open>Cards\<close>

record SkillParameter =
  ParamName :: string
  ParamType :: string
  ParamDescription :: string
  ParamRequired :: "bool option"
  ParamDefault :: string

record AgentSkill =
  SkillID :: string
  SkillName :: string
  SkillDescription :: string
  Tags :: "string list"
  Examples :: "string list"
  InputModes :: "string list"
  OutputModes :: "string list"
  Parameters :: "SkillParameter list"

text \<open>The values of \<open>ExtParams\<close> are raw JSON texts.\<close>

record AgentExtension =
  ExtURI :: string
  ExtDescription :: string
  ExtRequired :: "bool option"
  ExtParams :: "(string, string) gomap"

record AgentCapabilities =
  Streaming :: "bool option"
  PushNotifications :: "bool option"
  Extensions :: "AgentExtension list"

record AgentProvider =
  Organization :: string
  ProviderURL :: string

text \<open>\<open>SigHeader\<close> is the unprotected header, whose only field is a time stamp.\<close>

record AgentCardSignature =
  Protected :: string
  Signature :: string
  SigHeader :: "string option"

record AgentCardData =
  CardName :: string
  Description :: string
  Version :: string
  CardURL :: string
  DocumentationURL :: string
  IconURL :: string
  Provider :: "AgentProvider option"
  Capabilities :: "AgentCapabilities option"
  DefaultInputModes :: "string list"
  DefaultOutputModes :: "string list"
  Skills :: "AgentSkill list"
  SupportsAuthenticatedExtendedCard :: "bool option"
  Signatures :: "AgentCardSignature list"

text \<open>\<^verbatim>\<open>json.Marshal\<close> of a struct whose fields are all \<^verbatim>\<open>omitempty\<close>: an absent field is \<^const>\<open>None\<close>.\<close>

definition struct_fields :: "(string \<times> json option) list \<Rightarrow> (string, json) gomap" where
  "struct_fields fs = concat (map (\<lambda>(n, v). case v of None \<Rightarrow> [] | Some j \<Rightarrow> [(n, j)]) fs)"

definition opt_str :: "string \<Rightarrow> json option" where
  "opt_str s = (if s = [] then None else Some (JStr s))"

definition opt_list :: "json list \<Rightarrow> json option" where
  "opt_list vs = (if vs = [] then None else Some (JArr vs))"

definition param_json :: "SkillParameter \<Rightarrow> json" where
  "param_json p = JObj (struct_fields
     [(''name'', opt_str (ParamName p)), (''type'', opt_str (ParamType p)), (''description'', opt_str (ParamDescription p)),
      (''required'', map_option JBool (ParamRequired p)), (''default'', opt_str (ParamDefault p))])"

definition skill_json :: "AgentSkill \<Rightarrow> json" where
  "skill_json s = JObj (struct_fields
     [(''id'', opt_str (SkillID s)), (''name'', opt_str (SkillName s)), (''description'', opt_str (SkillDescription s)),
      (''tags'', opt_list (map JStr (Tags s))), (''examples'', opt_list (map JStr (Examples s))),
      (''inputModes'', opt_list (map JStr (InputModes s))), (''outputModes'', opt_list (map JStr (OutputModes s))),
      (''parameters'', opt_list (map param_json (Parameters s)))])"

text \<open>A raw value must be JSON, an empty one is written as \<^verbatim>\<open>null\<close>.\<close>

definition raw_json :: "string \<Rightarrow> json option" where
  "raw_json s = (if s = [] then Some JNull else json_parse s)"

definition extension_json :: "AgentExtension \<Rightarrow> json option" where
  "extension_json e =
     map_option (\<lambda>vs. JObj (struct_fields
         [(''uri'', opt_str (ExtURI e)), (''description'', opt_str (ExtDescription e)),
          (''required'', map_option JBool (ExtRequired e)),
          (''params'', if ExtParams e = [] then None else Some (JObj (zip (map fst (ExtParams e)) vs)))]))
       (those (map (raw_json \<circ> snd) (ExtParams e)))"

definition capabilities_json :: "AgentCapabilities \<Rightarrow> json option" where
  "capabilities_json c =
     map_option (\<lambda>es. JObj (struct_fields
         [(''streaming'', map_option JBool (Streaming c)), (''pushNotifications'', map_option JBool (PushNotifications c)),
          (''extensions'', opt_list es)]))
       (those (map extension_json (Extensions c)))"

definition provider_json :: "AgentProvider \<Rightarrow> json" where
  "provider_json p = JObj (struct_fields [(''organization'', opt_str (Organization p)), (''url'', opt_str (ProviderURL p))])"

definition signature_json :: "AgentCardSignature \<Rightarrow> json" where
  "signature_json s = JObj (struct_fields
     [(''protected'', Some (JStr (Protected s))), (''signature'', Some (JStr (Signature s))),
      (''header'', map_option (\<lambda>t. JObj (struct_fields [(''timestamp'', opt_str t)])) (SigHeader s))])"

definition card_fields :: "json option \<Rightarrow> AgentCardData \<Rightarrow> (string \<times> json option) list" where
  "card_fields caps d =
     [(''name'', opt_str (CardName d)), (''description'', opt_str (Description d)), (''version'', opt_str (Version d)),
      (''url'', opt_str (CardURL d)), (''documentationUrl'', opt_str (DocumentationURL d)), (''iconUrl'', opt_str (IconURL d)),
      (''provider'', map_option provider_json (Provider d)), (''capabilities'', caps),
      (''defaultInputModes'', opt_list (map JStr (DefaultInputModes d))),
      (''defaultOutputModes'', opt_list (map JStr (DefaultOutputModes d))),
      (''skills'', opt_list (map skill_json (Skills d))),
      (''supportsAuthenticatedExtendedCard'', map_option JBool (SupportsAuthenticatedExtendedCard d)),
      (''signatures'', opt_list (map signature_json (Signatures d)))]"

definition card_json :: "AgentCardData \<Rightarrow> (string, json) gomap option" where
  "card_json d =
     (case Capabilities d of
        None \<Rightarrow> Some (struct_fields (card_fields None d))
      | Some c \<Rightarrow> map_option (\<lambda>j. struct_fields (card_fields (Some j) d)) (capabilities_json c))"

text \<open>
  \<^verbatim>\<open>json.Unmarshal\<close> into \<^verbatim>\<open>interface{}\<close>: the last of several equal keys counts; \<open>num\<close> is the trip of a
  number literal through \<^verbatim>\<open>float64\<close> and fails when it is out of range.
\<close>

definition of_pairs :: "(string \<times> json) list \<Rightarrow> (string, json) gomap" where
  "of_pairs kvs = fold (\<lambda>kv. AList.update (fst kv) (snd kv)) kvs []"

fun to_interface :: "(string \<Rightarrow> string option) \<Rightarrow> json \<Rightarrow> json option" where
  "to_interface num (JNum l) = map_option JNum (num l)"
| "to_interface num (JArr vs) = map_option JArr (those (map (to_interface num) vs))"
| "to_interface num (JObj kvs) =
     map_option (\<lambda>vs. JObj (of_pairs (zip (map fst kvs) vs))) (those (map (\<lambda>kv. to_interface num (snd kv)) kvs))"
| "to_interface num v = Some v"

definition json_error :: goerr where
  "json_error = Sentinel ''json''"

definition signed_content :: "(string \<Rightarrow> string option) \<Rightarrow> AgentCardData \<Rightarrow> goerr + (string, json) gomap" where
  "signed_content num d =
     (case card_json d of
        None \<Rightarrow> Inl (Errorf [Lit ''failed to marshal card data: '', Wrap json_error])
      | Some rawJSON \<Rightarrow>
          (case to_interface num (JObj rawJSON) of
             Some (JObj cardMap) \<Rightarrow> Inr (removeEmptyFields (AList.delete ''signatures'' cardMap))
           | _ \<Rightarrow> Inl (Errorf [Lit ''failed to unmarshal to map: '', Wrap json_error])))"

definition CreateCanonicalCardJSON :: "(string \<Rightarrow> string option) \<Rightarrow> AgentCardData \<Rightarrow> goerr + string" where
  "CreateCanonicalCardJSON num d = map_sum id marshalCanonical (signed_content num d)"

section \<open>Reading a string back\<close>

lemma hex_digit_val: "n < 16 \<Longrightarrow> hex_val (''0123456789abcdef'' ! n) = Some n"
proof -
  have "list_all (\<lambda>n. hex_val (''0123456789abcdef'' ! n) = Some n) [0..<16]" by code_simp
  then show "n < 16 \<Longrightarrow> ?thesis" by (simp add: list_all_iff)
qed

lemma lex_hex:
  assumes "(of_char c :: nat) < 128"
  shows "lex (LStr acc None) (json_hex (of_char c) @ cs) = lex (LStr (acc @ [c]) None) cs"
proof -
  let ?n = "of_char c :: nat"
  have z: "hex_val (CHR ''0'') = Some 0" by code_simp
  have h: "hex_val (''0123456789abcdef'' ! (?n div 16)) = Some (?n div 16)"
    "hex_val (''0123456789abcdef'' ! (?n mod 16)) = Some (?n mod 16)"
    using assms by (simp_all add: hex_digit_val)
  have "add_rune acc None ?n = (acc @ [c], None)"
    using assms by (simp add: add_rune_def flush_def utf8_def)
  moreover have "?n div 16 * 16 + ?n mod 16 = ?n" by (rule div_mult_mod_eq)
  ultimately show ?thesis by (simp add: json_hex_def z h)
qed

lemma lex_separator:
  assumes "d = CHR ''8'' \<or> d = CHR ''9''"
  shows "lex (LStr acc None) (CHR 0x5C # ''u202'' @ d # cs) =
    lex (LStr (acc @ [CHR 0xE2, CHR 0x80, if d = CHR ''8'' then CHR 0xA8 else CHR 0xA9]) None) cs"
proof -
  have "hex_val (CHR ''0'') = Some 0" "hex_val (CHR ''2'') = Some 2" "hex_val (CHR ''8'') = Some 8" "hex_val (CHR ''9'') = Some 9"
    "utf8 8232 = [CHR 0xE2, CHR 0x80, CHR 0xA8]" "utf8 8233 = [CHR 0xE2, CHR 0x80, CHR 0xA9]"
    by (code_simp, code_simp, code_simp, code_simp, simp_all add: utf8_def char_of_def bit_0)
  then show ?thesis using assms by (elim disjE) (simp_all add: add_rune_def flush_def)
qed

lemma control_chars:
  "(of_char c :: nat) = 8 \<Longrightarrow> c = CHR 0x08" "(of_char c :: nat) = 9 \<Longrightarrow> c = CHR 0x09"
  "(of_char c :: nat) = 10 \<Longrightarrow> c = CHR 0x0A" "(of_char c :: nat) = 12 \<Longrightarrow> c = CHR 0x0C"
  "(of_char c :: nat) = 13 \<Longrightarrow> c = CHR 0x0D" "(of_char c :: nat) = 226 \<Longrightarrow> c = CHR 0xE2"
proof -
  have "of_char c = n \<Longrightarrow> c = char_of n" for n :: nat by (metis char_of_char)
  from this [of 8] this [of 9] this [of 10] this [of 12] this [of 13] this [of 226]
  show "(of_char c :: nat) = 8 \<Longrightarrow> c = CHR 0x08" "(of_char c :: nat) = 9 \<Longrightarrow> c = CHR 0x09"
    "(of_char c :: nat) = 10 \<Longrightarrow> c = CHR 0x0A" "(of_char c :: nat) = 12 \<Longrightarrow> c = CHR 0x0C"
    "(of_char c :: nat) = 13 \<Longrightarrow> c = CHR 0x0D" "(of_char c :: nat) = 226 \<Longrightarrow> c = CHR 0xE2"
    by (simp_all add: char_of_def bit_0)
qed

text \<open>What \<^const>\<open>json_body\<close> does with the next byte.\<close>

lemma json_body_cases:
  obtains (escaped) d where "simple_escape d = Some c" "d \<noteq> CHR ''u''" "json_body (c # cs) = CHR 0x5C # d # json_body cs"
  | (hex) "(of_char c :: nat) < 128" "json_body (c # cs) = json_hex (of_char c) @ json_body cs"
  | (sep) d r where "d = CHR ''8'' \<or> d = CHR ''9''" "json_body (c # cs) = CHR 0x5C # ''u202'' @ d # json_body r"
      "c # cs = CHR 0xE2 # CHR 0x80 # (if d = CHR ''8'' then CHR 0xA8 else CHR 0xA9) # r" "length r < length cs"
  | (plain) "json_body (c # cs) = c # json_body cs" "\<not> (of_char c :: nat) < 32" "c \<noteq> CHR 0x22" "c \<noteq> CHR 0x5C"
proof -
  let ?n = "of_char c :: nat"
  have two: "cs = [a, b] @ drop 2 cs" if "take 2 cs = [a, b]" for a b
    using append_take_drop_id [of 2 cs] that by simp
  consider (q) "c = CHR 0x22 \<or> c = CHR 0x5C" | (esc) "?n \<in> {8, 12, 10, 13, 9}"
    | (h) "c \<noteq> CHR 0x22 \<and> c \<noteq> CHR 0x5C" "?n \<notin> {8, 12, 10, 13, 9}" "?n < 32 \<or> c = CHR ''<'' \<or> c = CHR ''>'' \<or> c = CHR ''&''"
    | (s) d where "?n = 226" "d = CHR ''8'' \<or> d = CHR ''9''"
        "take 2 cs = [CHR 0x80, if d = CHR ''8'' then CHR 0xA8 else CHR 0xA9]"
    | (p) "c \<noteq> CHR 0x22 \<and> c \<noteq> CHR 0x5C" "?n \<notin> {8, 12, 10, 13, 9}" "\<not> (?n < 32 \<or> c = CHR ''<'' \<or> c = CHR ''>'' \<or> c = CHR ''&'')"
        "\<not> (?n = 226 \<and> (take 2 cs = [CHR 0x80, CHR 0xA8] \<or> take 2 cs = [CHR 0x80, CHR 0xA9]))"
    by (cases "take 2 cs = [CHR 0x80, CHR 0xA8]"; cases "take 2 cs = [CHR 0x80, CHR 0xA9]") fastforce+
  then show thesis
  proof cases
    case q
    then show thesis by (intro escaped [of c]) (auto simp: simple_escape_def)
  next
    case esc
    then show thesis
      by (elim insertE emptyE)
        (rule escaped [of "CHR ''b''"] escaped [of "CHR ''f''"] escaped [of "CHR ''n''"] escaped [of "CHR ''r''"]
          escaped [of "CHR ''t''"]; force simp: simple_escape_def dest: control_chars)+
  next
    case h
    then show thesis by (intro hex) auto
  next
    case s
    have "c = CHR 0xE2" using control_chars(6) s(1) by blast
    moreover have "cs \<noteq> []" using s(3) by auto
    ultimately show thesis using s two [OF s(3)]
      by (intro sep [of d "drop 2 cs"]) (auto split: if_splits)
  next
    case p
    then show thesis by (intro plain) auto
  qed
qed

lemma lex_body:
  "lex (LStr acc None) (json_body s @ CHR 0x22 # rest) = map_option (Cons (TLit (JStr (acc @ s)))) (lex LStart rest)"
proof (induction "length s" arbitrary: s acc rule: less_induct)
  case less
  show ?case
  proof (cases s)
    case Nil
    then show ?thesis by (simp add: flush_def)
  next
    case (Cons c cs)
    have IH: "lex (LStr acc None) (json_body r @ CHR 0x22 # rest) = map_option (Cons (TLit (JStr (acc @ r)))) (lex LStart rest)"
      if "length r \<le> length cs" for acc r using less that Cons by simp
    show ?thesis
    proof (cases rule: json_body_cases [of c cs])
      case (escaped d)
      then show ?thesis using IH [of cs] Cons by (simp add: flush_def)
    next
      case hex
      then show ?thesis using IH [of cs] Cons lex_hex by simp
    next
      case (sep d r)
      then show ?thesis using IH [of r] Cons lex_separator [of d acc "json_body r @ CHR 0x22 # rest"] by simp
    next
      case plain
      then show ?thesis using IH [of cs] Cons by (simp add: flush_def)
    qed
  qed
qed

lemma lex_quote: "lex LStart (json_quote s @ rest) = map_option (Cons (TLit (JStr s))) (lex LStart rest)"
  using lex_body [of "[]" s rest] by (simp add: json_quote_def json_ws_def)

text \<open>Words: \<^verbatim>\<open>true\<close>, \<^verbatim>\<open>false\<close>, \<^verbatim>\<open>null\<close> and numbers, which end at a punctuation mark.\<close>

definition plain_char :: "char \<Rightarrow> bool" where
  "plain_char c \<longleftrightarrow> \<not> json_ws c \<and> c \<noteq> CHR 0x22 \<and> punct c = None"

definition separated :: "string \<Rightarrow> bool" where
  "separated rest \<longleftrightarrow> (case rest of [] \<Rightarrow> True | c # _ \<Rightarrow> punct c \<noteq> None)"

lemma punct_not_ws: "punct c = Some t \<Longrightarrow> \<not> json_ws c \<and> c \<noteq> CHR 0x22"
  by (auto simp: punct_def json_ws_def split: if_splits)

lemma lex_word_from:
  assumes "list_all plain_char w" "separated rest" "word_tok (rev acc @ w) = Some t"
  shows "lex (LWord acc) (w @ rest) = map_option (Cons t) (lex LStart rest)"
  using assms(1,3)
proof (induction w arbitrary: acc)
  case Nil
  show ?case
  proof (cases rest)
    case Nil
    then show ?thesis using Nil.prems by simp
  next
    case (Cons c cs)
    then obtain t' where "punct c = Some t'" using assms(2) by (auto simp: separated_def)
    then show ?thesis using Cons Nil.prems punct_not_ws [of c t'] by (simp add: option.map_comp comp_def)
  qed
next
  case (Cons c w)
  then show ?case by (simp add: plain_char_def)
qed

lemma lex_word:
  assumes "list_all plain_char w" "w \<noteq> []" "separated rest" "word_tok w = Some t"
  shows "lex LStart (w @ rest) = map_option (Cons t) (lex LStart rest)"
proof (cases w)
  case (Cons c w')
  then show ?thesis using assms lex_word_from [of w' rest "[c]" t] by (simp add: plain_char_def)
qed (use assms(2) in simp)

lemma plain_number_chars:
  "is_digit c \<Longrightarrow> plain_char c" "plain_char (CHR ''e'')" "plain_char (CHR ''E'')" "plain_char (CHR ''+'')"
  "plain_char (CHR ''-'')" "plain_char (CHR ''.'')" "plain_char (CHR ''0'')"
proof -
  let ?special = "[CHR '' '', CHR 0x09, CHR 0x0A, CHR 0x0D, CHR 0x22, CHR ''['', CHR '']'', CHR ''{'', CHR ''}'', CHR '','', CHR '':'']"
  have plain: "plain_char c \<longleftrightarrow> c \<notin> set ?special" for c
    by (simp add: plain_char_def json_ws_def punct_def)
  have "list_all (\<lambda>c. \<not> is_digit c) ?special" by code_simp
  then show "is_digit c \<Longrightarrow> plain_char c" unfolding plain list_all_iff by blast
qed (simp_all add: plain_char_def json_ws_def punct_def)

lemma digits1_plain:
  assumes "digits1 s = Some r" "list_all plain_char r" shows "list_all plain_char s"
proof -
  have "dropWhile is_digit s = r" using assms(1) by (auto simp: digits1_def split: list.splits if_splits)
  then have "s = takeWhile is_digit s @ r" using takeWhile_dropWhile_id by metis
  moreover have "list_all plain_char (takeWhile is_digit s)"
    unfolding list_all_iff using plain_number_chars(1) set_takeWhileD by metis
  ultimately show ?thesis using assms(2) by (metis list_all_append)
qed

lemma num_exp_plain:
  assumes "num_exp s" shows "list_all plain_char s"
proof (cases s)
  case (Cons c r)
  have c: "c = CHR ''e'' \<or> c = CHR ''E''" using assms Cons by (simp add: num_exp_def)
  obtain r' where r': "r = r' \<or> (\<exists>d. r = d # r' \<and> (d = CHR ''+'' \<or> d = CHR ''-''))" "digits1 r' = Some []"
  proof (cases "\<exists>d q. r = d # q \<and> (d = CHR ''+'' \<or> d = CHR ''-'')")
    case True
    then obtain d q where "r = d # q" "d = CHR ''+'' \<or> d = CHR ''-''" by blast
    then show thesis using that [of q] assms Cons by (simp add: num_exp_def Let_def)
  next
    case False
    then show thesis using that [of r] assms Cons by (cases r) (simp_all add: num_exp_def Let_def)
  qed
  have "list_all plain_char r'" using digits1_plain [OF r'(2)] by simp
  then show ?thesis using Cons c r'(1) plain_number_chars(2-5) by fastforce
qed simp

lemma num_frac_plain:
  assumes "num_frac s" shows "list_all plain_char s"
proof (cases s)
  case (Cons c r)
  show ?thesis
  proof (cases "c = CHR ''.''")
    case True
    then obtain r' where "digits1 r = Some r'" "num_exp r'"
      using assms Cons by (cases "digits1 r") (simp_all add: num_frac_def)
    then show ?thesis using True Cons digits1_plain num_exp_plain plain_number_chars(6) by simp
  next
    case False
    then have "num_exp s" using assms Cons by (simp add: num_frac_def)
    then show ?thesis by (rule num_exp_plain)
  qed
qed simp

lemma number_chars:
  assumes "is_number l" shows "list_all plain_char l \<and> l \<noteq> []"
proof -
  define s where "s = trim_prefix l ''-''"
  have "list_all plain_char s \<and> s \<noteq> []"
  proof (cases s)
    case Nil
    then show ?thesis using assms by (simp add: is_number_def Let_def s_def)
  next
    case (Cons c r)
    show ?thesis
    proof (cases "c = CHR ''0''")
      case True
      then have "num_frac r" using assms Cons by (simp add: is_number_def Let_def s_def)
      then show ?thesis using True Cons num_frac_plain plain_number_chars(7) by simp
    next
      case False
      then obtain r' where "digits1 s = Some r'" "num_frac r'"
        using assms Cons by (cases "digits1 s") (simp_all add: is_number_def Let_def s_def)
      then have "list_all plain_char s" using digits1_plain num_frac_plain by blast
      then show ?thesis using Cons by simp
    qed
  qed
  moreover have "l = s \<or> l = CHR ''-'' # s"
    by (cases l) (auto simp: s_def trim_prefix_def has_prefix_def)
  ultimately show ?thesis using plain_number_chars(5) by auto
qed

section \<open>The text can be read back\<close>

text \<open>Keys in order at every level; the text of a value whose keys already are.\<close>

fun order_keys :: "json \<Rightarrow> json" where
  "order_keys (JArr vs) = JArr (map order_keys vs)"
| "order_keys (JObj kvs) = JObj (sort_key fst (map (\<lambda>kv. (fst kv, order_keys (snd kv))) kvs))"
| "order_keys v = v"

fun print_json :: "json \<Rightarrow> string" where
  "print_json JNull = ''null''"
| "print_json (JBool b) = (if b then ''true'' else ''false'')"
| "print_json (JNum l) = l"
| "print_json (JStr s) = json_quote s"
| "print_json (JArr vs) = ''['' @ join '','' (map print_json vs) @ '']''"
| "print_json (JObj kvs) = ''{'' @ join '','' (map (\<lambda>kv. json_quote (fst kv) @ '':'' @ print_json (snd kv)) kvs) @ ''}''"

lemma insort_map: "insort_key fst (k, f v) (map (\<lambda>kv. (fst kv, f (snd kv))) kvs) =
   map (\<lambda>kv. (fst kv, f (snd kv))) (insort_key fst (k, v) kvs)"
  by (induction kvs) auto

lemma sort_map: "sort_key fst (map (\<lambda>kv. (fst kv, f (snd kv))) kvs) = map (\<lambda>kv. (fst kv, f (snd kv))) (sort_key fst kvs)"
proof (induction kvs)
  case (Cons kv kvs)
  then show ?case using insort_map [of "fst kv" f "snd kv" "sort_key fst kvs"] by simp
qed simp

lemma marshalValue_print: "marshalValue v = print_json (order_keys v)"
proof (induction v)
  case (JArr vs)
  then show ?case by (simp add: comp_def cong: map_cong)
next
  case (JObj kvs)
  then have "map (\<lambda>kv. (fst kv, marshalValue (snd kv))) kvs = map (\<lambda>kv. (fst kv, print_json (snd kv))) (map (\<lambda>kv. (fst kv, order_keys (snd kv))) kvs)"
    by (fastforce simp: snds.simps)
  then show ?case by (simp only: marshalValue.simps order_keys.simps print_json.simps sort_map [of print_json]) (simp add: comp_def)
qed simp_all

fun commas :: "tok list list \<Rightarrow> tok list" where
  "commas [] = []"
| "commas [x] = x"
| "commas (x # y # zs) = x @ TComma # commas (y # zs)"

fun toks :: "json \<Rightarrow> tok list" where
  "toks (JArr vs) = TLBrack # commas (map toks vs) @ [TRBrack]"
| "toks (JObj kvs) = TLBrace # commas (map (\<lambda>kv. TLit (JStr (fst kv)) # TColon # toks (snd kv)) kvs) @ [TRBrace]"
| "toks v = [TLit v]"

fun numbers_ok :: "json \<Rightarrow> bool" where
  "numbers_ok (JNum l) = is_number l"
| "numbers_ok (JArr vs) = list_all numbers_ok vs"
| "numbers_ok (JObj kvs) = list_all (\<lambda>kv. numbers_ok (snd kv)) kvs"
| "numbers_ok _ = True"

lemma lex_punct: "punct c = Some t \<Longrightarrow> lex LStart (c # cs) = map_option (Cons t) (lex LStart cs)"
  using punct_not_ws [of c t] by simp

lemma lex_marks:
  "lex LStart (CHR '','' # cs) = map_option (Cons TComma) (lex LStart cs)"
  "lex LStart (CHR '':'' # cs) = map_option (Cons TColon) (lex LStart cs)"
  "lex LStart (CHR ''['' # cs) = map_option (Cons TLBrack) (lex LStart cs)"
  "lex LStart (CHR '']'' # cs) = map_option (Cons TRBrack) (lex LStart cs)"
  "lex LStart (CHR ''{'' # cs) = map_option (Cons TLBrace) (lex LStart cs)"
  "lex LStart (CHR ''}'' # cs) = map_option (Cons TRBrace) (lex LStart cs)"
  by (rule lex_punct, simp add: punct_def)+

lemmas punct_eval = punct_def separated_def

lemma lex_commas:
  assumes "\<And>x rest. x \<in> set xs \<Longrightarrow> separated rest \<Longrightarrow>
      lex LStart (f x @ rest) = map_option ((@) (g x)) (lex LStart rest)"
    and "separated rest"
  shows "lex LStart (join '','' (map f xs) @ rest) = map_option ((@) (commas (map g xs))) (lex LStart rest)"
  using assms(1)
proof (induction xs rule: induct_list012)
  case 1
  then show ?case by (simp add: option.map_ident)
next
  case (2 x)
  then show ?case using assms(2) by simp
next
  case (3 x y zs)
  have "lex LStart (f x @ '','' @ join '','' (map f (y # zs)) @ rest) =
      map_option ((@) (g x)) (lex LStart ('','' @ join '','' (map f (y # zs)) @ rest))"
    by (rule "3.prems") (simp_all add: punct_eval)
  also have "\<dots> = map_option ((@) (g x)) (map_option (Cons TComma) (map_option ((@) (commas (map g (y # zs)))) (lex LStart rest)))"
    using "3.IH"(2) "3.prems" by (simp add: lex_marks del: lex.simps)
  finally show ?case by (simp add: option.map_comp comp_def)
qed

lemma lex_print:
  assumes "numbers_ok v" "separated rest"
  shows "lex LStart (print_json v @ rest) = map_option ((@) (toks v)) (lex LStart rest)"
  using assms
proof (induction v arbitrary: rest)
  case JNull
  have "lex LStart (''null'' @ rest) = map_option (Cons (TLit JNull)) (lex LStart rest)"
    using JNull by (intro lex_word) (simp_all add: plain_char_def json_ws_def punct_def word_tok_def)
  then show ?case by simp
next
  case (JBool b)
  have "lex LStart ((if b then ''true'' else ''false'') @ rest) = map_option (Cons (TLit (JBool b))) (lex LStart rest)"
    using JBool by (intro lex_word) (simp_all add: plain_char_def json_ws_def punct_def word_tok_def)
  then show ?case by simp
next
  case (JNum l)
  have "l \<noteq> ''true''" "l \<noteq> ''false''" "l \<noteq> ''null''"
    using JNum(1) by (auto simp: is_number_def trim_prefix_def has_prefix_def digits1_def is_digit_def)
  then have "lex LStart (l @ rest) = map_option (Cons (TLit (JNum l))) (lex LStart rest)"
    using JNum number_chars [of l] by (intro lex_word) (simp_all add: word_tok_def)
  then show ?case by simp
next
  case (JStr s)
  then show ?case using lex_quote by simp
next
  case (JArr vs)
  have "lex LStart (join '','' (map print_json vs) @ '']'' @ rest) =
      map_option ((@) (commas (map toks vs))) (lex LStart ('']'' @ rest))"
    using JArr by (intro lex_commas) (auto simp: list_all_iff punct_eval)
  then show ?case by (simp add: lex_marks option.map_comp comp_def del: lex.simps)
next
  case (JObj kvs)
  have "lex LStart (join '','' (map (\<lambda>kv. json_quote (fst kv) @ '':'' @ print_json (snd kv)) kvs) @ ''}'' @ rest) =
      map_option ((@) (commas (map (\<lambda>kv. TLit (JStr (fst kv)) # TColon # toks (snd kv)) kvs))) (lex LStart (''}'' @ rest))"
  proof (intro lex_commas)
    fix kv rest
    assume kv: "kv \<in> set kvs" and sep: "separated rest"
    have "lex LStart (print_json (snd kv) @ rest) = map_option ((@) (toks (snd kv))) (lex LStart rest)"
      using JObj.IH [of kv "snd kv" rest] JObj.prems(1) kv sep by (auto simp: list_all_iff snds.simps)
    then show "lex LStart ((json_quote (fst kv) @ '':'' @ print_json (snd kv)) @ rest) =
        map_option ((@) (TLit (JStr (fst kv)) # TColon # toks (snd kv))) (lex LStart rest)"
      by (cases "lex LStart rest") (simp_all add: lex_quote lex_marks del: lex.simps)
  qed (simp add: punct_eval)
  then show ?case by (simp add: lex_marks option.map_comp comp_def del: lex.simps)
qed

lemma parse_elems:
  assumes "\<And>v st ts. v \<in> set vs \<Longrightarrow> parse st PVal (toks v @ ts) = parse st (PEnd v) ts" "vs \<noteq> []"
  shows "parse (FArr us # st) PVal (commas (map toks vs) @ TRBrack # ts) = parse st (PEnd (JArr (us @ vs))) ts"
  using assms
proof (induction vs arbitrary: us rule: induct_list012)
  case (3 x y zs)
  have "parse (FArr us # st) PVal (toks x @ TComma # commas (map toks (y # zs)) @ TRBrack # ts) =
      parse (FArr (us @ [x]) # st) PVal (commas (map toks (y # zs)) @ TRBrack # ts)"
    using "3.prems"(1) [of x] by simp
  then show ?case using "3.IH"(2) [of "us @ [x]"] "3.prems" by simp
qed simp_all

lemma parse_fields:
  assumes "\<And>kv st ts. kv \<in> set kvs \<Longrightarrow> parse st PVal (toks (snd kv) @ ts) = parse st (PEnd (snd kv)) ts" "kvs \<noteq> []"
  shows "parse st (PKey b us) (commas (map (\<lambda>kv. TLit (JStr (fst kv)) # TColon # toks (snd kv)) kvs) @ TRBrace # ts) =
    parse st (PEnd (JObj (us @ kvs))) ts"
  using assms
proof (induction kvs arbitrary: us b rule: induct_list012)
  case (3 x y zs)
  have "parse st (PKey b us) ((TLit (JStr (fst x)) # TColon # toks (snd x)) @
        TComma # commas (map (\<lambda>kv. TLit (JStr (fst kv)) # TColon # toks (snd kv)) (y # zs)) @ TRBrace # ts) =
      parse st (PKey False (us @ [x])) (commas (map (\<lambda>kv. TLit (JStr (fst kv)) # TColon # toks (snd kv)) (y # zs)) @ TRBrace # ts)"
    using "3.prems"(1) [of x] by simp
  then show ?case using "3.IH"(2) [of False "us @ [x]"] "3.prems" by simp
qed simp_all

lemma toks_start: "\<exists>t ts. toks v = t # ts \<and> t \<noteq> TRBrack"
  by (cases v) auto

lemma commas_start: "vs \<noteq> [] \<Longrightarrow> \<exists>t ts. commas (map toks vs) = t # ts \<and> t \<noteq> TRBrack"
  using toks_start by (induction vs rule: induct_list012) (auto, metis append_Cons)

lemma parse_start: "t \<noteq> TRBrack \<Longrightarrow> parse st PArr0 (t # ts) = parse (FArr [] # st) PVal (t # ts)"
  by (cases t) simp_all

lemma parse_toks: "parse st PVal (toks v @ ts) = parse st (PEnd v) ts"
proof (induction v arbitrary: st ts)
  case (JArr vs)
  show ?case
  proof (cases "vs = []")
    case False
    then obtain t us where "commas (map toks vs) = t # us" "t \<noteq> TRBrack" using commas_start by blast
    then have "parse st PArr0 (commas (map toks vs) @ TRBrack # ts) =
        parse (FArr [] # st) PVal (commas (map toks vs) @ TRBrack # ts)"
      using parse_start by simp
    then show ?thesis using parse_elems [of vs "[]" st ts] JArr False by simp
  qed simp
next
  case (JObj kvs)
  have ih: "parse st PVal (toks (snd kv) @ ts) = parse st (PEnd (snd kv)) ts" if "kv \<in> set kvs" for kv st ts
    using JObj.IH [of kv "snd kv"] that by (auto simp: snds.simps)
  show ?case
  proof (cases "kvs = []")
    case False
    then show ?thesis using parse_fields [of kvs st True "[]" ts, OF ih] by simp
  qed simp
qed simp_all

theorem json_parse_print: "numbers_ok v \<Longrightarrow> json_parse (print_json v) = Some v"
  using lex_print [of v "[]"] parse_toks [of "[]" v "[]"] by (simp add: json_parse_def separated_def)

section \<open>What the payload says about the card\<close>

lemma struct_fields_Cons:
  "struct_fields (f # fs) = (case snd f of None \<Rightarrow> struct_fields fs | Some j \<Rightarrow> (fst f, j) # struct_fields fs)"
  by (cases f) (simp add: struct_fields_def split: option.splits)

lemma struct_fields_sub: "set (map fst (struct_fields fs)) \<subseteq> set (map fst fs)"
  by (induction fs) (auto simp: struct_fields_Cons struct_fields_def [of "[]"] simp del: set_map split: option.splits)

lemma map_of_struct_fields:
  "distinct (map fst fs) \<Longrightarrow> map_of (struct_fields fs) k = Option.bind (map_of fs k) id"
proof (induction fs)
  case (Cons f fs)
  have "map_of (struct_fields fs) k = None" if "k \<notin> set (map fst fs)"
    using that struct_fields_sub [of fs] by (auto simp: map_of_eq_None_iff)
  with Cons show ?case
    by (cases f) (auto simp: struct_fields_Cons split: option.splits)
qed (simp add: struct_fields_def)

lemma keys_struct_fields: "distinct (map fst fs) \<Longrightarrow> distinct (map fst (struct_fields fs))"
proof (induction fs)
  case (Cons f fs)
  then show ?case
    using struct_fields_sub [of fs] by (auto simp: struct_fields_Cons simp del: set_map split: option.splits)
qed (simp add: struct_fields_def)

lemma of_pairs_append: "of_pairs (xs @ [kv]) = AList.update (fst kv) (snd kv) (of_pairs xs)"
  by (simp add: of_pairs_def)

lemma keys_of_pairs: "distinct (map fst (of_pairs kvs))"
proof (induction kvs rule: rev_induct)
  case (snoc kv kvs)
  then show ?case by (simp add: of_pairs_append distinct_update)
qed (simp add: of_pairs_def)

lemma map_of_of_pairs: "distinct (map fst kvs) \<Longrightarrow> map_of (of_pairs kvs) k = map_of kvs k"
proof (induction kvs rule: rev_induct)
  case (snoc kv kvs)
  have "map_of kvs (fst kv) = None" using snoc.prems by (simp add: map_of_eq_None_iff)
  then have "map_of (kvs @ [kv]) k = (if k = fst kv then Some (snd kv) else map_of kvs k)"
    by (cases kv) (auto simp: map_add_def split: option.splits)
  with snoc show ?case by (simp add: of_pairs_append update_conv')
qed (simp add: of_pairs_def)

lemma those_map: "those (map f xs) = Some ys \<Longrightarrow> list_all2 (\<lambda>x y. f x = Some y) xs ys"
  by (induction xs arbitrary: ys) (auto split: option.splits)

lemma map_of_zip_those:
  assumes "those (map (\<lambda>kv. f (snd kv)) kvs) = Some vs"
  shows "map_of (zip (map fst kvs) vs) k = Option.bind (map_of kvs k) f"
  using those_map [OF assms] by (induction kvs arbitrary: vs) (auto simp: list_all2_Cons1)

lemma map_of_interface:
  assumes "to_interface num (JObj kvs) = Some (JObj m)" "distinct (map fst kvs)"
  shows "map_of m k = Option.bind (map_of kvs k) (to_interface num)" "distinct (map fst m)"
proof -
  obtain vs where vs: "those (map (\<lambda>kv. to_interface num (snd kv)) kvs) = Some vs" "m = of_pairs (zip (map fst kvs) vs)"
    using assms(1) by auto
  have "length vs = length kvs" using those_map [OF vs(1)] by (simp add: list_all2_lengthD)
  then have "distinct (map fst (zip (map fst kvs) vs))" using assms(2) by simp
  then show "map_of m k = Option.bind (map_of kvs k) (to_interface num)"
    using map_of_of_pairs map_of_zip_those [OF vs(1)] vs(2) by simp
  show "distinct (map fst m)" using keys_of_pairs vs(2) by simp
qed

lemma keys_clean: "set (map fst (removeEmptyFields m)) \<subseteq> set (map fst m)"
  by (induction m) (auto simp del: set_map split: option.splits)

lemma map_of_clean:
  "distinct (map fst m) \<Longrightarrow> map_of (removeEmptyFields m) k = Option.bind (map_of m k) clean_value"
proof (induction m)
  case (Cons kv m)
  have "map_of (removeEmptyFields m) k = None" if "k \<notin> fst ` set m"
    using that keys_clean [of m] by (auto simp: map_of_eq_None_iff)
  with Cons show ?case by (cases kv) (auto split: option.splits)
qed simp

lemma distinct_clean: "distinct (map fst m) \<Longrightarrow> distinct (map fst (removeEmptyFields m))"
proof (induction m)
  case (Cons kv m)
  then show ?case using keys_clean [of m] by (cases kv) (auto split: option.splits)
qed simp

lemma map_of_order_keys:
  assumes "order_keys (JObj m) = JObj m'" "distinct (map fst m)"
  shows "map_of m' k = map_option order_keys (map_of m k)"
proof -
  have m': "m' = map (\<lambda>kv. (fst kv, order_keys (snd kv))) (sort_key fst m)"
    using assms(1) by (simp add: sort_map)
  have d: "distinct (map fst (sort_key fst m))" using assms(2) by (simp add: distinct_map)
  have "map_of (sort_key fst m) k = map_of m k" using map_of_inject_set [OF d assms(2)] by simp
  moreover have "map_of (map (\<lambda>kv. (fst kv, order_keys (snd kv))) n) k = map_option order_keys (map_of n k)" for n
    by (induction n) auto
  ultimately show ?thesis using m' by simp
qed

lemma those_all:
  "those (map f xs) = Some ys \<Longrightarrow> \<forall>x \<in> set xs. \<forall>y. f x = Some y \<longrightarrow> P y \<Longrightarrow> list_all P ys"
  by (induction xs arbitrary: ys) (auto split: option.splits)

lemma of_pairs_all:
  assumes "list_all P ps" "\<And>k v w. P (k, v) = P (w, v)"
  shows "list_all P (of_pairs ps)"
proof -
  have "list_all P m \<Longrightarrow> P (k, v) \<Longrightarrow> list_all P (AList.update k v m)" for k v m
    using assms(2) by (induction m) auto
  then show ?thesis using assms(1)
    by (induction ps rule: rev_induct) (simp_all add: of_pairs_append of_pairs_def)
qed

lemma numbers_interface:
  assumes "\<And>l s. num l = Some s \<Longrightarrow> is_number s"
  shows "to_interface num v = Some w \<Longrightarrow> numbers_ok w"
proof (induction v arbitrary: w)
  case (JArr vs)
  then obtain ws where w: "those (map (to_interface num) vs) = Some ws" "w = JArr ws" by auto
  have "list_all numbers_ok ws" using those_all [OF w(1)] JArr.IH by blast
  then show ?case using w by simp
next
  case (JObj kvs)
  then obtain vs where vs: "those (map (\<lambda>kv. to_interface num (snd kv)) kvs) = Some vs" "w = JObj (of_pairs (zip (map fst kvs) vs))"
    by auto
  have all: "list_all numbers_ok vs" using those_all [OF vs(1), of numbers_ok] JObj.IH by (force simp: snds.simps)
  have "list_all (\<lambda>kv. numbers_ok (snd kv)) (zip (map fst kvs) vs)"
    using all by (auto simp: list_all_iff dest!: set_zip_rightD)
  then have "list_all (\<lambda>kv. numbers_ok (snd kv)) (of_pairs (zip (map fst kvs) vs))" by (rule of_pairs_all) simp
  then show ?case using vs by simp
qed (use assms in auto)

lemma numbers_clean:
  "numbers_ok v \<Longrightarrow> clean_value v = Some w \<Longrightarrow> numbers_ok w"
  "list_all (\<lambda>kv. numbers_ok (snd kv)) m \<Longrightarrow> list_all (\<lambda>kv. numbers_ok (snd kv)) (removeEmptyFields m)"
  "list_all numbers_ok vs \<Longrightarrow> list_all numbers_ok (clean_elems vs)"
  by (induction v and m and vs arbitrary: w rule: clean_value_removeEmptyFields_clean_elems.induct)
    (auto simp: Let_def split: if_splits option.splits)

lemma numbers_order: "numbers_ok v \<Longrightarrow> numbers_ok (order_keys v)"
  by (induction v) (fastforce simp: list_all_iff snds.simps)+

lemma signed_content_lookup:
  assumes "signed_content num d = Inr c"
  shows "\<exists>caps. map_of c k =
      (if k = ''signatures'' then None
       else Option.bind (Option.bind (Option.bind (map_of (card_fields caps d) k) id) (to_interface num)) clean_value)"
    and "distinct (map fst c)"
proof -
  obtain raw m where raw: "card_json d = Some raw" "to_interface num (JObj raw) = Some (JObj m)"
    and c: "c = removeEmptyFields (AList.delete ''signatures'' m)"
    using assms by (auto simp: signed_content_def split: option.splits json.splits)
  obtain caps where caps: "raw = struct_fields (card_fields caps d)"
    using raw(1) by (auto simp: card_json_def split: option.splits)
  have d: "distinct (map fst (card_fields caps d))" by (simp add: card_fields_def)
  have m: "map_of m k = Option.bind (map_of raw k) (to_interface num)" "distinct (map fst m)"
    using map_of_interface [OF raw(2)] keys_struct_fields [OF d] caps by auto
  have del: "distinct (map fst (AList.delete ''signatures'' m))" using m(2) by (simp add: distinct_delete)
  have "map_of c k = (if k = ''signatures'' then None else
      Option.bind (Option.bind (Option.bind (map_of (card_fields caps d) k) id) (to_interface num)) clean_value)"
    using map_of_clean [OF del] m(1) map_of_struct_fields [OF d] caps c by (simp add: delete_conv')
  then show "\<exists>caps. map_of c k = (if k = ''signatures'' then None
       else Option.bind (Option.bind (Option.bind (map_of (card_fields caps d) k) id) (to_interface num)) clean_value)"
    by blast
  show "distinct (map fst c)" using distinct_clean [OF del] c by simp
qed

lemma canonical_reads_back:
  assumes "\<And>l s. num l = Some s \<Longrightarrow> is_number s" "signed_content num d = Inr c"
  shows "json_parse (marshalCanonical c) = Some (order_keys (JObj c))"
proof -
  obtain raw m where m: "to_interface num (JObj raw) = Some (JObj m)"
    and c: "c = removeEmptyFields (AList.delete ''signatures'' m)"
    using assms(2) by (auto simp: signed_content_def split: option.splits json.splits)
  have "numbers_ok (JObj m)" using numbers_interface [OF assms(1) m] .
  then have "list_all (\<lambda>kv. numbers_ok (snd kv)) (AList.delete ''signatures'' m)"
    by (simp add: list_all_iff AList.delete_eq)
  then have "numbers_ok (JObj c)" using numbers_clean(2) c by simp
  from json_parse_print [OF numbers_order [OF this]] show ?thesis
    by (simp only: marshalCanonical_def marshalValue_print)
qed

text \<open>The fields of a card whose value a reader of the payload can see, empty entries of lists apart.\<close>

definition visible :: "AgentCardData \<Rightarrow> string list \<times> string list list \<times> bool option" where
  "visible d =
     ([CardName d, Description d, Version d, CardURL d, DocumentationURL d, IconURL d],
      map (filter (\<lambda>s. s \<noteq> [])) [DefaultInputModes d, DefaultOutputModes d],
      SupportsAuthenticatedExtendedCard d)"

lemma clean_strings: "clean_elems (map JStr ss) = map JStr (filter (\<lambda>s. s \<noteq> []) ss)"
  by (induction ss) auto

lemma those_strings: "those (map (to_interface num) (map JStr ss)) = Some (map JStr ss)"
  by (induction ss) auto

lemma visible_lookup:
  assumes "signed_content num d = Inr c"
  shows "map_of c ''name'' = opt_str (CardName d)" "map_of c ''description'' = opt_str (Description d)"
    "map_of c ''version'' = opt_str (Version d)" "map_of c ''url'' = opt_str (CardURL d)"
    "map_of c ''documentationUrl'' = opt_str (DocumentationURL d)" "map_of c ''iconUrl'' = opt_str (IconURL d)"
    "map_of c ''defaultInputModes'' = opt_list (map JStr (filter (\<lambda>s. s \<noteq> []) (DefaultInputModes d)))"
    "map_of c ''defaultOutputModes'' = opt_list (map JStr (filter (\<lambda>s. s \<noteq> []) (DefaultOutputModes d)))"
    "map_of c ''supportsAuthenticatedExtendedCard'' = map_option JBool (SupportsAuthenticatedExtendedCard d)"
proof -
  have str: "Option.bind (opt_str s) (\<lambda>y. Option.bind (to_interface num y) clean_value) = opt_str s" for s
    by (simp add: opt_str_def)
  have lst: "Option.bind (opt_list (map JStr ss)) (\<lambda>y. Option.bind (to_interface num y) clean_value) =
      opt_list (map JStr (filter (\<lambda>s. s \<noteq> []) ss))" for ss
    by (simp add: opt_list_def those_strings clean_strings Let_def filter_empty_conv del: map_map)
  have bool: "Option.bind (map_option JBool b) (\<lambda>y. Option.bind (to_interface num y) clean_value) = map_option JBool b" for b
    by (cases b) simp_all
  note look = signed_content_lookup(1) [OF assms]
  from look [of "''name''"] look [of "''description''"] look [of "''version''"] look [of "''url''"]
    look [of "''documentationUrl''"] look [of "''iconUrl''"] look [of "''defaultInputModes''"]
    look [of "''defaultOutputModes''"] look [of "''supportsAuthenticatedExtendedCard''"]
  show "map_of c ''name'' = opt_str (CardName d)" "map_of c ''description'' = opt_str (Description d)"
    "map_of c ''version'' = opt_str (Version d)" "map_of c ''url'' = opt_str (CardURL d)"
    "map_of c ''documentationUrl'' = opt_str (DocumentationURL d)" "map_of c ''iconUrl'' = opt_str (IconURL d)"
    "map_of c ''defaultInputModes'' = opt_list (map JStr (filter (\<lambda>s. s \<noteq> []) (DefaultInputModes d)))"
    "map_of c ''defaultOutputModes'' = opt_list (map JStr (filter (\<lambda>s. s \<noteq> []) (DefaultOutputModes d)))"
    "map_of c ''supportsAuthenticatedExtendedCard'' = map_option JBool (SupportsAuthenticatedExtendedCard d)"
    by (simp_all add: card_fields_def str lst bool)
qed

text \<open>
  C4. The payload that is signed determines the card: it is JSON text that reads back as the
  card's content, keys in order, with the signatures and empty values left out.  So two cards with
  the same payload have the same content, and in particular agree in name, description, version,
  URLs, input and output modes.  No content can be moved between fields, or into a key or a string
  by way of quotes, escapes or separators, without changing what is signed.
\<close>

theorem payload_determines_card:
  assumes num: "\<And>l s. num l = Some s \<Longrightarrow> is_number s"
    and d: "CreateCanonicalCardJSON num d = Inr p" and d': "CreateCanonicalCardJSON num d' = Inr p'"
  shows "\<exists>c c'. signed_content num d = Inr c \<and> signed_content num d' = Inr c' \<and>
    json_parse p = Some (order_keys (JObj c)) \<and>
    (p = p' \<longleftrightarrow> order_keys (JObj c) = order_keys (JObj c')) \<and> (p = p' \<longrightarrow> visible d = visible d')"
proof -
  obtain c c' where c: "signed_content num d = Inr c" "p = marshalCanonical c"
    and c': "signed_content num d' = Inr c'" "p' = marshalCanonical c'"
    using d d' by (auto simp: CreateCanonicalCardJSON_def map_sum_def split: sum.splits)
  have parse: "json_parse p = Some (order_keys (JObj c))" "json_parse p' = Some (order_keys (JObj c'))"
    using canonical_reads_back [OF num] c c' by auto
  moreover have "p = p'" if "order_keys (JObj c) = order_keys (JObj c')"
    using that c c' by (simp add: marshalCanonical_def marshalValue_print del: order_keys.simps)
  moreover have "visible d = visible d'" if eq: "p = p'"
  proof -
    obtain m where m: "order_keys (JObj c) = JObj m" "order_keys (JObj c') = JObj m" using parse eq by simp
    have look: "map_option order_keys (map_of c k) = map_option order_keys (map_of c' k)" for k
      using map_of_order_keys [OF m(1) signed_content_lookup(2) [OF c(1)]]
        map_of_order_keys [OF m(2) signed_content_lookup(2) [OF c'(1)]] by metis
    have str: "s = t" if "map_option order_keys (opt_str s) = map_option order_keys (opt_str t)" for s t
      using that by (auto simp: opt_str_def split: if_splits)
    have jstr: "map JStr ss = map JStr ts \<Longrightarrow> ss = ts" for ss ts by (metis json.inject(3) list.inj_map_strong)
    have lst: "ss = ts" if "map_option order_keys (opt_list (map JStr ss)) = map_option order_keys (opt_list (map JStr ts))" for ss ts
      using that jstr by (auto simp: opt_list_def comp_def split: if_splits)
    have bool: "a = b" if "map_option order_keys (map_option JBool a) = map_option order_keys (map_option JBool b)" for a b
      using that by (cases a; cases b) auto
    show ?thesis
      unfolding visible_def
      using look [of "''name''"] look [of "''description''"] look [of "''version''"] look [of "''url''"]
        look [of "''documentationUrl''"] look [of "''iconUrl''"] look [of "''defaultInputModes''"]
        look [of "''defaultOutputModes''"] look [of "''supportsAuthenticatedExtendedCard''"]
      unfolding visible_lookup [OF c(1)] visible_lookup [OF c'(1)]
      using str lst bool by simp
  qed
  ultimately show ?thesis using c(1) c'(1) by auto
qed

definition demo_card :: "string \<Rightarrow> AgentCardData" where
  "demo_card n =
     \<lparr>CardName = n, Description = ''a <b> card'', Version = ''1'', CardURL = ''http://w'', DocumentationURL = [],
      IconURL = [], Provider = Some \<lparr>Organization = [], ProviderURL = []\<rparr>, Capabilities = None,
      DefaultInputModes = [''text'', []], DefaultOutputModes = [], Skills = [],
      SupportsAuthenticatedExtendedCard = Some False, Signatures = []\<rparr>"

definition demo_num :: "string \<Rightarrow> string option" where
  "demo_num l = (if is_number l then Some l else None)"

theorem payload_determines_card_witness:
  "CreateCanonicalCardJSON demo_num (demo_card ''w'') \<noteq> CreateCanonicalCardJSON demo_num (demo_card ''v'')"
proof -
  have "\<not> isl (CreateCanonicalCardJSON demo_num (demo_card ''w''))" by code_simp
  then obtain p where "CreateCanonicalCardJSON demo_num (demo_card ''w'') = Inr p" by (auto simp: isl_def) (metis sumE)
  moreover have "is_number s" if "demo_num l = Some s" for l s using that by (simp add: demo_num_def split: if_splits)
  moreover have "visible (demo_card ''w'') \<noteq> visible (demo_card ''v'')" by (simp add: visible_def demo_card_def)
  ultimately show ?thesis using payload_determines_card [of demo_num "demo_card ''w''" p "demo_card ''v''" p] by auto
qed

end
