(* ===== verification/Spec2Isabelle.thy ===== *)
theory Spec2Isabelle
  imports TB_Config TB_Api BS_Service WH_Webhook CS_Canonical
begin

text \<open>
  \<^bold>\<open>Verification of the kagenti operator and its token broker.\<close>

  The repository holds two programs.  The \<^emph>\<open>operator\<close> (\<^verbatim>\<open>src/operator\<close>) runs agents on Kubernetes:
  an admission webhook adds an authentication sidecar to the pods of agents and validates custom
  resources, controllers keep objects up to date, and a bundle service hands authorization policies
  to the sidecars.  The \<^emph>\<open>token broker\<close> (\<^verbatim>\<open>src/token-broker\<close>) obtains access tokens for users through
  OAuth flows, one flow per session at a time, and caches them.

  \<^bold>\<open>Conventions.\<close>  A Go string is a list of bytes, a Go map an association list read by
  \<^const>\<open>map_of\<close>, an error a value of \<open>goerr\<close> that keeps what it wraps, a struct a record with the
  field names of the source.  A nil dereference, a send on a closed channel, a write to a nil map or
  an index out of range is a result of its own (\<^const>\<open>None\<close> or \<open>Panic\<close>).  Time is an integer of
  nanoseconds; 32-bit ports wrap explicitly.  Third-party code is an argument of the definitions that
  call it: the HTTP transport, the random source, the YAML codec, the Kubernetes API server's answers,
  the signature check of a token, the text of the Envoy template.  Log messages are left out.

  \<^bold>\<open>Standard library.\<close>  \<open>Prelude\<close> (errors, maps, channels, \<^verbatim>\<open>strings\<close>), \<open>Go_Encoding\<close> (base64url, JSON),
  \<open>Go_Url\<close> (\<^verbatim>\<open>net/url\<close>, quoting), \<open>Go_Sha256\<close> (SHA-256 on 32-bit words), \<open>Go_Strings\<close> (white space,
  integers, durations), each with the laws the components use.

  \<^bold>\<open>Token broker.\<close>
  \<^item> \<open>TB_Core\<close>: \<^verbatim>\<open>internal/core/errors.go\<close>, \<^verbatim>\<open>interfaces.go\<close>, \<^verbatim>\<open>internal/session/semaphore.go\<close>.
  \<^item> \<open>TB_Session\<close>: \<^verbatim>\<open>internal/session/manager.go\<close>.  Session objects live in a store so that a timer can
    refer to a session that is no longer in the map; a history is a sequence of calls and timer
    firings.  Shown: the invariant of the maps and the quota in every history, exactness of the counts,
    and what goes wrong when keys are reused or a fired timer is late.
  \<^item> \<open>TB_Cache\<close>: \<^verbatim>\<open>internal/cache\<close>.  Shown: it implements a map of last stores with the expiry margin.
  \<^item> \<open>TB_Auth\<close>, \<open>TB_OAuth\<close>: \<^verbatim>\<open>internal/auth\<close>, \<^verbatim>\<open>internal/oauth\<close>, \<^verbatim>\<open>pkg/oauth\<close>.  Shown: the authorization
    URL binds the proof key that the exchange later sends.
  \<^item> \<open>TB_Broker\<close>, \<open>TB_Flow\<close>: \<^verbatim>\<open>internal/core/broker.go\<close> as a step relation, one step per access to shared
    state, with callbacks, polls, timers and sweeps interleaved.  Shown: mutual exclusion, no panic,
    progress, and that a request needs at most sixteen steps of its own, the length of the longest path
    through its program counters.
  \<^item> \<open>TB_Api\<close>, \<open>TB_Config\<close>: \<^verbatim>\<open>internal/api\<close> and \<^verbatim>\<open>cmd/main.go\<close>.  Shown: redirects stay on allowed hosts,
    sessions end only by their owner, and what a started broker serves.

  \<^bold>\<open>Bundle service.\<close>
  \<^item> \<open>BS_Identity\<close>, \<open>BS_Bundle\<close>, \<open>BS_Cache\<close>: the packages \<^verbatim>\<open>spiffeid\<close>, \<^verbatim>\<open>identity\<close>, \<^verbatim>\<open>bundle\<close> and \<^verbatim>\<open>cache\<close> of
    \<^verbatim>\<open>operator/internal/bundleservice\<close>.  Shown: identities are read exactly, archives stay within their
    root, the hash identifies the content, the element-store cache is a least-recently-used list.
  \<^item> \<open>BS_Service\<close>: \<^verbatim>\<open>watcher\<close>, \<^verbatim>\<open>provider\<close>, \<^verbatim>\<open>handler\<close>.  Shown: without a change during a build, what is served
    is built from the current policies; and the two races that break it.

  \<^bold>\<open>Webhook\<close> (\<^verbatim>\<open>operator/internal/webhook\<close>).
  \<^item> \<open>WH_Config\<close>: \<^verbatim>\<open>config\<close>.  The contract of a hot-reloaded loader is the locale \<open>hot_reload\<close>, interpreted
    for platform configuration and feature gates.  Shown: only valid snapshots are ever in use.
  \<^item> \<open>WH_Resolve\<close>: \<^verbatim>\<open>injector/namespace_config.go\<close>, \<^verbatim>\<open>resolved_config.go\<close>, \<^verbatim>\<open>precedence.go\<close> and the resolution
    of modes in \<^verbatim>\<open>pod_mutator.go\<close>.
  \<^item> \<open>WH_Pod\<close>: \<^verbatim>\<open>injector/container_builder.go\<close>, \<^verbatim>\<open>volume_builder.go\<close>, \<^verbatim>\<open>keycloak_client_credentials.go\<close>.
  \<^item> \<open>WH_Pipeline\<close>: \<^verbatim>\<open>injector/preset_pipeline.go\<close> and the plugin validation of \<^verbatim>\<open>api/v1alpha1\<close>.  Shown: the
    rendering refines a declarative specification.
  \<^item> \<open>WH_Mutator\<close>, \<open>WH_Inject\<close>: \<^verbatim>\<open>injector/pod_mutator.go\<close>.  An injection first computes a plan, then
    branches on the mode, as the source does; every write to the cluster is appended to a log.  Shown:
    ports are distinct, interception is guarded, the key of the TLS bridge is confined to the sidecar,
    when a panic occurs, and which settings of an AgentRuntime have no effect.
  \<^item> \<open>WH_Webhook\<close>: \<^verbatim>\<open>v1alpha1\<close>, with \<^verbatim>\<open>internal/workload\<close> and \<^verbatim>\<open>internal/clientreg\<close>.  The contract of a
    validator that keeps targets unique is the locale \<open>target_registry\<close>, interpreted for both resources.
    Shown: stability under reinvocation, uniqueness of targets, attribution of pods.

  \<^bold>\<open>Agent cards\<close> (\<^verbatim>\<open>operator/internal/signature\<close>).
  \<^item> \<open>CS_Canonical\<close>: the payload of \<^verbatim>\<open>verifier.go\<close>.  Shown: it is JSON text that reads back, so it determines
    the content of the card.  How a number reads after a trip through \<^verbatim>\<open>float64\<close> is an argument.

  This theory composes the webhook with its configuration loader.

  \<^bold>\<open>Not modelled.\<close>  Informers, HTTP servers, signal handling and the manager of controller-runtime are
  run-time or third-party code; what they trigger is modelled as events.  Generated deep copies and
  scheme registration (\<^verbatim>\<open>zz_generated.deepcopy.go\<close>, \<^verbatim>\<open>groupversion_info.go\<close>) have no behaviour of their
  own on values.
\<close>

section \<open>The webhook with its configuration loader\<close>

lemma reachable_config_valid:
  "Platform_Validate (current (wloader (watch_run (Config_Load unm) evs (snd (Watch missing err NewConfigLoader))))) = None"
  using cfgl.run_sane [of unm evs missing err] by (simp add: NewConfigLoader_def cfgl.sane_def)

lemma handle_panics:
  assumes "snd (Handle M gates marshal req ws) = Panic"
  shows "\<exists>p cr kind labels ann ws'. snd (InjectAuthBridge M p (reqNamespace req) cr kind labels ann ws') = Panic"
  using assms
  by (auto simp: Handle_def Let_def split: if_splits sum.splits prod.splits outcome.splits bool.splits)
    (metis snd_conv)+

text \<open>
  C5. The mutating webhook does not panic, whatever pod it is given and whatever the API server
  answers: not with any platform configuration the loader can have published, in any order of
  file events and reloads, provided the runtime configuration of the namespace is absent, empty or
  has YAML content.  The list of allowed egress modes, of which the injector takes the first
  element without a check, is never empty, because a configuration is validated before it is used.
\<close>

theorem admission_never_panics:
  assumes "mConfig M = current (wloader (watch_run (Config_Load unm) evs (snd (Watch missing err NewConfigLoader))))"
    and "AuthBridgeRuntimeYAML (ReadNamespaceConfig (get_cm (mApi M) (reqNamespace req))) = doc"
    and "doc = [] \<or> y_map (mYaml M) doc \<noteq> Inr None"
  shows "snd (Handle M gates marshal req ws) \<noteq> Panic"
proof
  assume "snd (Handle M gates marshal req ws) = Panic"
  then obtain p cr kind labels ann ws' where
    "snd (InjectAuthBridge M p (reqNamespace req) cr kind labels ann ws') = Panic"
    using handle_panics by blast
  moreover have "AllowedEgressEnforcement (Proxy (mConfig M)) \<noteq> []"
    using valid_allowed(1) reachable_config_valid assms(1) by metis
  ultimately show False using inject_panics assms(2,3) by metis
qed

theorem admission_never_panics_witness:
  "snd (Handle (demo_mutator Transparent ModeEnabled) DefaultFeatureGates (\<lambda>q. None)
     (demo_request demo_workload_pod) []) \<noteq> Panic"
  by (rule admission_never_panics [where evs = "[]" and missing = False and err = None and unm = "\<lambda>s c. Inr c"])
    (simp_all add: demo_fields demo_ns demo_request_def demo_mutator_def demo_yaml_def watch_run_def Watch_def
      NewConfigLoader_def new_loader_def)

end
